theory Spec2Isabelle
  imports Main
begin

section \<open>Python values\<close>

text \<open>
  A Python \<^verbatim>\<open>str\<close> is a sequence of Unicode code points; it is modelled as a list
  of natural numbers (the code points). The program's Cyrillic constants are written as
  their code points, ASCII text through \<open>ascii\<close>.
\<close>

type_synonym pystr = "nat list"

definition ascii :: "string \<Rightarrow> pystr" where
  "ascii s = map of_char s"

abbreviation LF :: nat where "LF \<equiv> 10"
abbreviation CR :: nat where "CR \<equiv> 13"
abbreviation underscore :: nat where "underscore \<equiv> 95"

text \<open>
  A string may hold a lone surrogate (U+D800..U+DFFF): \<^verbatim>\<open>json\<close> decodes the
  escape \<^verbatim>\<open>\ud800\<close> to one. Such a string cannot be encoded as UTF-8: writing it to
  a file opened with \<^verbatim>\<open>encoding="utf-8"\<close> raises \<^verbatim>\<open>UnicodeEncodeError\<close>, and nothing
  of it reaches the file.
\<close>

definition is_surrogate :: "nat \<Rightarrow> bool" where
  "is_surrogate c \<longleftrightarrow> 55296 \<le> c \<and> c \<le> 57343"

definition encodable :: "pystr \<Rightarrow> bool" where
  "encodable s \<longleftrightarrow> list_all (\<lambda>c. \<not> is_surrogate c) s"

text \<open>
  The characters that \<^verbatim>\<open>str.strip()\<close> removes: the code points for which CPython's
  whitespace test holds (U+0009..U+000D, U+001C..U+0020, U+0085, U+00A0, U+1680,
  U+2000..U+200A, U+2028, U+2029, U+202F, U+205F, U+3000).
\<close>

definition py_isspace :: "nat \<Rightarrow> bool" where
  "py_isspace c \<longleftrightarrow>
     (9 \<le> c \<and> c \<le> 13) \<or> (28 \<le> c \<and> c \<le> 32) \<or> c = 133 \<or> c = 160 \<or> c = 5760 \<or>
     (8192 \<le> c \<and> c \<le> 8202) \<or> c = 8232 \<or> c = 8233 \<or> c = 8239 \<or> c = 8287 \<or> c = 12288"

definition py_strip :: "pystr \<Rightarrow> pystr" where
  "py_strip s = rev (dropWhile py_isspace (rev (dropWhile py_isspace s)))"

text \<open>
  The values that \<^verbatim>\<open>r.json()\<close> can produce: \<^verbatim>\<open>None\<close>, booleans, integers, floats
  (kept opaque, identified by their bit pattern), strings, lists and dictionaries
  (an association list; the first binding of a key is the dictionary's entry).
\<close>

datatype json =
    JNull
  | JBool bool
  | JInt int
  | JFloat nat
  | JStr pystr
  | JList "json list"
  | JDict "(pystr \<times> json) list"

text \<open>
  The exceptions that reach an \<^verbatim>\<open>except Exception\<close> handler or escape a function.
  \<open>RequestException m\<close> stands for anything raised inside \<^verbatim>\<open>requests\<close> (transport
  errors, time-outs, a body that is not JSON), with \<open>m\<close> the text of \<^verbatim>\<open>str(e)\<close>.
  The next five are raised by the interpreter: \<^verbatim>\<open>x.get(...)\<close> on a non-dictionary,
  iteration over a non-iterable, hashing a list or dictionary, \<^verbatim>\<open>x + "\n"\<close> for a
  non-string \<open>x\<close>, and the write of a text that UTF-8 cannot encode. The last four are
  raised inside \<^verbatim>\<open>openpyxl\<close>: a string with a control character assigned to a cell, a
  list or dictionary assigned to a cell, a workbook file that cannot be loaded, and
  whatever the XML writer raises while the workbook is saved.
\<close>

datatype pyexn =
    RequestException pystr
  | AttributeError json
  | TypeError_not_iterable json
  | TypeError_unhashable json
  | TypeError_concat json
  | UnicodeEncodeError pystr
  | IllegalCharacterError pystr
  | ValueError_convert json
  | WorkbookError
  | SaveError pystr

section \<open>Environment and state\<close>

text \<open>
  One HTTP request of the program, by the endpoint it addresses and the parameters it
  sends. The proxy setting and the 30 second time-out are the same for every request
  and are part of the remote side's behaviour.
\<close>

datatype request =
    PostFeed pystr pystr pystr
      \<comment> \<open>\<^verbatim>\<open>POST /{page_id}/feed\<close>: page id, access token, message\<close>
  | GetLikes pystr pystr
      \<comment> \<open>\<^verbatim>\<open>GET /{post_id}/likes?summary=true\<close>: post id, access token\<close>
  | GetCommentsSummary pystr pystr
      \<comment> \<open>\<^verbatim>\<open>GET /{post_id}/comments?summary=true\<close>: post id, access token\<close>
  | GetShares pystr pystr
      \<comment> \<open>\<^verbatim>\<open>GET /{post_id}?fields=shares\<close>: post id, access token\<close>
  | GetComments pystr "pystr option" int
      \<comment> \<open>\<^verbatim>\<open>GET /{post_id}/comments?fields=id,message,from\<close>: post id, token, limit\<close>
  | PostLike pystr "pystr option"
      \<comment> \<open>\<^verbatim>\<open>POST /{comment_id}/likes\<close>: the id as the URL spells it, token\<close>
  | PostReply pystr "pystr option" pystr
      \<comment> \<open>\<^verbatim>\<open>POST /{comment_id}/comments\<close>: the id as the URL spells it, token, message\<close>

record response =
  status_code :: int
  resp_text :: pystr
  resp_json :: "pystr + json"
    \<comment> \<open>the outcome of \<^verbatim>\<open>r.json()\<close>: \<open>Inl m\<close> when it raises, with message \<open>m\<close>\<close>

datatype http_result = Raised pyexn | Response response

text \<open>
  Everything the program reads from outside: the configuration taken from the
  environment at start-up, the remote side (its answer may depend on all earlier
  exchanges), the wall clock (the \<open>n\<close>-th reading, already formatted), and the parts of
  the Python runtime and of the libraries whose tables are not in the repository:
  \<^verbatim>\<open>str()\<close> of a value that is not a string, the text of an interpreter exception
  (ASCII: it names types and escapes the characters it quotes), the text of an exception
  raised inside \<^verbatim>\<open>openpyxl\<close>, what saving the workbook does when a cell holds a value
  that XML cannot carry as it is, \<^verbatim>\<open>str.lower\<close>, and the Unicode digit property behind
  \<^verbatim>\<open>str.isdigit\<close>.
\<close>

record stat_row =
  row_post_id :: json
  row_content :: json
  row_likes :: json
  row_comments :: json
  row_shares :: json
  row_last_update :: json

record env =
  FACEBOOK_PAGE_ACCESS_TOKEN :: "pystr option"
  FACEBOOK_PAGE_ID :: "pystr option"
  remote :: "(request \<times> http_result) list \<Rightarrow> request \<Rightarrow> http_result"
  clock :: "nat \<Rightarrow> pystr"
  builtin_str :: "json \<Rightarrow> pystr"
  builtin_exn_text :: "pyexn \<Rightarrow> string"
  openpyxl_exn_text :: "pyexn \<Rightarrow> pystr"
  xlsx_odd :: "stat_row list \<Rightarrow> pyexn + stat_row list option"
  str_lower :: "pystr \<Rightarrow> pystr"
  char_isdigit :: "nat \<Rightarrow> bool"

record log_entry =
  log_time :: pystr
  log_action_name :: pystr
  log_info :: pystr

text \<open>
  The state the program acts on. The two text files may be absent (\<open>None\<close>); each is
  held as the text it decodes to. The workbook is the one \<^verbatim>\<open>init_stats_xlsx\<close> creates at
  start-up, held as \<^verbatim>\<open>load_workbook\<close> reads it: the data rows of the sheet
  \<^verbatim>\<open>Stats\<close> below the header row, in sheet order, each cell with the value read from
  it (\<open>JNull\<close> for an empty cell); \<open>None\<close> when the file can no longer be loaded.
  \<open>exchanges\<close> is the history of HTTP exchanges, oldest first, \<open>clock_reads\<close> the number
  of clock readings so far, \<open>stdout\<close> the lines printed.
\<close>

record world =
  processed_file :: "pystr option"
  posted_file :: "pystr option"
  stats :: "stat_row list option"
  log_file :: "log_entry list"
  exchanges :: "(request \<times> http_result) list"
  clock_reads :: nat
  stdout :: "pystr list"

definition truthy :: "pystr option \<Rightarrow> bool" where
  "truthy v \<longleftrightarrow> (case v of None \<Rightarrow> False | Some s \<Rightarrow> s \<noteq> [])"

definition py_str :: "env \<Rightarrow> json \<Rightarrow> pystr" where
  "py_str e v = (case v of JStr s \<Rightarrow> s | _ \<Rightarrow> builtin_str e v)"

definition str_exn :: "env \<Rightarrow> pyexn \<Rightarrow> pystr" where
  "str_exn e x =
     (case x of
        RequestException m \<Rightarrow> m
      | IllegalCharacterError v \<Rightarrow> openpyxl_exn_text e x
      | ValueError_convert v \<Rightarrow> openpyxl_exn_text e x
      | WorkbookError \<Rightarrow> openpyxl_exn_text e x
      | SaveError m \<Rightarrow> m
      | _ \<Rightarrow> ascii (builtin_exn_text e x))"

function nat_digits :: "nat \<Rightarrow> pystr" where
  "nat_digits n = (if n < 10 then [48 + n] else nat_digits (n div 10) @ [48 + n mod 10])"
  by pat_completeness auto
termination
  by (relation "measure (\<lambda>n. n)") auto

declare nat_digits.simps [simp del]

definition str_int :: "int \<Rightarrow> pystr" where
  "str_int i = (if i < 0 then 45 # nat_digits (nat (- i)) else nat_digits (nat i))"

text \<open>
  \<^verbatim>\<open>log_action\<close> opens the log, reads the clock and writes the line
  \<^verbatim>\<open>[now] action: info\<close>. The formatted time consists of digits, \<^verbatim>\<open>-\<close>, \<^verbatim>\<open>:\<close> and
  a space; when the action or the info holds a lone surrogate the write raises and the
  log stays as it was.
\<close>

definition log_line :: "pystr \<Rightarrow> pystr \<Rightarrow> pystr \<Rightarrow> pystr" where
  "log_line now action info = [91] @ now @ [93, 32] @ action @ [58, 32] @ info @ [LF]"

definition log_action :: "env \<Rightarrow> pystr \<Rightarrow> pystr \<Rightarrow> world \<Rightarrow> world \<times> pyexn option" where
  "log_action e action info w =
     (let now = clock e (clock_reads w);
          w1 = w\<lparr>clock_reads := Suc (clock_reads w)\<rparr>
      in if encodable (action @ info) then
           (w1\<lparr>log_file := log_file w @
                  [\<lparr>log_time = now, log_action_name = action, log_info = info\<rparr>]\<rparr>, None)
         else (w1, Some (UnicodeEncodeError (log_line now action info))))"

section \<open>Record store: the two text files\<close>

text \<open>
  A file opened for reading in text mode translates \<^verbatim>\<open>\r\n\<close> and \<^verbatim>\<open>\r\<close> to
  \<^verbatim>\<open>\n\<close>; iterating over it yields the lines, each with its terminator.
\<close>

fun universal_newlines :: "pystr \<Rightarrow> pystr" where
  "universal_newlines [] = []"
| "universal_newlines (c # cs) =
     (if c = CR then
        (case cs of
           [] \<Rightarrow> [LF]
         | d # ds \<Rightarrow> if d = LF then LF # universal_newlines ds else LF # universal_newlines cs)
      else c # universal_newlines cs)"

fun readlines :: "pystr \<Rightarrow> pystr list" where
  "readlines [] = []"
| "readlines (c # cs) =
     (if c = LF then [LF] # readlines cs
      else (case readlines cs of [] \<Rightarrow> [[c]] | l # ls \<Rightarrow> (c # l) # ls))"

definition text_lines :: "pystr \<Rightarrow> pystr list" where
  "text_lines content = readlines (universal_newlines content)"

text \<open>Appending to a file creates it when it is absent.\<close>

definition append_text :: "pystr option \<Rightarrow> pystr \<Rightarrow> pystr option" where
  "append_text f s = Some ((case f of None \<Rightarrow> [] | Some c \<Rightarrow> c) @ s)"

text \<open>
  \<^verbatim>\<open>f.write(s)\<close> on a file opened for appending with \<^verbatim>\<open>encoding="utf-8"\<close>: the
  file exists afterwards; the text is appended, unless it cannot be encoded.
\<close>

definition write_text :: "pystr option \<Rightarrow> pystr \<Rightarrow> pystr option \<times> pyexn option" where
  "write_text f s =
     (if encodable s then (append_text f s, None)
      else (append_text f [], Some (UnicodeEncodeError s)))"

fun load_processed_lines :: "pystr list \<Rightarrow> pystr set \<Rightarrow> pystr set" where
  "load_processed_lines [] s = s"
| "load_processed_lines (line # ls) s =
     (let c_id = py_strip line
      in load_processed_lines ls (if c_id \<noteq> [] then insert c_id s else s))"

definition load_processed_comments :: "world \<Rightarrow> pystr set" where
  "load_processed_comments w =
     (case processed_file w of
        None \<Rightarrow> {}
      | Some content \<Rightarrow> load_processed_lines (text_lines content) {})"

text \<open>
  \<^verbatim>\<open>f.write(comment_id + "\n")\<close>: the file is opened (and created) first; the
  concatenation raises \<^verbatim>\<open>TypeError\<close> when the id is not a string.
\<close>

definition save_processed_comment :: "json \<Rightarrow> world \<Rightarrow> world \<times> pyexn option" where
  "save_processed_comment comment_id w =
     (case comment_id of
        JStr s \<Rightarrow>
          (case write_text (processed_file w) (s @ [LF]) of
             (f, r) \<Rightarrow> (w\<lparr>processed_file := f\<rparr>, r))
      | _ \<Rightarrow> (w\<lparr>processed_file := append_text (processed_file w) []\<rparr>,
              Some (TypeError_concat comment_id)))"

fun load_posted_lines :: "pystr list \<Rightarrow> pystr list \<Rightarrow> pystr list" where
  "load_posted_lines [] posts = posts"
| "load_posted_lines (line # ls) posts =
     (let p_id = py_strip line
      in load_posted_lines ls (if p_id \<noteq> [] then posts @ [p_id] else posts))"

definition load_posted_posts :: "world \<Rightarrow> pystr list" where
  "load_posted_posts w =
     (case posted_file w of
        None \<Rightarrow> []
      | Some content \<Rightarrow> load_posted_lines (text_lines content) [])"

text \<open>
  \<^verbatim>\<open>post_id not in posts\<close> holds of every value that is not a string, and then
  \<^verbatim>\<open>post_id + "\n"\<close> raises with the file opened.
\<close>

definition save_posted_post :: "json \<Rightarrow> world \<Rightarrow> world \<times> pyexn option" where
  "save_posted_post post_id w =
     (case post_id of
        JStr s \<Rightarrow>
          (if s \<notin> set (load_posted_posts w) then
             (case write_text (posted_file w) (s @ [LF]) of
                (f, r) \<Rightarrow> (w\<lparr>posted_file := f\<rparr>, r))
           else (w, None))
      | _ \<Rightarrow> (w\<lparr>posted_file := append_text (posted_file w) []\<rparr>,
              Some (TypeError_concat post_id)))"

section \<open>Record store: the metrics sheet\<close>

text \<open>
  Assigning to \<^verbatim>\<open>cell.value\<close>: \<^verbatim>\<open>openpyxl\<close> cuts a string at 32767 characters and
  then refuses it when it holds one of the control characters U+0000..U+0008, U+000B,
  U+000C, U+000E..U+001F; it refuses a list and a dictionary; it takes \<^verbatim>\<open>None\<close>,
  booleans and numbers as they are.
\<close>

definition illegal_character :: "nat \<Rightarrow> bool" where
  "illegal_character c \<longleftrightarrow> c \<le> 8 \<or> c = 11 \<or> c = 12 \<or> (14 \<le> c \<and> c \<le> 31)"

definition check_string :: "pystr \<Rightarrow> pyexn + pystr" where
  "check_string s =
     (let v = take 32767 s
      in if list_ex illegal_character v then Inl (IllegalCharacterError v) else Inr v)"

definition bind_value :: "json \<Rightarrow> pyexn + json" where
  "bind_value v =
     (case v of
        JStr s \<Rightarrow> (case check_string s of Inl x \<Rightarrow> Inl x | Inr t \<Rightarrow> Inr (JStr t))
      | JList xs \<Rightarrow> Inl (ValueError_convert v)
      | JDict kvs \<Rightarrow> Inl (ValueError_convert v)
      | _ \<Rightarrow> Inr v)"

text \<open>
  What a cell holds when the saved workbook is loaded again. The empty string is written
  as an empty cell and read back as \<^verbatim>\<open>None\<close>. A value is carried as it is unless it is
  a string with a carriage return, a lone surrogate, U+FFFE or U+FFFF, or a float that is
  not finite (a float is identified by its IEEE 754 bit pattern): what happens to those
  depends on the XML library in use and is left to the environment.
\<close>

definition cell_read_back :: "json \<Rightarrow> json" where
  "cell_read_back v = (if v = JStr [] then JNull else v)"

definition xml_char :: "nat \<Rightarrow> bool" where
  "xml_char c \<longleftrightarrow> c \<noteq> CR \<and> \<not> is_surrogate c \<and> c \<noteq> 65534 \<and> c \<noteq> 65535"

definition finite_float :: "nat \<Rightarrow> bool" where
  "finite_float f \<longleftrightarrow> (f div 2 ^ 52) mod 2048 \<noteq> 2047"

definition plain_value :: "json \<Rightarrow> bool" where
  "plain_value v = (case v of JStr s \<Rightarrow> list_all xml_char s | JFloat f \<Rightarrow> finite_float f | _ \<Rightarrow> True)"

text \<open>
  \<^verbatim>\<open>wb.save\<close> after the cells \<open>written\<close> were assigned, the sheet then holding
  \<open>rows\<close>. When one of the values is not plain the environment decides: the save raises
  and leaves a file that cannot be loaded (\<open>Inl\<close>), or it succeeds and the next load
  fails (\<open>Inr None\<close>) or reads other rows.
\<close>

definition save_workbook :: "env \<Rightarrow> json list \<Rightarrow> stat_row list \<Rightarrow> world \<Rightarrow> world \<times> pyexn option" where
  "save_workbook e written rows w =
     (if list_all plain_value written then (w\<lparr>stats := Some rows\<rparr>, None)
      else
        (case xlsx_odd e rows of
           Inl x \<Rightarrow> (w\<lparr>stats := None\<rparr>, Some x)
         | Inr st \<Rightarrow> (w\<lparr>stats := st\<rparr>, None)))"

text \<open>
  The search of \<^verbatim>\<open>update_post_stats\<close> over the rows \<open>2 .. max_row\<close>: the position,
  among the data rows, of the first row whose column A holds the post id. The id is a
  string wherever the program calls the function, and a cell equals a string only when
  it holds the same string.
\<close>

fun find_row :: "stat_row list \<Rightarrow> json \<Rightarrow> nat option" where
  "find_row [] post_id = None"
| "find_row (r # rs) post_id =
     (if row_post_id r = post_id then Some 0 else map_option Suc (find_row rs post_id))"

text \<open>The assignments to columns A and B of a new row, and to columns C, D and E.\<close>

definition new_row_cells :: "json \<Rightarrow> pystr option \<Rightarrow> pyexn + json \<times> json" where
  "new_row_cells post_id content =
     (case bind_value post_id of
        Inl x \<Rightarrow> Inl x
      | Inr a \<Rightarrow>
          if truthy content then
            (case bind_value (JStr (the content)) of Inl x \<Rightarrow> Inl x | Inr b \<Rightarrow> Inr (a, b))
          else Inr (a, JNull))"

definition counter_cells :: "json \<Rightarrow> json \<Rightarrow> json \<Rightarrow> pyexn + json \<times> json \<times> json" where
  "counter_cells likes comments shares =
     (case bind_value likes of
        Inl x \<Rightarrow> Inl x
      | Inr l \<Rightarrow>
          (case bind_value comments of
             Inl x \<Rightarrow> Inl x
           | Inr c \<Rightarrow>
               (case bind_value shares of Inl x \<Rightarrow> Inl x | Inr s \<Rightarrow> Inr (l, c, s))))"

text \<open>
  \<^verbatim>\<open>update_post_stats\<close>: load the workbook, search, read the clock, assign, save.
  An assignment that raises leaves the file as it was. The formatted time is kept by its
  cell as it is.
\<close>

definition update_post_stats ::
    "env \<Rightarrow> json \<Rightarrow> json \<Rightarrow> json \<Rightarrow> json \<Rightarrow> pystr option \<Rightarrow> world \<Rightarrow> world \<times> pyexn option" where
  "update_post_stats e post_id likes comments shares content w =
     (case stats w of
        None \<Rightarrow> (w, Some WorkbookError)
      | Some rows \<Rightarrow>
          (let now_str = clock e (clock_reads w);
               w1 = w\<lparr>clock_reads := Suc (clock_reads w)\<rparr>
           in case find_row rows post_id of
                None \<Rightarrow>
                  (case new_row_cells post_id content of
                     Inl x \<Rightarrow> (w1, Some x)
                   | Inr (a, b) \<Rightarrow>
                       (case counter_cells likes comments shares of
                          Inl x \<Rightarrow> (w1, Some x)
                        | Inr (l, c, s) \<Rightarrow>
                            save_workbook e [a, b, l, c, s]
                              (rows @ [\<lparr>row_post_id = cell_read_back a,
                                        row_content = cell_read_back b,
                                        row_likes = cell_read_back l,
                                        row_comments = cell_read_back c,
                                        row_shares = cell_read_back s,
                                        row_last_update = JStr now_str\<rparr>]) w1))
              | Some i \<Rightarrow>
                  (case counter_cells likes comments shares of
                     Inl x \<Rightarrow> (w1, Some x)
                   | Inr (l, c, s) \<Rightarrow>
                       save_workbook e [l, c, s]
                         (rows[i := (rows ! i)\<lparr>row_likes := cell_read_back l,
                                              row_comments := cell_read_back c,
                                              row_shares := cell_read_back s,
                                              row_last_update := JStr now_str\<rparr>]) w1)))"

section \<open>Remote gateway\<close>

definition http :: "env \<Rightarrow> request \<Rightarrow> world \<Rightarrow> http_result \<times> world" where
  "http e req w =
     (let res = remote e (exchanges w) req
      in (res, w\<lparr>exchanges := exchanges w @ [(req, res)]\<rparr>))"

text \<open>\<^verbatim>\<open>x.get(key, default)\<close>: defined on dictionaries only.\<close>

definition dict_get :: "json \<Rightarrow> pystr \<Rightarrow> json \<Rightarrow> pyexn + json" where
  "dict_get x key dflt =
     (case x of
        JDict kvs \<Rightarrow> Inr (case map_of kvs key of None \<Rightarrow> dflt | Some v \<Rightarrow> v)
      | _ \<Rightarrow> Inl (AttributeError x))"

definition response_json :: "response \<Rightarrow> pyexn + json" where
  "response_json r = (case resp_json r of Inl m \<Rightarrow> Inl (RequestException m) | Inr v \<Rightarrow> Inr v)"

definition msg_no_token :: pystr where
  "msg_no_token = [1053, 1077, 1090, 32, 1090, 1086, 1082, 1077, 1085, 1072, 32, 1080, 1083,
     1080, 32, 73, 68, 32, 1089, 1090, 1088, 1072, 1085, 1080, 1094, 1099, 33]"

definition msg_published :: pystr where
  "msg_published = [1055, 1086, 1089, 1090, 32, 1086, 1087, 1091, 1073, 1083, 1080, 1082,
     1086, 1074, 1072, 1085, 33, 32, 73, 68, 58, 32]"

definition msg_post_error :: pystr where
  "msg_post_error = [1054, 1096, 1080, 1073, 1082, 1072, 32, 1087, 1086, 1089, 1090, 1080,
     1085, 1075, 1072, 58, 32]"

text \<open>The word for "error" and the word for "exception", as the log messages spell them.\<close>

definition word_error :: pystr where
  "word_error = [1054, 1096, 1080, 1073, 1082, 1072]"

definition word_exception :: pystr where
  "word_exception = [1048, 1089, 1082, 1083, 1102, 1095, 1077, 1085, 1080, 1077]"

definition msg_liked :: pystr where
  "msg_liked = [1051, 1072, 1081, 1082, 32, 1085, 1072, 32, 1082, 1086, 1084, 1084, 1077,
     1085, 1090, 1072, 1088, 1080, 1081, 32]"

definition msg_replied :: pystr where
  "msg_replied = [1054, 1090, 1074, 1077, 1090, 32, 1085, 1072, 32, 1082, 1086, 1084, 1084,
     1077, 1085, 1090, 1072, 1088, 1080, 1081, 32]"

text \<open>
  The handler \<^verbatim>\<open>except Exception as e\<close> of \<^verbatim>\<open>post_to_facebook\<close>. An exception
  raised by its own \<^verbatim>\<open>log_action\<close> leaves the function.
\<close>

definition post_failed :: "env \<Rightarrow> pyexn \<Rightarrow> world \<Rightarrow> (pyexn + pystr) \<times> world" where
  "post_failed e x w =
     (let err = word_exception @ ascii '': '' @ str_exn e x
      in case log_action e (ascii ''post_to_facebook'') err w of
           (w', None) \<Rightarrow> (Inr err, w')
         | (w', Some y) \<Rightarrow> (Inl y, w'))"

text \<open>
  \<^verbatim>\<open>post_to_facebook\<close> returns a string (\<open>Inr\<close>) or ends with an exception (\<open>Inl\<close>).
  Everything after the request, the two store operations included, is inside the
  \<^verbatim>\<open>try\<close>: whatever raises there is handed to the handler.
\<close>

definition post_to_facebook :: "env \<Rightarrow> pystr \<Rightarrow> world \<Rightarrow> (pyexn + pystr) \<times> world" where
  "post_to_facebook e message w =
     (if \<not> truthy (FACEBOOK_PAGE_ACCESS_TOKEN e) \<or> \<not> truthy (FACEBOOK_PAGE_ID e) then
        (case log_action e (ascii ''post_to_facebook'') msg_no_token w of
           (w', None) \<Rightarrow> (Inr msg_no_token, w')
         | (w', Some y) \<Rightarrow> (Inl y, w'))
      else
        (let (res, w1) =
               http e (PostFeed (the (FACEBOOK_PAGE_ID e)) (the (FACEBOOK_PAGE_ACCESS_TOKEN e))
                         message) w
         in case res of
              Raised x \<Rightarrow> post_failed e x w1
            | Response r \<Rightarrow>
                if status_code r = 200 then
                  (case response_json r of
                     Inl x \<Rightarrow> post_failed e x w1
                   | Inr body \<Rightarrow>
                       (case dict_get body (ascii ''id'') (JStr []) of
                          Inl x \<Rightarrow> post_failed e x w1
                        | Inr new_post_id \<Rightarrow>
                            (case log_action e (ascii ''post_to_facebook'')
                                    (msg_published @ py_str e new_post_id) w1 of
                               (w2, Some x) \<Rightarrow> post_failed e x w2
                             | (w2, None) \<Rightarrow>
                                 (case save_posted_post new_post_id w2 of
                                    (w3, Some x) \<Rightarrow> post_failed e x w3
                                  | (w3, None) \<Rightarrow>
                                      (case update_post_stats e new_post_id (JInt 0) (JInt 0)
                                              (JInt 0) (Some message) w3 of
                                         (w4, Some x) \<Rightarrow> post_failed e x w4
                                       | (w4, None) \<Rightarrow> (Inr (py_str e new_post_id), w4))))))
                else
                  (let err = msg_post_error @ str_int (status_code r) @ ascii '' '' @ resp_text r
                   in case log_action e (ascii ''post_to_facebook'') err w1 of
                        (w2, Some x) \<Rightarrow> post_failed e x w2
                      | (w2, None) \<Rightarrow> (Inr err, w2))))"

text \<open>
  One of the three sub-queries of \<^verbatim>\<open>get_post_insights\<close>, each in its own
  \<^verbatim>\<open>try\<close>: the request, then on status 200 the two look-ups
  \<^verbatim>\<open>r.json().get(outer, {}).get(inner, 0)\<close>; the counter keeps its initial 0 on any
  other status and on any exception. \<open>what\<close> is the word the log message names the
  sub-query by. The third component is the exception that leaves the \<^verbatim>\<open>try\<close>
  statement: one raised by the handler's own \<^verbatim>\<open>log_action\<close>.
\<close>

definition insight_failed ::
    "env \<Rightarrow> pystr \<Rightarrow> pystr \<Rightarrow> pyexn \<Rightarrow> world \<Rightarrow> json \<times> world \<times> pyexn option" where
  "insight_failed e what post_id x w =
     (case log_action e (ascii ''get_post_insights'')
             (word_exception @ ascii '' '' @ what @ ascii '' '' @ post_id @ ascii '': '' @
              str_exn e x) w of
        (w', r) \<Rightarrow> (JInt 0, w', r))"

definition insight_query ::
    "env \<Rightarrow> request \<Rightarrow> pystr \<Rightarrow> pystr \<Rightarrow> pystr \<Rightarrow> pystr \<Rightarrow> world \<Rightarrow> json \<times> world \<times> pyexn option" where
  "insight_query e req outer inner what post_id w =
     (let (res, w1) = http e req w
      in case res of
           Raised x \<Rightarrow> insight_failed e what post_id x w1
         | Response r \<Rightarrow>
             if status_code r = 200 then
               (case response_json r of
                  Inl x \<Rightarrow> insight_failed e what post_id x w1
                | Inr body \<Rightarrow>
                    (case dict_get body outer (JDict []) of
                       Inl x \<Rightarrow> insight_failed e what post_id x w1
                     | Inr summary \<Rightarrow>
                         (case dict_get summary inner (JInt 0) of
                            Inl x \<Rightarrow> insight_failed e what post_id x w1
                          | Inr n \<Rightarrow> (n, w1, None))))
             else
               (case log_action e (ascii ''get_post_insights'')
                       (word_error @ ascii '' '' @ what @ ascii '' '' @ post_id @ ascii '': '' @
                        str_int (status_code r) @ ascii '' '' @ resp_text r) w1 of
                  (w2, Some x) \<Rightarrow> insight_failed e what post_id x w2
                | (w2, None) \<Rightarrow> (JInt 0, w2, None)))"

definition get_post_insights ::
    "env \<Rightarrow> pystr \<Rightarrow> world \<Rightarrow> (json \<times> json \<times> json) \<times> world \<times> pyexn option" where
  "get_post_insights e post_id w =
     (if \<not> truthy (FACEBOOK_PAGE_ACCESS_TOKEN e) then ((JInt 0, JInt 0, JInt 0), w, None)
      else
        (let tok = the (FACEBOOK_PAGE_ACCESS_TOKEN e)
         in case insight_query e (GetLikes post_id tok) (ascii ''summary'')
                   (ascii ''total_count'') (ascii ''likes'') post_id w of
              (likes_count, w1, Some x) \<Rightarrow> ((likes_count, JInt 0, JInt 0), w1, Some x)
            | (likes_count, w1, None) \<Rightarrow>
                (case insight_query e (GetCommentsSummary post_id tok) (ascii ''summary'')
                        (ascii ''total_count'') (ascii ''comments'') post_id w1 of
                   (comments_count, w2, Some x) \<Rightarrow>
                     ((likes_count, comments_count, JInt 0), w2, Some x)
                 | (comments_count, w2, None) \<Rightarrow>
                     (case insight_query e (GetShares post_id tok) (ascii ''shares'')
                             (ascii ''count'') (ascii ''shares'') post_id w2 of
                        (shares_count, w3, r) \<Rightarrow>
                          ((likes_count, comments_count, shares_count), w3, r)))))"

text \<open>
  \<^verbatim>\<open>for c in comments\<close>: a list yields its elements, a dictionary its keys, a string
  its characters; nothing else can be iterated.
\<close>

definition py_iter :: "json \<Rightarrow> pyexn + json list" where
  "py_iter x =
     (case x of
        JList xs \<Rightarrow> Inr xs
      | JDict kvs \<Rightarrow> Inr (map (\<lambda>kv. JStr (fst kv)) kvs)
      | JStr s \<Rightarrow> Inr (map (\<lambda>c. JStr [c]) s)
      | _ \<Rightarrow> Inl (TypeError_not_iterable x))"

type_synonym comment = "json \<times> json \<times> json"

definition comment_tuple :: "json \<Rightarrow> pyexn + comment" where
  "comment_tuple c =
     (case dict_get c (ascii ''id'') JNull of
        Inl x \<Rightarrow> Inl x
      | Inr cid \<Rightarrow>
          (case dict_get c (ascii ''message'') (JStr []) of
             Inl x \<Rightarrow> Inl x
           | Inr msg \<Rightarrow>
               (case dict_get c (ascii ''from'') (JDict []) of
                  Inl x \<Rightarrow> Inl x
                | Inr frm \<Rightarrow>
                    (case dict_get frm (ascii ''name'') (JStr (ascii ''NoName'')) of
                       Inl x \<Rightarrow> Inl x
                     | Inr author_name \<Rightarrow> Inr (cid, msg, author_name)))))"

fun comment_tuples :: "json list \<Rightarrow> comment list \<Rightarrow> pyexn + comment list" where
  "comment_tuples [] result = Inr result"
| "comment_tuples (c # cs) result =
     (case comment_tuple c of
        Inl x \<Rightarrow> Inl x
      | Inr t \<Rightarrow> comment_tuples cs (result @ [t]))"

text \<open>The body of the \<^verbatim>\<open>try\<close> of \<^verbatim>\<open>get_post_comments\<close> on status 200.\<close>

definition parse_comments :: "response \<Rightarrow> pyexn + comment list" where
  "parse_comments r =
     (case response_json r of
        Inl x \<Rightarrow> Inl x
      | Inr body \<Rightarrow>
          (case dict_get body (ascii ''data'') (JList []) of
             Inl x \<Rightarrow> Inl x
           | Inr comments \<Rightarrow>
               (case py_iter comments of
                  Inl x \<Rightarrow> Inl x
                | Inr cs \<Rightarrow> comment_tuples cs [])))"

text \<open>What \<^verbatim>\<open>get_post_comments\<close> returns for a given outcome of its request.\<close>

definition fetched_comments :: "http_result \<Rightarrow> comment list" where
  "fetched_comments res =
     (case res of
        Raised x \<Rightarrow> []
      | Response r \<Rightarrow>
          if status_code r = 200
          then (case parse_comments r of Inl x \<Rightarrow> [] | Inr result \<Rightarrow> result)
          else [])"

text \<open>
  \<^verbatim>\<open>get_post_comments\<close>: the list returned, the state, and the exception that leaves
  the function (raised by the handler's own \<^verbatim>\<open>log_action\<close>).
\<close>

definition comments_failed ::
    "env \<Rightarrow> pyexn \<Rightarrow> world \<Rightarrow> comment list \<times> world \<times> pyexn option" where
  "comments_failed e x w =
     (case log_action e (ascii ''get_post_comments'')
             (word_exception @ ascii '': '' @ str_exn e x) w of
        (w', r) \<Rightarrow> ([], w', r))"

definition get_post_comments ::
    "env \<Rightarrow> pystr \<Rightarrow> int \<Rightarrow> world \<Rightarrow> comment list \<times> world \<times> pyexn option" where
  "get_post_comments e post_id limit w =
     (let (res, w1) = http e (GetComments post_id (FACEBOOK_PAGE_ACCESS_TOKEN e) limit) w
      in case res of
           Raised x \<Rightarrow> comments_failed e x w1
         | Response r \<Rightarrow>
             if status_code r = 200 then
               (case parse_comments r of
                  Inl x \<Rightarrow> comments_failed e x w1
                | Inr result \<Rightarrow> (result, w1, None))
             else
               (case log_action e (ascii ''get_post_comments'')
                       (word_error @ ascii '' '' @ str_int (status_code r) @ ascii '' '' @
                        resp_text r) w1 of
                  (w2, Some x) \<Rightarrow> comments_failed e x w2
                | (w2, None) \<Rightarrow> ([], w2, None)))"

text \<open>
  \<^verbatim>\<open>like_comment\<close> and \<^verbatim>\<open>reply_to_comment\<close>: one request, whose outcome only decides
  the line written to the log. Every line names the comment id. A \<^verbatim>\<open>log_action\<close>
  that raises inside the \<^verbatim>\<open>try\<close> is handed to the handler; one that raises inside the
  handler leaves the function.
\<close>

definition engagement_logged ::
    "env \<Rightarrow> pystr \<Rightarrow> pystr \<Rightarrow> json \<Rightarrow> http_result \<Rightarrow> world \<Rightarrow> world \<times> pyexn option" where
  "engagement_logged e fname done_msg comment_id res w =
     (let failed = (\<lambda>x. log_action e fname
                      (word_exception @ ascii '' '' @ py_str e comment_id @ ascii '': '' @
                       str_exn e x))
      in case res of
           Raised x \<Rightarrow> failed x w
         | Response r \<Rightarrow>
             (case log_action e fname
                     (if status_code r = 200 then done_msg @ py_str e comment_id
                      else word_error @ ascii '' '' @ py_str e comment_id @ ascii '': '' @
                           str_int (status_code r) @ ascii '' '' @ resp_text r) w of
                (w1, Some x) \<Rightarrow> failed x w1
              | (w1, None) \<Rightarrow> (w1, None)))"

definition like_comment :: "env \<Rightarrow> json \<Rightarrow> world \<Rightarrow> world \<times> pyexn option" where
  "like_comment e comment_id w =
     (let (res, w1) = http e (PostLike (py_str e comment_id) (FACEBOOK_PAGE_ACCESS_TOKEN e)) w
      in engagement_logged e (ascii ''like_comment'') msg_liked comment_id res w1)"

definition reply_to_comment :: "env \<Rightarrow> json \<Rightarrow> pystr \<Rightarrow> world \<Rightarrow> world \<times> pyexn option" where
  "reply_to_comment e comment_id text w =
     (let (res, w1) =
            http e (PostReply (py_str e comment_id) (FACEBOOK_PAGE_ACCESS_TOKEN e) text) w
      in engagement_logged e (ascii ''reply_to_comment'') msg_replied comment_id res w1)"

section \<open>Reconciliation loop\<close>

text \<open>\<^verbatim>\<open>REPLY_TEMPLATE.format(author=..., comment=...)\<close>.\<close>

definition reply_template :: "env \<Rightarrow> json \<Rightarrow> json \<Rightarrow> pystr" where
  "reply_template e author comment_text =
     [1055, 1088, 1080, 1074, 1077, 1090, 44, 32] @ py_str e author @
     [33, 10, 1057, 1087, 1072, 1089, 1080, 1073, 1086, 32, 1079, 1072, 32, 1082, 1086, 1084,
      1084, 1077, 1085, 1090, 1072, 1088, 1080, 1081, 44, 32] @ py_str e comment_text @
     [10, 1052, 1099, 32, 1094, 1077, 1085, 1080, 1084, 32, 1074, 1072, 1096, 1091, 32, 1072,
      1082, 1090, 1080, 1074, 1085, 1086, 1089, 1090, 1100, 33, 10]"

text \<open>
  \<^verbatim>\<open>cid not in processed_ids\<close>, on a set of strings: hashing a list or a dictionary
  raises; a value that is not a string is never a member.
\<close>

definition not_in_processed :: "json \<Rightarrow> pystr set \<Rightarrow> pyexn + bool" where
  "not_in_processed cid processed_ids =
     (case cid of
        JStr s \<Rightarrow> Inr (s \<notin> processed_ids)
      | JList xs \<Rightarrow> Inl (TypeError_unhashable cid)
      | JDict kvs \<Rightarrow> Inl (TypeError_unhashable cid)
      | _ \<Rightarrow> Inr True)"

text \<open>
  The body of the loop over the comments of one post. None of the three calls is inside
  a \<^verbatim>\<open>try\<close>: an exception that leaves one of them ends the loop.
\<close>

definition process_comment :: "env \<Rightarrow> pystr set \<Rightarrow> comment \<Rightarrow> world \<Rightarrow> world \<times> pyexn option" where
  "process_comment e processed_ids c w =
     (case c of (cid, ctext, cauthor) \<Rightarrow>
        (case not_in_processed cid processed_ids of
           Inl x \<Rightarrow> (w, Some x)
         | Inr False \<Rightarrow> (w, None)
         | Inr True \<Rightarrow>
             (case like_comment e cid w of
                (w1, Some x) \<Rightarrow> (w1, Some x)
              | (w1, None) \<Rightarrow>
                  (case reply_to_comment e cid (reply_template e cauthor ctext) w1 of
                     (w2, Some x) \<Rightarrow> (w2, Some x)
                   | (w2, None) \<Rightarrow> save_processed_comment cid w2))))"

text \<open>An exception ends the loop (and, uncaught, the thread).\<close>

fun process_comments :: "env \<Rightarrow> pystr set \<Rightarrow> comment list \<Rightarrow> world \<Rightarrow> world \<times> pyexn option" where
  "process_comments e processed_ids [] w = (w, None)"
| "process_comments e processed_ids (c # cs) w =
     (case process_comment e processed_ids c w of
        (w', Some x) \<Rightarrow> (w', Some x)
      | (w', None) \<Rightarrow> process_comments e processed_ids cs w')"

text \<open>
  The body of the loop over the posts: the metrics are fetched and written to the sheet,
  then the comments are fetched and gone through. The calls are outside any
  \<^verbatim>\<open>try\<close>.
\<close>

definition process_post :: "env \<Rightarrow> pystr set \<Rightarrow> pystr \<Rightarrow> world \<Rightarrow> world \<times> pyexn option" where
  "process_post e processed_ids post_id w =
     (case get_post_insights e post_id w of
        (counts, w1, Some x) \<Rightarrow> (w1, Some x)
      | ((likes_count, comments_count, shares_count), w1, None) \<Rightarrow>
          (case update_post_stats e (JStr post_id) likes_count comments_count shares_count
                  None w1 of
             (w2, Some x) \<Rightarrow> (w2, Some x)
           | (w2, None) \<Rightarrow>
               (case get_post_comments e post_id 50 w2 of
                  (comment_list, w3, Some x) \<Rightarrow> (w3, Some x)
                | (comment_list, w3, None) \<Rightarrow>
                    process_comments e processed_ids comment_list w3)))"

fun process_posts :: "env \<Rightarrow> pystr set \<Rightarrow> pystr list \<Rightarrow> world \<Rightarrow> world \<times> pyexn option" where
  "process_posts e processed_ids [] w = (w, None)"
| "process_posts e processed_ids (post_id # ps) w =
     (case process_post e processed_ids post_id w of
        (w', Some x) \<Rightarrow> (w', Some x)
      | (w', None) \<Rightarrow> process_posts e processed_ids ps w')"

text \<open>
  One pass of the body of \<^verbatim>\<open>while True\<close> in \<^verbatim>\<open>monitor_posts_loop\<close>: both snapshots
  are taken before the first post is looked at. The sleep changes nothing in the state.
\<close>

definition monitor_cycle :: "env \<Rightarrow> world \<Rightarrow> world \<times> pyexn option" where
  "monitor_cycle e w =
     (let post_ids = load_posted_posts w;
          processed_ids = load_processed_comments w
      in process_posts e processed_ids post_ids w)"

text \<open>
  The loop has no exit of its own: \<open>monitor_posts_loop n\<close> is its state after \<open>n\<close>
  passes, or at the exception that ended it earlier.
\<close>

fun monitor_posts_loop :: "nat \<Rightarrow> env \<Rightarrow> world \<Rightarrow> world \<times> pyexn option" where
  "monitor_posts_loop 0 e w = (w, None)"
| "monitor_posts_loop (Suc n) e w =
     (case monitor_cycle e w of
        (w', Some x) \<Rightarrow> (w', Some x)
      | (w', None) \<Rightarrow> monitor_posts_loop n e w')"

section \<open>Console\<close>

definition msg_new_post :: pystr where
  "msg_new_post = [1053, 1086, 1074, 1099, 1081, 32, 1087, 1086, 1089, 1090, 32, 1086, 1087,
     1091, 1073, 1083, 1080, 1082, 1086, 1074, 1072, 1085, 58, 32]"

definition msg_publish_error :: pystr where
  "msg_publish_error = [1054, 1096, 1080, 1073, 1082, 1072, 32, 1087, 1091, 1073, 1083, 1080,
     1082, 1072, 1094, 1080, 1080, 58, 32]"

definition msg_no_text :: pystr where
  "msg_no_text = [1053, 1077, 32, 1091, 1082, 1072, 1079, 1072, 1085, 32, 1090, 1077, 1082,
     1089, 1090, 32, 1087, 1086, 1089, 1090, 1072, 46, 32, 1060, 1086, 1088, 1084, 1072, 1090,
     58, 32, 47, 112, 111, 115, 116, 32, 1058, 1077, 1082, 1089, 1090, 95, 1087, 1086, 1089,
     1090, 1072]"

text \<open>\<^verbatim>\<open>s.isdigit()\<close>: at least one character, and every character a digit.\<close>

definition py_isdigit :: "env \<Rightarrow> pystr \<Rightarrow> bool" where
  "py_isdigit e s \<longleftrightarrow> s \<noteq> [] \<and> list_all (char_isdigit e) s"

definition py_startswith :: "pystr \<Rightarrow> pystr \<Rightarrow> bool" where
  "py_startswith s prefix \<longleftrightarrow> take (length prefix) s = prefix"

text \<open>
  \<^verbatim>\<open>print\<close>, on an output stream that encodes as the log does: every string that
  \<^verbatim>\<open>post_to_facebook\<close> returns was written to the log before it is printed.
\<close>

definition print :: "pystr \<Rightarrow> world \<Rightarrow> world" where
  "print s w = w\<lparr>stdout := stdout w @ [s]\<rparr>"

text \<open>
  The test of \<^verbatim>\<open>console_loop\<close> on the string that \<^verbatim>\<open>post_to_facebook\<close> returned:
  \<^verbatim>\<open>"_" in result or result.isdigit()\<close>.
\<close>

definition looks_published :: "env \<Rightarrow> pystr \<Rightarrow> bool" where
  "looks_published e result \<longleftrightarrow> underscore \<in> set result \<or> py_isdigit e result"

text \<open>
  One pass of the body of \<^verbatim>\<open>while True\<close> in \<^verbatim>\<open>console_loop\<close>, for the line that
  \<^verbatim>\<open>readline\<close> returned (empty at end of input). An exception that leaves
  \<^verbatim>\<open>post_to_facebook\<close> leaves the loop.
\<close>

definition console_step :: "env \<Rightarrow> pystr \<Rightarrow> world \<Rightarrow> world \<times> pyexn option" where
  "console_step e line0 w =
     (if line0 = [] then (w, None)
      else
        (let line = py_strip line0
         in if py_startswith (str_lower e line) (ascii ''/post '') then
              (let post_text = py_strip (drop 6 line)
               in if post_text \<noteq> [] then
                    (case post_to_facebook e post_text w of
                       (Inl x, w1) \<Rightarrow> (w1, Some x)
                     | (Inr result, w1) \<Rightarrow>
                         if looks_published e result then (print (msg_new_post @ result) w1, None)
                         else (print (msg_publish_error @ result) w1, None))
                  else (print msg_no_text w, None))
            else (w, None)))"

text \<open>
  The loop has no exit of its own: \<open>console_loop\<close> is its state after the given lines, or
  at the exception that ended it earlier.
\<close>

fun console_loop :: "env \<Rightarrow> pystr list \<Rightarrow> world \<Rightarrow> world \<times> pyexn option" where
  "console_loop e [] w = (w, None)"
| "console_loop e (line # ls) w =
     (case console_step e line w of
        (w', Some x) \<Rightarrow> (w', Some x)
      | (w', None) \<Rightarrow> console_loop e ls w')"

section \<open>Predicates of the statements\<close>

text \<open>
  An id that an id file gives back as it was written: not empty, unchanged by
  \<^verbatim>\<open>strip()\<close>, without a line break, and without a lone surrogate.
\<close>

definition clean_id :: "pystr \<Rightarrow> bool" where
  "clean_id s \<longleftrightarrow>
     s \<noteq> [] \<and> py_strip s = s \<and> CR \<notin> set s \<and> LF \<notin> set s \<and> encodable s"

text \<open>A file to which a line can be appended: absent, empty, or ending with a line feed.\<close>

definition terminated :: "pystr option \<Rightarrow> bool" where
  "terminated f \<longleftrightarrow> (case f of None \<Rightarrow> True | Some c \<Rightarrow> c = [] \<or> last c = LF)"

text \<open>The state at start-up in a fresh directory, after \<^verbatim>\<open>init_stats_xlsx\<close>.\<close>

definition fresh_world :: world where
  "fresh_world = \<lparr>processed_file = None, posted_file = None, stats = Some [], log_file = [],
     exchanges = [], clock_reads = 0, stdout = []\<rparr>"

text \<open>An id as the remote side issues them: the text \<^verbatim>\<open>1_2\<close>.\<close>

definition example_id :: pystr where
  "example_id = [49, 95, 50]"

definition one_post_world :: world where
  "one_post_world = fresh_world\<lparr>posted_file := Some (example_id @ [LF])\<rparr>"

text \<open>The record the metrics sheet holds for a post id: the first row with that id.\<close>

definition stats_record :: "world \<Rightarrow> pystr \<Rightarrow> stat_row option" where
  "stats_record w post_id =
     (case stats w of
        None \<Rightarrow> None
      | Some rows \<Rightarrow> find (\<lambda>r. row_post_id r = JStr post_id) rows)"

text \<open>
  A configured environment for the examples: token \<^verbatim>\<open>T\<close>, page id \<^verbatim>\<open>7\<close>, a remote
  side where every request fails in transport, a clock whose \<open>n\<close>-th reading is the
  numeral \<open>n\<close>, ASCII for the runtime's tables, \<^verbatim>\<open>str()\<close> as Python has it on
  \<^verbatim>\<open>None\<close> and on integers, \<^verbatim>\<open>?\<close> for its other values and for the texts of the
  runtime and of \<^verbatim>\<open>openpyxl\<close>, and a workbook that cannot be loaded again once a
  value that is not plain was saved.
\<close>

definition base_env :: env where
  "base_env = \<lparr>FACEBOOK_PAGE_ACCESS_TOKEN = Some [84], FACEBOOK_PAGE_ID = Some [55],
     remote = (\<lambda>history req. Raised (RequestException [120])),
     clock = nat_digits,
     builtin_str = (\<lambda>v. case v of JNull \<Rightarrow> ascii ''None'' | JInt i \<Rightarrow> str_int i | _ \<Rightarrow> [63]),
     builtin_exn_text = (\<lambda>x. ''?''),
     openpyxl_exn_text = (\<lambda>x. [63]),
     xlsx_odd = (\<lambda>rows. Inr None),
     str_lower = map (\<lambda>c. if 65 \<le> c \<and> c \<le> 90 then c + 32 else c),
     char_isdigit = (\<lambda>c. 48 \<le> c \<and> c \<le> 57)\<rparr>"

text \<open>A sub-query fails: a transport error, or a status other than 200.\<close>

definition query_failed :: "http_result \<Rightarrow> bool" where
  "query_failed res \<longleftrightarrow>
     (case res of Raised x \<Rightarrow> True | Response r \<Rightarrow> status_code r \<noteq> 200)"

text \<open>
  The count a successful answer reports: status 200 and a body of the shape
  \<^verbatim>\<open>{outer: {inner: n}}\<close>.
\<close>

definition reported :: "pystr \<Rightarrow> pystr \<Rightarrow> http_result \<Rightarrow> json option" where
  "reported outer inner res =
     (case res of
        Raised x \<Rightarrow> None
      | Response r \<Rightarrow>
          if status_code r = 200 then
            (case resp_json r of
               Inr (JDict kvs) \<Rightarrow>
                 (case map_of kvs outer of
                    Some (JDict kvs') \<Rightarrow> map_of kvs' inner
                  | _ \<Rightarrow> None)
             | _ \<Rightarrow> None)
          else None)"

definition count_body :: "pystr \<Rightarrow> pystr \<Rightarrow> int \<Rightarrow> http_result" where
  "count_body outer inner n =
     Response \<lparr>status_code = 200, resp_text = [],
       resp_json = Inr (JDict [(outer, JDict [(inner, JInt n)])])\<rparr>"

text \<open>A remote side that reports 5 likes and 2 comments and fails on the shares.\<close>

definition shares_down_env :: env where
  "shares_down_env = base_env\<lparr>remote := (\<lambda>history req.
     case req of
       GetLikes p t \<Rightarrow> count_body (ascii ''summary'') (ascii ''total_count'') 5
     | GetCommentsSummary p t \<Rightarrow> count_body (ascii ''summary'') (ascii ''total_count'') 2
     | _ \<Rightarrow> Raised (RequestException [120]))\<rparr>"

text \<open>A remote side that fails on likes and comments and reports 3 shares.\<close>

definition only_shares_env :: env where
  "only_shares_env = base_env\<lparr>remote := (\<lambda>history req.
     case req of
       GetShares p t \<Rightarrow> count_body (ascii ''shares'') (ascii ''count'') 3
     | _ \<Rightarrow> Raised (RequestException [120]))\<rparr>"

text \<open>
  The id a successful answer to the publish request carries: status 200 and a JSON
  object, whose \<^verbatim>\<open>id\<close> entry defaults to the empty string.
\<close>

definition published_id :: "http_result \<Rightarrow> json option" where
  "published_id res =
     (case res of
        Raised x \<Rightarrow> None
      | Response r \<Rightarrow>
          if status_code r = 200 then
            (case resp_json r of
               Inr (JDict kvs) \<Rightarrow>
                 Some (case map_of kvs (ascii ''id'') of None \<Rightarrow> JStr [] | Some v \<Rightarrow> v)
             | _ \<Rightarrow> None)
          else None)"

text \<open>The text \<^verbatim>\<open>post_to_facebook\<close> returns for a failed publish request.\<close>

definition publish_error_text :: "env \<Rightarrow> http_result \<Rightarrow> pystr" where
  "publish_error_text e res =
     (case res of
        Raised x \<Rightarrow> word_exception @ ascii '': '' @ str_exn e x
      | Response r \<Rightarrow> msg_post_error @ str_int (status_code r) @ ascii '' '' @ resp_text r)"

definition no_token_env :: env where
  "no_token_env = base_env\<lparr>FACEBOOK_PAGE_ACCESS_TOKEN := None\<rparr>"

text \<open>A remote side that rejects every request with status 400 and the text \<^verbatim>\<open>bad_token\<close>.\<close>

definition rejecting_env :: env where
  "rejecting_env = base_env\<lparr>remote := (\<lambda>history req.
     Response \<lparr>status_code = 400, resp_text = ascii ''bad_token'', resp_json = Inl []\<rparr>)\<rparr>"

text \<open>A remote side that answers every request with status 200 and the id \<^verbatim>\<open>1_2\<close>.\<close>

definition accepting_env :: env where
  "accepting_env = base_env\<lparr>remote := (\<lambda>history req.
     Response \<lparr>status_code = 200, resp_text = [],
       resp_json = Inr (JDict [(ascii ''id'', JStr example_id)])\<rparr>)\<rparr>"

text \<open>
  Read off a stretch of the history of exchanges: the number of like requests and of
  reply requests sent to the URL of a comment id, and the ids of the comments that the comment
  fetches in it returned, in the order received.
\<close>

definition is_like_for :: "pystr \<Rightarrow> request \<times> http_result \<Rightarrow> bool" where
  "is_like_for cid x = (case fst x of PostLike c t \<Rightarrow> c = cid | _ \<Rightarrow> False)"

definition is_reply_for :: "pystr \<Rightarrow> request \<times> http_result \<Rightarrow> bool" where
  "is_reply_for cid x = (case fst x of PostReply c t m \<Rightarrow> c = cid | _ \<Rightarrow> False)"

definition likes_for :: "pystr \<Rightarrow> (request \<times> http_result) list \<Rightarrow> nat" where
  "likes_for cid tr = length (filter (is_like_for cid) tr)"

definition replies_for :: "pystr \<Rightarrow> (request \<times> http_result) list \<Rightarrow> nat" where
  "replies_for cid tr = length (filter (is_reply_for cid) tr)"

definition fetched_in :: "request \<times> http_result \<Rightarrow> json list" where
  "fetched_in x =
     (case fst x of GetComments p t l \<Rightarrow> map fst (fetched_comments (snd x)) | _ \<Rightarrow> [])"

definition fetched_ids :: "(request \<times> http_result) list \<Rightarrow> json list" where
  "fetched_ids tr = concat (map fetched_in tr)"

text \<open>The exchanges a step added to the history.\<close>

definition new_exchanges :: "world \<Rightarrow> world \<Rightarrow> (request \<times> http_result) list" where
  "new_exchanges w w' = drop (length (exchanges w)) (exchanges w')"

text \<open>
  A comment with id \<^verbatim>\<open>1_2\<close>, text \<^verbatim>\<open>hi\<close> and author \<^verbatim>\<open>Ann\<close>, as the remote
  side sends it, and a remote side that answers every comment fetch with the given
  comments and fails on every other request.
\<close>

definition example_comment :: json where
  "example_comment = JDict [(ascii ''id'', JStr example_id), (ascii ''message'', JStr [104, 105]),
     (ascii ''from'', JDict [(ascii ''name'', JStr [65, 110, 110])])]"

definition comments_env :: "json list \<Rightarrow> env" where
  "comments_env cs = base_env\<lparr>remote := (\<lambda>history req.
     case req of
       GetComments p t l \<Rightarrow>
         Response \<lparr>status_code = 200, resp_text = [],
           resp_json = Inr (JDict [(ascii ''data'', JList cs)])\<rparr>
     | _ \<Rightarrow> Raised (RequestException [120]))\<rparr>"

text \<open>A comment without id, as \<^verbatim>\<open>{"message": "hi", "from": {"name": "Ann"}}\<close>.\<close>

definition no_id_comment :: json where
  "no_id_comment = JDict [(ascii ''message'', JStr [104, 105]),
     (ascii ''from'', JDict [(ascii ''name'', JStr [65, 110, 110])])]"

text \<open>A comment whose id is the empty string.\<close>

definition empty_id_comment :: json where
  "empty_id_comment = JDict [(ascii ''id'', JStr []), (ascii ''message'', JStr [104, 105]),
     (ascii ''from'', JDict [(ascii ''name'', JStr [65, 110, 110])])]"

text \<open>A state in which the example id has been processed already.\<close>

definition processed_world :: world where
  "processed_world = one_post_world\<lparr>processed_file := Some (example_id @ [LF])\<rparr>"

text \<open>Every id in a list of fetched ids is a string.\<close>

definition is_string :: "json \<Rightarrow> bool" where
  "is_string v = (case v of JStr s \<Rightarrow> True | _ \<Rightarrow> False)"

definition string_ids :: "json list \<Rightarrow> bool" where
  "string_ids vs = list_all is_string vs"


text \<open>
  The values a cell of the sheet gives back as they were assigned: a string that is not
  empty, has at most 32767 characters, no control character that \<^verbatim>\<open>openpyxl\<close> refuses
  and no character that XML cannot carry as it is; \<^verbatim>\<open>None\<close>, a boolean, an integer,
  a finite float. A content is kept when it is absent, empty, or such a string.
\<close>

definition kept_string :: "pystr \<Rightarrow> bool" where
  "kept_string s \<longleftrightarrow>
     s \<noteq> [] \<and> length s \<le> 32767 \<and> \<not> list_ex illegal_character s \<and> list_all xml_char s"

definition kept_value :: "json \<Rightarrow> bool" where
  "kept_value v =
     (case v of
        JStr s \<Rightarrow> kept_string s
      | JFloat f \<Rightarrow> finite_float f
      | JList xs \<Rightarrow> False
      | JDict kvs \<Rightarrow> False
      | _ \<Rightarrow> True)"

definition kept_content :: "pystr option \<Rightarrow> bool" where
  "kept_content content = (case content of None \<Rightarrow> True | Some t \<Rightarrow> t = [] \<or> kept_string t)"

text \<open>The cell of column B of a new row, for a content that is kept.\<close>

definition content_cell :: "pystr option \<Rightarrow> json" where
  "content_cell content =
     (case content of None \<Rightarrow> JNull | Some t \<Rightarrow> if t = [] then JNull else JStr t)"

text \<open>
  The texts that the answer to a request can send to the log through an exception
  handler can be encoded: the text of the exception raised in transport, and the text of
  the exception \<^verbatim>\<open>r.json()\<close> raises.
\<close>

definition loggable :: "env \<Rightarrow> http_result \<Rightarrow> bool" where
  "loggable e res =
     (case res of
        Raised x \<Rightarrow> encodable (str_exn e x)
      | Response r \<Rightarrow> (case resp_json r of Inl m \<Rightarrow> encodable m | Inr v \<Rightarrow> True))"

text \<open>
  The ids, among those fetched, that a cycle with the snapshot \<open>ids\<close> treats as new, in
  the order fetched, and the file of processed comments after a line was appended for
  each of them.
\<close>

definition unprocessed :: "pystr set \<Rightarrow> json list \<Rightarrow> pystr list" where
  "unprocessed ids vs =
     concat (map (\<lambda>v. case v of JStr s \<Rightarrow> if s \<in> ids then [] else [s] | _ \<Rightarrow> []) vs)"

definition marked :: "pystr option \<Rightarrow> pystr list \<Rightarrow> pystr option" where
  "marked f ss = foldl (\<lambda>g s. append_text g (s @ [LF])) f ss"

text \<open>
  The state in which the loop over the comments of a post starts: the metrics were
  fetched and written to the sheet, and the comments were fetched.
\<close>

definition fetched_state :: "env \<Rightarrow> pystr \<Rightarrow> world \<Rightarrow> world" where
  "fetched_state e post_id w =
     (case get_post_insights e post_id w of
        ((likes_count, comments_count, shares_count), w1, r) \<Rightarrow>
          fst (snd (get_post_comments e post_id 50
            (fst (update_post_stats e (JStr post_id) likes_count comments_count shares_count
                    None w1)))))"

section \<open>Texts that UTF-8 can encode\<close>

lemma encodable_Nil [simp]: "encodable []"
  by (simp add: encodable_def)

lemma encodable_Cons [simp]: "encodable (c # s) \<longleftrightarrow> \<not> is_surrogate c \<and> encodable s"
  by (simp add: encodable_def)

lemma encodable_append [simp]: "encodable (a @ b) \<longleftrightarrow> encodable a \<and> encodable b"
  by (simp add: encodable_def)

lemma encodable_ascii [simp]: "encodable (ascii s)"
proof -
  have "\<not> is_surrogate (of_char c)" for c :: char
  proof -
    have "(of_char c :: nat) mod 256 = of_char c" by (rule of_char_mod_256)
    moreover have "(of_char c :: nat) mod 256 < 256" by simp
    ultimately have "(of_char c :: nat) < 256" by simp
    then show ?thesis unfolding is_surrogate_def by linarith
  qed
  then show ?thesis by (simp add: encodable_def ascii_def list_all_iff)
qed

lemma not_surrogate_small [simp]: "c < 55296 \<Longrightarrow> \<not> is_surrogate c"
  by (simp add: is_surrogate_def)

lemma encodable_str_exn_builtin [simp]:
  "encodable (str_exn e (UnicodeEncodeError s))"
  "encodable (str_exn e (AttributeError v))"
  "encodable (str_exn e (TypeError_not_iterable v))"
  "encodable (str_exn e (TypeError_unhashable v))"
  "encodable (str_exn e (TypeError_concat v))"
  by (simp_all add: str_exn_def)

lemma str_exn_RequestException [simp]: "str_exn e (RequestException m) = m"
  by (simp add: str_exn_def)

lemma encodable_words [simp]:
  "encodable word_exception" "encodable word_error" "encodable msg_liked"
  "encodable msg_replied" "encodable msg_published" "encodable msg_post_error"
  "encodable msg_no_token"
  by (simp_all add: word_exception_def word_error_def msg_liked_def msg_replied_def
      msg_published_def msg_post_error_def msg_no_token_def)

lemma encodable_nat_digits [simp]: "encodable (nat_digits n)"
proof (induction n rule: nat_digits.induct)
  case (1 n)
  show ?case
  proof (cases "n < 10")
    case True
    then show ?thesis by (subst nat_digits.simps) simp
  next
    case False
    have "48 + n mod 10 < 55296" by (rule less_trans [of _ 58]) simp_all
    with False 1 show ?thesis by (subst nat_digits.simps) simp
  qed
qed

lemma encodable_str_int [simp]: "encodable (str_int i)"
  by (simp add: str_int_def)

lemma write_text_encodable [simp]:
  "encodable s \<Longrightarrow> write_text f s = (append_text f s, None)"
  by (simp add: write_text_def)

section \<open>Lines of a text file\<close>

lemma universal_newlines_append:
  "a = [] \<or> last a \<noteq> CR \<Longrightarrow> universal_newlines (a @ b) = universal_newlines a @ universal_newlines b"
proof (induction a rule: universal_newlines.induct)
  case 1
  then show ?case by simp
next
  case (2 c cs)
  then show ?case
    by (cases cs) (auto split: if_splits)
qed

lemma universal_newlines_last:
  "a \<noteq> [] \<Longrightarrow> last a = LF \<Longrightarrow> universal_newlines a \<noteq> [] \<and> last (universal_newlines a) = LF"
proof (induction a rule: universal_newlines.induct)
  case 1
  then show ?case by simp
next
  case (2 c cs)
  then show ?case
    by (cases cs) (auto split: if_splits)
qed

lemma universal_newlines_id: "CR \<notin> set s \<Longrightarrow> universal_newlines s = s"
  by (induction s rule: universal_newlines.induct) (auto split: list.splits)

lemma readlines_Nil_iff: "readlines s = [] \<longleftrightarrow> s = []"
  by (cases s) (auto split: list.splits)

lemma readlines_append:
  "a = [] \<or> last a = LF \<Longrightarrow> readlines (a @ b) = readlines a @ readlines b"
proof (induction a)
  case Nil
  then show ?case by simp
next
  case (Cons c cs)
  show ?case
  proof (cases "cs = []")
    case True
    with Cons.prems show ?thesis by simp
  next
    case False
    with Cons.prems have "last cs = LF" by simp
    with Cons.IH False have ih: "readlines (cs @ b) = readlines cs @ readlines b" by simp
    from False have "readlines cs \<noteq> []" by (simp add: readlines_Nil_iff)
    then show ?thesis using ih by (auto split: list.splits)
  qed
qed

lemma readlines_single: "LF \<notin> set s \<Longrightarrow> readlines (s @ [LF]) = [s @ [LF]]"
  by (induction s) auto

lemma text_lines_append:
  assumes "c = [] \<or> last c = LF"
  shows "text_lines (c @ x) = text_lines c @ text_lines x"
proof (cases "c = []")
  case True
  then show ?thesis by (simp add: text_lines_def)
next
  case False
  with assms have l: "last c = LF" by simp
  then have "universal_newlines (c @ x) = universal_newlines c @ universal_newlines x"
    by (simp add: universal_newlines_append)
  moreover have "last (universal_newlines c) = LF"
    using universal_newlines_last [OF False l] by simp
  ultimately show ?thesis
    by (simp add: text_lines_def readlines_append)
qed

lemma text_lines_clean: "CR \<notin> set s \<Longrightarrow> LF \<notin> set s \<Longrightarrow> text_lines (s @ [LF]) = [s @ [LF]]"
  by (simp add: text_lines_def universal_newlines_id readlines_single)

lemma dropWhile_id_hd:
  assumes "dropWhile P s = s" "s \<noteq> []"
  shows "\<not> P (hd s)"
proof
  assume p: "P (hd s)"
  from assms(2) obtain a t where s: "s = a # t" by (cases s) auto
  with p assms(1) have "dropWhile P t = a # t" by simp
  then have "length (dropWhile P t) = Suc (length t)" by simp
  moreover have "length (dropWhile P t) \<le> length t" by (rule length_dropWhile_le)
  ultimately show False by simp
qed

lemma py_strip_fixed:
  assumes "py_strip s = s" "s \<noteq> []"
  shows "\<not> py_isspace (hd s) \<and> \<not> py_isspace (last s)"
proof -
  let ?P = py_isspace
  have len1: "length (dropWhile ?P (rev (dropWhile ?P s))) \<le> length (dropWhile ?P s)"
    using length_dropWhile_le [of ?P "rev (dropWhile ?P s)"] by simp
  have len2: "length (dropWhile ?P s) \<le> length s" by (rule length_dropWhile_le)
  from assms(1) have "length (dropWhile ?P (rev (dropWhile ?P s))) = length s"
    unfolding py_strip_def by (metis length_rev)
  with len1 len2 have l: "length (dropWhile ?P s) = length s" by simp
  have d1: "dropWhile ?P s = s"
  proof -
    have "dropWhile ?P s = drop (length (takeWhile ?P s)) s" by (rule dropWhile_eq_drop)
    moreover have "length (takeWhile ?P s) + length (dropWhile ?P s) = length s"
      by (metis length_append takeWhile_dropWhile_id)
    ultimately show ?thesis using l by simp
  qed
  with assms(1) have "rev (dropWhile ?P (rev s)) = s" by (simp add: py_strip_def)
  then have d2: "dropWhile ?P (rev s) = rev s" by (metis rev_rev_ident)
  from d1 assms(2) have "\<not> ?P (hd s)" by (rule dropWhile_id_hd)
  moreover from d2 assms(2) have "\<not> ?P (hd (rev s))" by (intro dropWhile_id_hd) auto
  ultimately show ?thesis using assms(2) by (simp add: hd_rev)
qed

lemma py_strip_line:
  assumes "py_strip s = s" "s \<noteq> []"
  shows "py_strip (s @ [LF]) = s"
proof -
  from py_strip_fixed [OF assms] have h: "\<not> py_isspace (hd s)" and l: "\<not> py_isspace (last s)"
    by simp_all
  from assms(2) obtain a t where s: "s = a # t" by (cases s) auto
  from assms(2) obtain u b where s': "s = u @ [b]" by (cases s rule: rev_cases) auto
  have sp: "py_isspace LF" by (simp add: py_isspace_def)
  from h s have "dropWhile py_isspace (s @ [LF]) = s @ [LF]" by simp
  moreover from l s' sp have "dropWhile py_isspace (rev (s @ [LF])) = rev s" by simp
  ultimately show ?thesis by (simp add: py_strip_def)
qed

lemma load_processed_lines_eq:
  "load_processed_lines ls s = s \<union> {x \<in> py_strip ` set ls. x \<noteq> []}"
  by (induction ls arbitrary: s) (auto simp: Let_def)

lemma load_posted_lines_eq:
  "load_posted_lines ls posts = posts @ filter (\<lambda>x. x \<noteq> []) (map py_strip ls)"
  by (induction ls arbitrary: posts) (auto simp: Let_def)

section \<open>The two id files\<close>

lemma load_processed_append:
  assumes "terminated (processed_file w)"
  shows "load_processed_comments (w\<lparr>processed_file := append_text (processed_file w) x\<rparr>) =
         load_processed_comments w \<union> {y \<in> py_strip ` set (text_lines x). y \<noteq> []}"
proof (cases "processed_file w")
  case None
  then show ?thesis
    by (simp add: load_processed_comments_def append_text_def load_processed_lines_eq)
next
  case (Some c)
  with assms have "c = [] \<or> last c = LF" by (simp add: terminated_def)
  then have "text_lines (c @ x) = text_lines c @ text_lines x" by (rule text_lines_append)
  with Some show ?thesis
    by (auto simp: load_processed_comments_def append_text_def load_processed_lines_eq)
qed

lemma terminated_append: "terminated (append_text f (s @ [LF]))"
  by (simp add: terminated_def append_text_def)

lemma load_processed_save_clean:
  assumes "clean_id cid" "terminated (processed_file w)"
  shows "load_processed_comments (fst (save_processed_comment (JStr cid) w)) =
         insert cid (load_processed_comments w)"
proof -
  from assms(1) have "text_lines (cid @ [LF]) = [cid @ [LF]]"
    by (simp add: clean_id_def text_lines_clean)
  moreover from assms(1) have "py_strip (cid @ [LF]) = cid"
    by (simp add: clean_id_def py_strip_line)
  moreover from assms(1) have "cid \<noteq> []" by (simp add: clean_id_def)
  moreover from assms(1) have "encodable (cid @ [LF])" by (simp add: clean_id_def)
  ultimately show ?thesis
    using load_processed_append [OF assms(2), of "cid @ [LF]"]
    by (auto simp: save_processed_comment_def)
qed

lemma save_processed_comment_clean:
  assumes "clean_id cid"
  shows "save_processed_comment (JStr cid) w =
         (w\<lparr>processed_file := append_text (processed_file w) (cid @ [LF])\<rparr>, None)"
  using assms by (simp add: save_processed_comment_def clean_id_def)

text \<open>
  C3 (as amended). For a comment id that is not empty, that \<^verbatim>\<open>strip()\<close> leaves
  unchanged and that holds no line break and no lone surrogate, and a file of processed comments that is absent,
  empty or ends with a line feed: \<^verbatim>\<open>save_processed_comment\<close> raises nothing, the id
  is a member of the set \<^verbatim>\<open>load_processed_comments\<close> returns after the first call and
  after the second, the second call leaves that set as the first left it, and the set is
  the earlier one with the id added.
\<close>

theorem save_processed_comment_idempotent:
  assumes "clean_id cid" and "terminated (processed_file w)"
  shows "snd (save_processed_comment (JStr cid) w) = None \<and>
         cid \<in> load_processed_comments (fst (save_processed_comment (JStr cid) w)) \<and>
         cid \<in> load_processed_comments
                 (fst (save_processed_comment (JStr cid) (fst (save_processed_comment (JStr cid) w)))) \<and>
         load_processed_comments
           (fst (save_processed_comment (JStr cid) (fst (save_processed_comment (JStr cid) w)))) =
         load_processed_comments (fst (save_processed_comment (JStr cid) w)) \<and>
         load_processed_comments (fst (save_processed_comment (JStr cid) w)) =
         insert cid (load_processed_comments w)"
proof -
  let ?w1 = "fst (save_processed_comment (JStr cid) w)"
  have t1: "terminated (processed_file ?w1)"
    using assms(1) by (simp add: save_processed_comment_clean terminated_append)
  have l1: "load_processed_comments ?w1 = insert cid (load_processed_comments w)"
    using assms by (rule load_processed_save_clean)
  have l2: "load_processed_comments (fst (save_processed_comment (JStr cid) ?w1)) =
            insert cid (load_processed_comments ?w1)"
    using assms(1) t1 by (rule load_processed_save_clean)
  have "snd (save_processed_comment (JStr cid) w) = None"
    using assms(1) by (simp add: save_processed_comment_clean)
  with l1 l2 show ?thesis by auto
qed

theorem save_processed_comment_idempotent_witness:
  "clean_id example_id \<and> terminated (processed_file fresh_world) \<and>
   load_processed_comments
     (fst (save_processed_comment (JStr example_id)
        (fst (save_processed_comment (JStr example_id) fresh_world)))) = {example_id}"
proof -
  have c: "clean_id example_id"
    by (simp add: example_id_def clean_id_def py_strip_def py_isspace_def)
  have t: "terminated (processed_file fresh_world)"
    by (simp add: terminated_def fresh_world_def)
  have "load_processed_comments fresh_world = {}"
    by (simp add: load_processed_comments_def fresh_world_def)
  with save_processed_comment_idempotent [OF c t] c t show ?thesis by simp
qed

text \<open>
  C3 as stated fails for the empty id: its line is blank, and
  \<^verbatim>\<open>load_processed_comments\<close> skips blank lines, so the id is not in the set after
  one call nor after two. It fails also for an id with a lone surrogate, here U+D800: the
  write raises \<^verbatim>\<open>UnicodeEncodeError\<close> and leaves the file empty.
\<close>

theorem save_processed_comment_empty_id:
  "[] \<notin> load_processed_comments (fst (save_processed_comment (JStr []) fresh_world)) \<and>
   [] \<notin> load_processed_comments
          (fst (save_processed_comment (JStr [])
             (fst (save_processed_comment (JStr []) fresh_world)))) \<and>
   save_processed_comment (JStr [55296]) fresh_world =
     (fresh_world\<lparr>processed_file := Some []\<rparr>, Some (UnicodeEncodeError [55296, LF])) \<and>
   [55296] \<notin> load_processed_comments (fst (save_processed_comment (JStr [55296]) fresh_world))"
  by (simp add: save_processed_comment_def write_text_def is_surrogate_def fresh_world_def
      append_text_def load_processed_comments_def text_lines_def py_strip_def py_isspace_def)

lemma load_posted_append:
  assumes "terminated (posted_file w)"
  shows "load_posted_posts (w\<lparr>posted_file := append_text (posted_file w) x\<rparr>) =
         load_posted_posts w @ filter (\<lambda>y. y \<noteq> []) (map py_strip (text_lines x))"
proof (cases "posted_file w")
  case None
  then show ?thesis
    by (simp add: load_posted_posts_def append_text_def load_posted_lines_eq)
next
  case (Some c)
  with assms have "c = [] \<or> last c = LF" by (simp add: terminated_def)
  then have "text_lines (c @ x) = text_lines c @ text_lines x" by (rule text_lines_append)
  with Some show ?thesis
    by (simp add: load_posted_posts_def append_text_def load_posted_lines_eq)
qed

lemma load_posted_append_clean:
  assumes "clean_id pid" "terminated (posted_file w)"
  shows "load_posted_posts (w\<lparr>posted_file := append_text (posted_file w) (pid @ [LF])\<rparr>) =
         load_posted_posts w @ [pid]"
proof -
  from assms(1) have "text_lines (pid @ [LF]) = [pid @ [LF]]"
    by (simp add: clean_id_def text_lines_clean)
  moreover from assms(1) have "py_strip (pid @ [LF]) = pid"
    by (simp add: clean_id_def py_strip_line)
  moreover from assms(1) have "pid \<noteq> []" by (simp add: clean_id_def)
  ultimately show ?thesis
    using load_posted_append [OF assms(2), of "pid @ [LF]"] by simp
qed

lemma save_posted_post_present:
  "pid \<in> set (load_posted_posts w) \<Longrightarrow> save_posted_post (JStr pid) w = (w, None)"
  by (simp add: save_posted_post_def)

lemma save_posted_post_absent:
  assumes "clean_id pid" "terminated (posted_file w)" "pid \<notin> set (load_posted_posts w)"
  shows "snd (save_posted_post (JStr pid) w) = None \<and>
         load_posted_posts (fst (save_posted_post (JStr pid) w)) = load_posted_posts w @ [pid]"
  using assms load_posted_append_clean [OF assms(1,2)]
  by (simp add: save_posted_post_def clean_id_def)

text \<open>
  C7 (as amended). For every post id already in the list \<^verbatim>\<open>load_posted_posts\<close>
  returns, \<^verbatim>\<open>save_posted_post\<close> changes nothing and raises nothing. For a post id
  that is not empty, that \<^verbatim>\<open>strip()\<close> leaves unchanged and that holds no line break
  and no lone surrogate, a file of posted posts that is absent, empty or ends with a line
  feed, and a list that holds the id at most once: the first call raises nothing and,
  when the id is not in the list, puts it at the end of the list; the second call changes
  nothing; after them the list holds the id exactly once.
\<close>

theorem save_posted_post_idempotent:
  "(pid \<in> set (load_posted_posts w) \<longrightarrow> save_posted_post (JStr pid) w = (w, None)) \<and>
   (clean_id pid \<and> terminated (posted_file w) \<and> count_list (load_posted_posts w) pid \<le> 1 \<longrightarrow>
      snd (save_posted_post (JStr pid) w) = None \<and>
      (pid \<notin> set (load_posted_posts w) \<longrightarrow>
         load_posted_posts (fst (save_posted_post (JStr pid) w)) = load_posted_posts w @ [pid]) \<and>
      save_posted_post (JStr pid) (fst (save_posted_post (JStr pid) w)) =
        (fst (save_posted_post (JStr pid) w), None) \<and>
      count_list (load_posted_posts (fst (save_posted_post (JStr pid) w))) pid = 1)"
proof (intro conjI impI)
  assume "pid \<in> set (load_posted_posts w)"
  then show "save_posted_post (JStr pid) w = (w, None)" by (rule save_posted_post_present)
next
  assume a: "clean_id pid \<and> terminated (posted_file w) \<and> count_list (load_posted_posts w) pid \<le> 1"
  then show "snd (save_posted_post (JStr pid) w) = None"
    by (simp add: save_posted_post_def clean_id_def)
next
  assume a: "clean_id pid \<and> terminated (posted_file w) \<and> count_list (load_posted_posts w) pid \<le> 1"
    and "pid \<notin> set (load_posted_posts w)"
  then show "load_posted_posts (fst (save_posted_post (JStr pid) w)) = load_posted_posts w @ [pid]"
    by (simp add: save_posted_post_absent)
next
  assume a: "clean_id pid \<and> terminated (posted_file w) \<and> count_list (load_posted_posts w) pid \<le> 1"
  let ?w1 = "fst (save_posted_post (JStr pid) w)"
  have "pid \<in> set (load_posted_posts ?w1)"
  proof (cases "pid \<in> set (load_posted_posts w)")
    case True
    then show ?thesis by (simp add: save_posted_post_present)
  next
    case False
    with a show ?thesis by (simp add: save_posted_post_absent)
  qed
  then show "save_posted_post (JStr pid) ?w1 = (?w1, None)" by (rule save_posted_post_present)
next
  assume a: "clean_id pid \<and> terminated (posted_file w) \<and> count_list (load_posted_posts w) pid \<le> 1"
  let ?w1 = "fst (save_posted_post (JStr pid) w)"
  show "count_list (load_posted_posts ?w1) pid = 1"
  proof (cases "pid \<in> set (load_posted_posts w)")
    case True
    then have "count_list (load_posted_posts w) pid \<noteq> 0" by (simp add: count_list_0_iff)
    with a True show ?thesis by (simp add: save_posted_post_present)
  next
    case False
    then have "count_list (load_posted_posts w) pid = 0" by (simp add: count_list_0_iff)
    with a False show ?thesis by (simp add: save_posted_post_absent)
  qed
qed

text \<open>
  The theorem at the id \<^verbatim>\<open>1_2\<close>: in a fresh directory the first call creates the file
  with the one line; in the state so reached the id is in the list and the call changes
  nothing.
\<close>

theorem save_posted_post_idempotent_witness:
  "clean_id example_id \<and> terminated (posted_file fresh_world) \<and>
   count_list (load_posted_posts fresh_world) example_id \<le> 1 \<and>
   example_id \<notin> set (load_posted_posts fresh_world) \<and>
   fst (save_posted_post (JStr example_id) fresh_world) = one_post_world \<and>
   load_posted_posts one_post_world = [example_id] \<and>
   example_id \<in> set (load_posted_posts one_post_world) \<and>
   save_posted_post (JStr example_id) one_post_world = (one_post_world, None) \<and>
   count_list (load_posted_posts one_post_world) example_id = 1"
proof -
  have l0: "load_posted_posts fresh_world = []"
    by (simp add: fresh_world_def load_posted_posts_def)
  have c: "clean_id example_id"
    by (simp add: example_id_def clean_id_def py_strip_def py_isspace_def)
  have t: "terminated (posted_file fresh_world)"
    by (simp add: terminated_def fresh_world_def)
  have s: "fst (save_posted_post (JStr example_id) fresh_world) = one_post_world"
    using l0 by (simp add: save_posted_post_def one_post_world_def fresh_world_def
        example_id_def append_text_def)
  from save_posted_post_idempotent [of example_id fresh_world] l0 c t s show ?thesis
    by simp
qed

text \<open>
  C7 as stated fails for the empty id, the default \<^verbatim>\<open>post_to_facebook\<close> uses when
  the answer carries no id: each call appends a blank line, so the second call is not a
  no-op, and the list read back does not hold the id. It fails also for an id with a lone
  surrogate, here U+D800: the write raises \<^verbatim>\<open>UnicodeEncodeError\<close> and leaves the
  file empty.
\<close>

theorem save_posted_post_empty_id:
  "load_posted_posts
     (fst (save_posted_post (JStr []) (fst (save_posted_post (JStr []) fresh_world)))) = [] \<and>
   posted_file (fst (save_posted_post (JStr []) fresh_world)) = Some [LF] \<and>
   posted_file (fst (save_posted_post (JStr []) (fst (save_posted_post (JStr []) fresh_world)))) =
     Some [LF, LF] \<and>
   save_posted_post (JStr [55296]) fresh_world =
     (fresh_world\<lparr>posted_file := Some []\<rparr>, Some (UnicodeEncodeError [55296, LF])) \<and>
   load_posted_posts (fst (save_posted_post (JStr [55296]) fresh_world)) = []"
  by (simp add: save_posted_post_def write_text_def is_surrogate_def fresh_world_def
      append_text_def load_posted_posts_def text_lines_def py_strip_def py_isspace_def)

section \<open>The metrics sheet\<close>

lemma find_row_None:
  "find_row rows p = None \<Longrightarrow> find (\<lambda>r. row_post_id r = p) rows = None"
  by (induction rows) (auto split: if_splits)

lemma find_append_new:
  "find P rows = None \<Longrightarrow> find P (rows @ [r]) = (if P r then Some r else None)"
  by (induction rows) (auto split: if_splits)

lemma find_append_other:
  "\<not> P r \<Longrightarrow> find P (rows @ [r]) = find P rows"
  by (induction rows) auto

lemma find_row_Some:
  "find_row rows p = Some i \<Longrightarrow>
     i < length rows \<and> find (\<lambda>r. row_post_id r = p) rows = Some (rows ! i)"
  by (induction rows arbitrary: i) (auto split: if_splits)

lemma find_row_update_same:
  "find_row rows p = Some i \<Longrightarrow> row_post_id r' = p \<Longrightarrow>
     find (\<lambda>r. row_post_id r = p) (rows[i := r']) = Some r'"
  by (induction rows arbitrary: i) (auto split: if_splits)

lemma find_row_update_other:
  "find_row rows p = Some i \<Longrightarrow> row_post_id r' = p \<Longrightarrow> q \<noteq> p \<Longrightarrow>
     find (\<lambda>r. row_post_id r = q) (rows[i := r']) = find (\<lambda>r. row_post_id r = q) rows"
  by (induction rows arbitrary: i) (auto split: if_splits)

lemma find_row_id:
  "find_row rows p = Some i \<Longrightarrow> row_post_id (rows ! i) = p"
  by (induction rows arbitrary: i) (auto split: if_splits)

lemma bind_value_kept: "kept_value v \<Longrightarrow> bind_value v = Inr v"
  by (cases v) (simp_all add: kept_value_def kept_string_def bind_value_def check_string_def)

lemma plain_value_kept: "kept_value v \<Longrightarrow> plain_value v"
  by (cases v) (simp_all add: kept_value_def kept_string_def plain_value_def)

lemma cell_read_back_kept: "kept_value v \<Longrightarrow> cell_read_back v = v"
  by (cases v) (auto simp: kept_value_def kept_string_def cell_read_back_def)

lemma kept_value_JStr: "kept_string p \<Longrightarrow> kept_value (JStr p)"
  by (simp add: kept_value_def)

lemma kept_value_content: "kept_content content \<Longrightarrow> kept_value (content_cell content)"
  by (cases content) (auto simp: kept_value_def kept_content_def content_cell_def)

lemma counter_cells_kept:
  "kept_value l \<Longrightarrow> kept_value c \<Longrightarrow> kept_value s \<Longrightarrow> counter_cells l c s = Inr (l, c, s)"
  by (simp add: counter_cells_def bind_value_kept)

lemma new_row_cells_kept:
  assumes "kept_string p" "kept_content content"
  shows "new_row_cells (JStr p) content = Inr (JStr p, content_cell content)"
proof (cases "truthy content")
  case True
  then obtain t where t: "content = Some t" "t \<noteq> []"
    by (cases content) (auto simp: truthy_def)
  with assms(2) have "kept_value (JStr t)" by (simp add: kept_content_def kept_value_def)
  then have "bind_value (JStr t) = Inr (JStr t)" by (rule bind_value_kept)
  with t assms(1) True show ?thesis
    by (simp add: new_row_cells_def bind_value_kept kept_value_JStr content_cell_def)
next
  case False
  then have "content_cell content = JNull"
    by (cases content) (auto simp: truthy_def content_cell_def)
  with False assms(1) show ?thesis
    by (simp add: new_row_cells_def bind_value_kept kept_value_JStr)
qed

lemma save_workbook_plain:
  "list_all plain_value written \<Longrightarrow> save_workbook e written rows w = (w\<lparr>stats := Some rows\<rparr>, None)"
  by (simp add: save_workbook_def)

text \<open>What \<^verbatim>\<open>update_post_stats\<close> does for values that are kept.\<close>

lemma update_post_stats_new:
  assumes "stats w = Some rows" "find_row rows (JStr p) = None"
    and "kept_string p" "kept_content content" "kept_value l" "kept_value c" "kept_value s"
  shows "update_post_stats e (JStr p) l c s content w =
         (w\<lparr>clock_reads := Suc (clock_reads w),
            stats := Some (rows @ [\<lparr>row_post_id = JStr p, row_content = content_cell content,
                                   row_likes = l, row_comments = c, row_shares = s,
                                   row_last_update = JStr (clock e (clock_reads w))\<rparr>])\<rparr>, None)"
proof -
  have pl: "list_all plain_value [JStr p, content_cell content, l, c, s]"
    using assms(3-7) by (simp add: plain_value_kept kept_value_JStr kept_value_content)
  have rb: "cell_read_back (JStr p) = JStr p"
    "cell_read_back (content_cell content) = content_cell content"
    "cell_read_back l = l" "cell_read_back c = c" "cell_read_back s = s"
    using assms(3-7) by (simp_all add: cell_read_back_kept kept_value_JStr kept_value_content)
  show ?thesis
    using assms(1,2)
    by (simp add: update_post_stats_def Let_def new_row_cells_kept [OF assms(3,4)]
        counter_cells_kept [OF assms(5,6,7)] save_workbook_plain [OF pl] rb)
qed

lemma update_post_stats_found:
  assumes "stats w = Some rows" "find_row rows (JStr p) = Some i"
    and "kept_value l" "kept_value c" "kept_value s"
  shows "update_post_stats e (JStr p) l c s content w =
         (w\<lparr>clock_reads := Suc (clock_reads w),
            stats := Some (rows[i := (rows ! i)\<lparr>row_likes := l, row_comments := c,
                                   row_shares := s,
                                   row_last_update := JStr (clock e (clock_reads w))\<rparr>])\<rparr>, None)"
proof -
  have pl: "list_all plain_value [l, c, s]"
    using assms(3-5) by (simp add: plain_value_kept)
  have rb: "cell_read_back l = l" "cell_read_back c = c" "cell_read_back s = s"
    using assms(3-5) by (simp_all add: cell_read_back_kept)
  show ?thesis
    using assms(1,2)
    by (simp add: update_post_stats_def Let_def counter_cells_kept [OF assms(3,4,5)]
        save_workbook_plain [OF pl] rb)
qed

text \<open>
  C4 (as amended). Let the workbook be loadable, the post id a string that a cell keeps,
  and the three counters values that a cell keeps. When the sheet has no record for the
  id and the content is absent, empty or a string that a cell keeps,
  \<^verbatim>\<open>update_post_stats\<close> raises nothing and the record afterwards has the given
  counters, the time of the call, and as content the given one if it was provided and is
  not empty, none otherwise. When the sheet has a record, then whatever content is
  supplied the call raises nothing and the record afterwards keeps its content and has
  the new counters and the time of the call. In both cases the records of other post ids
  are as before.
\<close>

theorem update_post_stats_merge:
  assumes "stats w \<noteq> None" and "kept_string p"
    and "kept_value l" and "kept_value c" and "kept_value s"
  shows
  "(stats_record w p = None \<and> kept_content content \<longrightarrow>
      snd (update_post_stats e (JStr p) l c s content w) = None \<and>
      stats_record (fst (update_post_stats e (JStr p) l c s content w)) p =
        Some \<lparr>row_post_id = JStr p,
              row_content = (if content = None \<or> content = Some [] then JNull
                             else JStr (the content)),
              row_likes = l, row_comments = c, row_shares = s,
              row_last_update = JStr (clock e (clock_reads w))\<rparr> \<and>
      (\<forall>q. q \<noteq> p \<longrightarrow>
         stats_record (fst (update_post_stats e (JStr p) l c s content w)) q =
         stats_record w q)) \<and>
   (\<forall>r. stats_record w p = Some r \<longrightarrow>
      snd (update_post_stats e (JStr p) l c s content w) = None \<and>
      stats_record (fst (update_post_stats e (JStr p) l c s content w)) p =
        Some \<lparr>row_post_id = JStr p, row_content = row_content r,
              row_likes = l, row_comments = c, row_shares = s,
              row_last_update = JStr (clock e (clock_reads w))\<rparr> \<and>
      (\<forall>q. q \<noteq> p \<longrightarrow>
         stats_record (fst (update_post_stats e (JStr p) l c s content w)) q =
         stats_record w q))"
proof -
  from assms(1) obtain rows where rows: "stats w = Some rows" by auto
  let ?u = "update_post_stats e (JStr p) l c s content w"
  let ?now = "JStr (clock e (clock_reads w))"
  show ?thesis
  proof (cases "find_row rows (JStr p)")
    case None
    then have n: "find (\<lambda>r. row_post_id r = JStr p) rows = None" by (rule find_row_None)
    then have rec: "stats_record w p = None" using rows by (simp add: stats_record_def)
    have cc: "content_cell content =
              (if content = None \<or> content = Some [] then JNull else JStr (the content))"
      by (cases content) (auto simp: content_cell_def)
    have new: "kept_content content \<Longrightarrow>
        snd ?u = None \<and>
        stats_record (fst ?u) p =
          Some \<lparr>row_post_id = JStr p,
                row_content = (if content = None \<or> content = Some [] then JNull
                               else JStr (the content)),
                row_likes = l, row_comments = c, row_shares = s, row_last_update = ?now\<rparr> \<and>
        (\<forall>q. q \<noteq> p \<longrightarrow> stats_record (fst ?u) q = stats_record w q)"
    proof -
      assume k: "kept_content content"
      note u = update_post_stats_new [OF rows None assms(2) k assms(3,4,5), of e]
      show ?thesis
        using n rows
        by (auto simp: u stats_record_def find_append_new find_append_other cc)
    qed
    show ?thesis using rec new by simp
  next
    case (Some i)
    note fr = find_row_Some [OF Some] find_row_id [OF Some]
    let ?r' = "(rows ! i)\<lparr>row_likes := l, row_comments := c, row_shares := s,
                 row_last_update := ?now\<rparr>"
    note u = update_post_stats_found [OF rows Some assms(3,4,5), of e content]
    have id: "row_post_id ?r' = JStr p" using fr by simp
    have same: "find (\<lambda>r. row_post_id r = JStr p) (rows[i := ?r']) = Some ?r'"
      using Some id by (rule find_row_update_same)
    have other: "\<And>q. q \<noteq> p \<Longrightarrow>
        find (\<lambda>r. row_post_id r = JStr q) (rows[i := ?r']) =
        find (\<lambda>r. row_post_id r = JStr q) rows"
      using Some id by (rule find_row_update_other) simp
    have eq: "?r' = \<lparr>row_post_id = JStr p, row_content = row_content (rows ! i),
                row_likes = l, row_comments = c, row_shares = s, row_last_update = ?now\<rparr>"
      using fr by simp
    have ex: "snd ?u = None" by (simp add: u)
    have st: "stats (fst ?u) = Some (rows[i := ?r'])" by (simp add: u)
    have a: "stats_record (fst ?u) p = Some ?r'"
      using same st by (simp add: stats_record_def)
    have a': "stats_record (fst ?u) p =
          Some \<lparr>row_post_id = JStr p, row_content = row_content (rows ! i),
                row_likes = l, row_comments = c, row_shares = s, row_last_update = ?now\<rparr>"
      using a by (simp only: eq)
    have b: "\<And>q. q \<noteq> p \<Longrightarrow> stats_record (fst ?u) q = stats_record w q"
      using other st rows by (simp add: stats_record_def)
    have c: "stats_record w p = Some (rows ! i)"
      using fr rows by (simp add: stats_record_def)
    show ?thesis
    proof (intro conjI allI impI)
      assume "stats_record w p = None \<and> kept_content content"
      with c show "snd ?u = None" by simp
    next
      assume "stats_record w p = None \<and> kept_content content"
      with c show "stats_record (fst ?u) p =
          Some \<lparr>row_post_id = JStr p,
                row_content = (if content = None \<or> content = Some [] then JNull
                               else JStr (the content)),
                row_likes = l, row_comments = c, row_shares = s, row_last_update = ?now\<rparr>"
        by simp
    next
      fix q assume "stats_record w p = None \<and> kept_content content"
      with c show "stats_record (fst ?u) q = stats_record w q" by simp
    next
      fix r assume "stats_record w p = Some r"
      show "snd ?u = None" by (rule ex)
    next
      fix r assume "stats_record w p = Some r"
      with c have "r = rows ! i" by simp
      with a' show "stats_record (fst ?u) p =
          Some \<lparr>row_post_id = JStr p, row_content = row_content r,
                row_likes = l, row_comments = c, row_shares = s, row_last_update = ?now\<rparr>"
        by (simp only:)
    next
      fix r q assume "q \<noteq> p"
      then show "stats_record (fst ?u) q = stats_record w q" by (rule b)
    qed
  qed
qed


lemma kept_examples:
  "kept_string [80, 49]" "kept_value (JInt i)" "kept_content None"
  by (simp_all add: kept_string_def kept_value_def kept_content_def illegal_character_def
      xml_char_def is_surrogate_def)

text \<open>
  The example of the specification: \<^verbatim>\<open>update_post_stats("P1", 5, 2, 1)\<close> in a fresh
  directory, then \<^verbatim>\<open>update_post_stats("P1", 6, 2, 1, content="ig")\<close>.
\<close>

theorem update_post_stats_merge_witness:
  "stats fresh_world \<noteq> None \<and> kept_string [80, 49] \<and>
   kept_value (JInt 5) \<and> kept_value (JInt 2) \<and> kept_value (JInt 1) \<and> kept_value (JInt 6) \<and>
   stats_record fresh_world [80, 49] = None \<and> kept_content None \<and>
   snd (update_post_stats base_env (JStr [80, 49]) (JInt 5) (JInt 2) (JInt 1) None fresh_world) =
     None \<and>
   stats_record
     (fst (update_post_stats base_env (JStr [80, 49]) (JInt 5) (JInt 2) (JInt 1) None
        fresh_world)) [80, 49] =
     Some \<lparr>row_post_id = JStr [80, 49], row_content = JNull, row_likes = JInt 5,
           row_comments = JInt 2, row_shares = JInt 1, row_last_update = JStr [48]\<rparr> \<and>
   stats_record
     (fst (update_post_stats base_env (JStr [80, 49]) (JInt 6) (JInt 2) (JInt 1)
        (Some [105, 103])
        (fst (update_post_stats base_env (JStr [80, 49]) (JInt 5) (JInt 2) (JInt 1) None
           fresh_world)))) [80, 49] =
     Some \<lparr>row_post_id = JStr [80, 49], row_content = JNull, row_likes = JInt 6,
           row_comments = JInt 2, row_shares = JInt 1, row_last_update = JStr [49]\<rparr> \<and>
   ([81] \<noteq> [80, 49::nat] \<and>
    stats_record
      (fst (update_post_stats base_env (JStr [80, 49]) (JInt 5) (JInt 2) (JInt 1) None
         fresh_world)) [81] = None)"
proof -
  let ?u1 = "update_post_stats base_env (JStr [80, 49]) (JInt 5) (JInt 2) (JInt 1) None fresh_world"
  let ?w1 = "fst ?u1"
  have s0: "stats fresh_world \<noteq> None" by (simp add: fresh_world_def)
  have n: "stats_record fresh_world [80, 49] = None"
    by (simp add: stats_record_def fresh_world_def)
  have n': "stats_record fresh_world [81] = None"
    by (simp add: stats_record_def fresh_world_def)
  have c0: "clock base_env (clock_reads fresh_world) = [48]"
    by (simp add: base_env_def fresh_world_def nat_digits.simps)
  note first = update_post_stats_merge
    [where w = fresh_world and p = "[80, 49]" and l = "JInt 5" and c = "JInt 2" and
       s = "JInt 1" and content = None and e = base_env,
     OF s0 kept_examples(1) kept_examples(2) kept_examples(2) kept_examples(2)]
  from first n c0 kept_examples(3) have r1: "snd ?u1 = None \<and> stats_record ?w1 [80, 49] =
     Some \<lparr>row_post_id = JStr [80, 49], row_content = JNull, row_likes = JInt 5,
           row_comments = JInt 2, row_shares = JInt 1, row_last_update = JStr [48]\<rparr>"
    by simp
  from first n n' kept_examples(3) have r1': "stats_record ?w1 [81] = None"
    by simp
  from r1 have s1: "stats ?w1 \<noteq> None" by (auto simp: stats_record_def split: option.splits)
  have c1: "clock base_env (clock_reads ?w1) = [49]"
    by (simp add: update_post_stats_new [OF _ _ kept_examples(1) kept_examples(3)
          kept_examples(2) kept_examples(2) kept_examples(2)]
        fresh_world_def base_env_def nat_digits.simps)
  note second = update_post_stats_merge
    [where w = "?w1" and p = "[80, 49]" and l = "JInt 6" and c = "JInt 2" and
       s = "JInt 1" and content = "Some [105, 103]" and e = base_env,
     OF s1 kept_examples(1) kept_examples(2) kept_examples(2) kept_examples(2)]
  from second r1 c1 have "stats_record
     (fst (update_post_stats base_env (JStr [80, 49]) (JInt 6) (JInt 2) (JInt 1)
        (Some [105, 103]) ?w1)) [80, 49] =
     Some \<lparr>row_post_id = JStr [80, 49], row_content = JNull, row_likes = JInt 6,
           row_comments = JInt 2, row_shares = JInt 1, row_last_update = JStr [49]\<rparr>"
    by simp
  with s0 n r1 r1' kept_examples show ?thesis by simp
qed

text \<open>
  C4 as stated fails for the empty id, the default \<^verbatim>\<open>post_to_facebook\<close> uses when
  the answer carries no id. The cell of column A is written empty and read back as
  \<^verbatim>\<open>None\<close>, so the search never finds the row: the second call leaves the counters of
  the first row as they were and adds a second row, with the content supplied; no record
  is found under the id.
\<close>

theorem update_post_stats_empty_id:
  "stats
     (fst (update_post_stats base_env (JStr []) (JInt 6) (JInt 2) (JInt 1) (Some [105, 103])
        (fst (update_post_stats base_env (JStr []) (JInt 5) (JInt 2) (JInt 1) None
           fresh_world)))) =
   Some [\<lparr>row_post_id = JNull, row_content = JNull, row_likes = JInt 5,
          row_comments = JInt 2, row_shares = JInt 1, row_last_update = JStr [48]\<rparr>,
         \<lparr>row_post_id = JNull, row_content = JStr [105, 103], row_likes = JInt 6,
          row_comments = JInt 2, row_shares = JInt 1, row_last_update = JStr [49]\<rparr>] \<and>
   stats_record
     (fst (update_post_stats base_env (JStr []) (JInt 6) (JInt 2) (JInt 1) (Some [105, 103])
        (fst (update_post_stats base_env (JStr []) (JInt 5) (JInt 2) (JInt 1) None
           fresh_world)))) [] = None"
  by (simp add: update_post_stats_def fresh_world_def base_env_def Let_def new_row_cells_def
      counter_cells_def bind_value_def check_string_def save_workbook_def plain_value_def
      cell_read_back_def truthy_def nat_digits.simps stats_record_def illegal_character_def
      xml_char_def is_surrogate_def)

section \<open>Fetching the metrics\<close>

lemma log_action_fields [simp]:
  "exchanges (fst (log_action e a i w)) = exchanges w"
  "processed_file (fst (log_action e a i w)) = processed_file w"
  "posted_file (fst (log_action e a i w)) = posted_file w"
  "stats (fst (log_action e a i w)) = stats w"
  "stdout (fst (log_action e a i w)) = stdout w"
  "clock_reads (fst (log_action e a i w)) = Suc (clock_reads w)"
  by (simp_all add: log_action_def Let_def)

lemma log_action_raises [simp]:
  "snd (log_action e a i w) = None \<longleftrightarrow> encodable (a @ i)"
  by (simp add: log_action_def Let_def)

lemma log_action_snd_ok: "encodable (a @ i) \<Longrightarrow> snd (log_action e a i w) = None"
  by simp

lemma log_action_exn: "snd (log_action e a i w) = Some x \<Longrightarrow> encodable (str_exn e x)"
  by (auto simp: log_action_def Let_def split: if_splits)

lemma log_action_ok:
  "encodable (a @ i) \<Longrightarrow>
     log_action e a i w =
       (w\<lparr>clock_reads := Suc (clock_reads w),
          log_file := log_file w @
            [\<lparr>log_time = clock e (clock_reads w), log_action_name = a, log_info = i\<rparr>]\<rparr>, None)"
  by (simp add: log_action_def Let_def)

lemma http_fields [simp]:
  "fst (http e req w) = remote e (exchanges w) req"
  "exchanges (snd (http e req w)) = exchanges w @ [(req, remote e (exchanges w) req)]"
  "processed_file (snd (http e req w)) = processed_file w"
  "posted_file (snd (http e req w)) = posted_file w"
  "stats (snd (http e req w)) = stats w"
  "log_file (snd (http e req w)) = log_file w"
  "stdout (snd (http e req w)) = stdout w"
  "clock_reads (snd (http e req w)) = clock_reads w"
  by (simp_all add: http_def Let_def)

lemma insight_failed_fields [simp]:
  "fst (insight_failed e what p x w) = JInt 0"
  "exchanges (fst (snd (insight_failed e what p x w))) = exchanges w"
  "processed_file (fst (snd (insight_failed e what p x w))) = processed_file w"
  "posted_file (fst (snd (insight_failed e what p x w))) = posted_file w"
  "stats (fst (snd (insight_failed e what p x w))) = stats w"
  "stdout (fst (snd (insight_failed e what p x w))) = stdout w"
  by (simp_all add: insight_failed_def split_beta)

lemma insight_failed_raises:
  "snd (snd (insight_failed e what p x w)) = None \<longleftrightarrow>
     encodable what \<and> encodable p \<and> encodable (str_exn e x)"
  by (simp add: insight_failed_def split_beta)

lemma insight_query_exchanges:
  "exchanges (fst (snd (insight_query e req outer inner what p w))) =
     exchanges w @ [(req, remote e (exchanges w) req)]"
  by (simp add: insight_query_def Let_def split_beta
      split: http_result.splits sum.splits if_splits option.splits prod.splits)

lemma insight_query_store:
  "processed_file (fst (snd (insight_query e req outer inner what p w))) = processed_file w"
  "posted_file (fst (snd (insight_query e req outer inner what p w))) = posted_file w"
  "stats (fst (snd (insight_query e req outer inner what p w))) = stats w"
  "stdout (fst (snd (insight_query e req outer inner what p w))) = stdout w"
  by (simp_all add: insight_query_def Let_def split_beta
      split: http_result.splits sum.splits if_splits option.splits prod.splits)

lemma insight_query_failed:
  assumes "query_failed (remote e (exchanges w) req)"
  shows "fst (insight_query e req outer inner what p w) = JInt 0"
proof (cases "remote e (exchanges w) req")
  case (Raised x)
  then show ?thesis by (simp add: insight_query_def Let_def split_beta)
next
  case (Response r)
  with assms have "status_code r \<noteq> 200" by (simp add: query_failed_def)
  with Response show ?thesis
    by (cases "log_action e (ascii ''get_post_insights'')
                 (word_error @ ascii '' '' @ what @ ascii '' '' @ p @ ascii '': '' @
                  str_int (status_code r) @ ascii '' '' @ resp_text r) (snd (http e req w))";
        cases "snd (log_action e (ascii ''get_post_insights'')
                 (word_error @ ascii '' '' @ what @ ascii '' '' @ p @ ascii '': '' @
                  str_int (status_code r) @ ascii '' '' @ resp_text r) (snd (http e req w)))")
       (simp_all add: insight_query_def Let_def split_beta)
qed

lemma insight_query_reported:
  "reported outer inner (remote e (exchanges w) req) = Some n \<Longrightarrow>
     fst (insight_query e req outer inner what p w) = n"
  by (auto simp: insight_query_def reported_def response_json_def dict_get_def Let_def split_beta
      split: http_result.splits sum.splits if_splits json.splits option.splits)

text \<open>
  A sub-query lets no exception out when the post id and the texts of the answer can be
  encoded: a status line that cannot be written to the log is caught by the handler,
  whose own line then holds the escaped text of that exception.
\<close>

lemma insight_query_returns:
  assumes "encodable what" "encodable p" "loggable e (remote e (exchanges w) req)"
  shows "snd (snd (insight_query e req outer inner what p w)) = None"
proof (cases "remote e (exchanges w) req")
  case (Raised x)
  with assms show ?thesis
    by (simp add: insight_query_def Let_def split_beta insight_failed_raises loggable_def)
next
  case (Response r)
  show ?thesis
  proof (cases "status_code r = 200")
    case True
    with Response assms show ?thesis
      by (auto simp: insight_query_def Let_def split_beta insight_failed_raises loggable_def
          response_json_def dict_get_def split: sum.splits json.splits)
  next
    case False
    with Response assms show ?thesis
      by (auto simp: insight_query_def Let_def split_beta insight_failed_raises
          dest: log_action_exn split: option.splits prod.splits)
  qed
qed

text \<open>
  C6. With a token configured, a post id that can be encoded (it is a line of the file
  of posted posts) and answers whose error texts can be encoded,
  \<^verbatim>\<open>get_post_insights\<close> raises nothing and always sends its three requests, likes,
  comments and shares, in this order, whatever the earlier ones returned; a sub-query
  that fails (transport error or a status other than 200) leaves its counter at 0, and a
  sub-query that is answered with status 200 and a count yields that count,
  independently of the other two. In particular, when the shares sub-query fails and the
  other two succeed, the result is the two reported counts and 0 shares.
\<close>

theorem get_post_insights_isolation:
  assumes "FACEBOOK_PAGE_ACCESS_TOKEN e = Some tok" and "tok \<noteq> []"
    and "encodable p"
    and "res_l = remote e (exchanges w) (GetLikes p tok)"
    and "hist_l = exchanges w @ [(GetLikes p tok, res_l)]"
    and "res_c = remote e hist_l (GetCommentsSummary p tok)"
    and "hist_c = hist_l @ [(GetCommentsSummary p tok, res_c)]"
    and "res_s = remote e hist_c (GetShares p tok)"
    and "loggable e res_l" and "loggable e res_c" and "loggable e res_s"
    and "get_post_insights e p w = ((likes, comments, shares), w', raised)"
  shows "raised = None \<and>
         exchanges w' = hist_c @ [(GetShares p tok, res_s)] \<and>
         (query_failed res_l \<longrightarrow> likes = JInt 0) \<and>
         (query_failed res_c \<longrightarrow> comments = JInt 0) \<and>
         (query_failed res_s \<longrightarrow> shares = JInt 0) \<and>
         (\<forall>n. reported (ascii ''summary'') (ascii ''total_count'') res_l = Some n \<longrightarrow> likes = n) \<and>
         (\<forall>n. reported (ascii ''summary'') (ascii ''total_count'') res_c = Some n \<longrightarrow> comments = n) \<and>
         (\<forall>n. reported (ascii ''shares'') (ascii ''count'') res_s = Some n \<longrightarrow> shares = n)"
proof -
  let ?q1 = "insight_query e (GetLikes p tok) (ascii ''summary'') (ascii ''total_count'')
               (ascii ''likes'') p w"
  let ?q2 = "insight_query e (GetCommentsSummary p tok) (ascii ''summary'')
               (ascii ''total_count'') (ascii ''comments'') p (fst (snd ?q1))"
  let ?q3 = "insight_query e (GetShares p tok) (ascii ''shares'') (ascii ''count'')
               (ascii ''shares'') p (fst (snd ?q2))"
  have x1: "exchanges (fst (snd ?q1)) = hist_l"
    using assms(4,5) by (simp add: insight_query_exchanges)
  have x2: "exchanges (fst (snd ?q2)) = hist_c"
    using assms(6,7) x1 by (simp add: insight_query_exchanges)
  have x3: "exchanges (fst (snd ?q3)) = hist_c @ [(GetShares p tok, res_s)]"
    using assms(8) x2 by (simp add: insight_query_exchanges)
  have n1: "snd (snd ?q1) = None"
    using assms(3,4,9) by (intro insight_query_returns) simp_all
  have n2: "snd (snd ?q2) = None"
    using assms(3,6,10) x1 by (intro insight_query_returns) simp_all
  have n3: "snd (snd ?q3) = None"
    using assms(3,8,11) x2 by (intro insight_query_returns) simp_all
  have g: "get_post_insights e p w = ((fst ?q1, fst ?q2, fst ?q3), fst (snd ?q3), None)"
    using assms(1,2) n1 n2 n3
    by (auto simp: get_post_insights_def truthy_def Let_def split: prod.splits option.splits)
  with assms(12) have res: "likes = fst ?q1" "comments = fst ?q2" "shares = fst ?q3"
    "w' = fst (snd ?q3)" "raised = None"
    by simp_all
  have f1: "query_failed res_l \<Longrightarrow> fst ?q1 = JInt 0"
    unfolding assms(4) by (rule insight_query_failed)
  have f2: "query_failed res_c \<Longrightarrow> fst ?q2 = JInt 0"
    using insight_query_failed [of e "fst (snd ?q1)" "GetCommentsSummary p tok"] x1 assms(6)
    by simp
  have f3: "query_failed res_s \<Longrightarrow> fst ?q3 = JInt 0"
    using insight_query_failed [of e "fst (snd ?q2)" "GetShares p tok"] x2 assms(8) by simp
  have s1: "\<And>n. reported (ascii ''summary'') (ascii ''total_count'') res_l = Some n \<Longrightarrow> fst ?q1 = n"
    unfolding assms(4) by (rule insight_query_reported)
  have s2: "\<And>n. reported (ascii ''summary'') (ascii ''total_count'') res_c = Some n \<Longrightarrow> fst ?q2 = n"
    using insight_query_reported [of _ _ e "fst (snd ?q1)" "GetCommentsSummary p tok"] x1 assms(6)
    by simp
  have s3: "\<And>n. reported (ascii ''shares'') (ascii ''count'') res_s = Some n \<Longrightarrow> fst ?q3 = n"
    using insight_query_reported [of _ _ e "fst (snd ?q2)" "GetShares p tok"] x2 assms(8)
    by simp
  show ?thesis
    unfolding res using x3 f1 f2 f3 s1 s2 s3 by blast
qed


lemma reported_count_body: "reported outer inner (count_body outer inner n) = Some (JInt n)"
  by (simp add: reported_def count_body_def)

lemma failed_Raised: "query_failed (Raised x)"
  by (simp add: query_failed_def)

lemma loggable_examples:
  "loggable base_env (Raised (RequestException [120]))"
  "loggable e (count_body outer inner n)"
  by (simp_all add: loggable_def count_body_def)

lemma encodable_example_id: "encodable example_id"
  by (simp add: example_id_def)

text \<open>
  The theorem at a remote side that reports 5 likes and 2 comments and fails on the
  shares, and at one that fails on likes and comments and reports 3 shares.
\<close>

theorem get_post_insights_isolation_witness:
  "FACEBOOK_PAGE_ACCESS_TOKEN shares_down_env = Some [84] \<and> [84] \<noteq> ([]::pystr) \<and>
   encodable example_id \<and>
   query_failed (Raised (RequestException [120])) \<and>
   loggable shares_down_env (Raised (RequestException [120])) \<and>
   loggable shares_down_env (count_body (ascii ''summary'') (ascii ''total_count'') 5) \<and>
   loggable shares_down_env (count_body (ascii ''summary'') (ascii ''total_count'') 2) \<and>
   reported (ascii ''summary'') (ascii ''total_count'')
     (count_body (ascii ''summary'') (ascii ''total_count'') 5) = Some (JInt 5) \<and>
   reported (ascii ''summary'') (ascii ''total_count'')
     (count_body (ascii ''summary'') (ascii ''total_count'') 2) = Some (JInt 2) \<and>
   reported (ascii ''shares'') (ascii ''count'')
     (count_body (ascii ''shares'') (ascii ''count'') 3) = Some (JInt 3) \<and>
   fst (get_post_insights shares_down_env example_id fresh_world) = (JInt 5, JInt 2, JInt 0) \<and>
   snd (snd (get_post_insights shares_down_env example_id fresh_world)) = None \<and>
   fst (get_post_insights only_shares_env example_id fresh_world) = (JInt 0, JInt 0, JInt 3) \<and>
   snd (snd (get_post_insights only_shares_env example_id fresh_world)) = None"
proof -
  let ?x = "Raised (RequestException [120])"
  let ?l = "count_body (ascii ''summary'') (ascii ''total_count'') 5"
  let ?c = "count_body (ascii ''summary'') (ascii ''total_count'') 2"
  let ?s = "count_body (ascii ''shares'') (ascii ''count'') 3"
  let ?g = "get_post_insights shares_down_env example_id fresh_world"
  let ?g' = "get_post_insights only_shares_env example_id fresh_world"
  have t: "FACEBOOK_PAGE_ACCESS_TOKEN shares_down_env = Some [84]"
    by (simp add: shares_down_env_def base_env_def)
  have t': "FACEBOOK_PAGE_ACCESS_TOKEN only_shares_env = Some [84]"
    by (simp add: only_shares_env_def base_env_def)
  have ne: "[84] \<noteq> ([]::pystr)" by simp
  note en = encodable_example_id
  have x0: "exchanges fresh_world = []" by (simp add: fresh_world_def)
  have fx: "query_failed ?x" by (rule failed_Raised)
  have lx: "loggable shares_down_env ?x" by (simp add: loggable_def)
  have lx': "loggable only_shares_env ?x" by (simp add: loggable_def)
  have ll: "loggable shares_down_env ?l" by (rule loggable_examples)
  have lc: "loggable shares_down_env ?c" by (rule loggable_examples)
  have ls: "loggable only_shares_env ?s" by (rule loggable_examples)
  have rl: "reported (ascii ''summary'') (ascii ''total_count'') ?l = Some (JInt 5)"
    by (rule reported_count_body)
  have rc: "reported (ascii ''summary'') (ascii ''total_count'') ?c = Some (JInt 2)"
    by (rule reported_count_body)
  have rs: "reported (ascii ''shares'') (ascii ''count'') ?s = Some (JInt 3)"
    by (rule reported_count_body)
  have a1: "?l = remote shares_down_env (exchanges fresh_world) (GetLikes example_id [84])"
    by (simp add: shares_down_env_def)
  have a2: "[(GetLikes example_id [84], ?l)] =
            exchanges fresh_world @ [(GetLikes example_id [84], ?l)]"
    by (simp add: x0)
  have a3: "?c = remote shares_down_env [(GetLikes example_id [84], ?l)]
                   (GetCommentsSummary example_id [84])"
    by (simp add: shares_down_env_def)
  have a4: "[(GetLikes example_id [84], ?l), (GetCommentsSummary example_id [84], ?c)] =
            [(GetLikes example_id [84], ?l)] @ [(GetCommentsSummary example_id [84], ?c)]"
    by simp
  have a5: "?x = remote shares_down_env
                   [(GetLikes example_id [84], ?l), (GetCommentsSummary example_id [84], ?c)]
                   (GetShares example_id [84])"
    by (simp add: shares_down_env_def base_env_def)
  have a6: "?g = ((fst (fst ?g), fst (snd (fst ?g)), snd (snd (fst ?g))),
                  fst (snd ?g), snd (snd ?g))"
    by simp
  note a = get_post_insights_isolation [OF t ne en a1 a2 a3 a4 a5 ll lc lx a6]
  from a fx rl rc have g: "fst ?g = (JInt 5, JInt 2, JInt 0) \<and> snd (snd ?g) = None"
    by (simp only: prod_eq_iff fst_conv snd_conv simp_thms)
  have b1: "?x = remote only_shares_env (exchanges fresh_world) (GetLikes example_id [84])"
    by (simp add: only_shares_env_def base_env_def)
  have b2: "[(GetLikes example_id [84], ?x)] =
            exchanges fresh_world @ [(GetLikes example_id [84], ?x)]"
    by (simp add: x0)
  have b3: "?x = remote only_shares_env [(GetLikes example_id [84], ?x)]
                   (GetCommentsSummary example_id [84])"
    by (simp add: only_shares_env_def base_env_def)
  have b4: "[(GetLikes example_id [84], ?x), (GetCommentsSummary example_id [84], ?x)] =
            [(GetLikes example_id [84], ?x)] @ [(GetCommentsSummary example_id [84], ?x)]"
    by simp
  have b5: "?s = remote only_shares_env
                   [(GetLikes example_id [84], ?x), (GetCommentsSummary example_id [84], ?x)]
                   (GetShares example_id [84])"
    by (simp add: only_shares_env_def)
  have b6: "?g' = ((fst (fst ?g'), fst (snd (fst ?g')), snd (snd (fst ?g'))),
                   fst (snd ?g'), snd (snd ?g'))"
    by simp
  note b = get_post_insights_isolation [OF t' ne en b1 b2 b3 b4 b5 lx' lx' ls b6]
  from b fx rs have g': "fst ?g' = (JInt 0, JInt 0, JInt 3) \<and> snd (snd ?g') = None"
    by (simp only: prod_eq_iff fst_conv snd_conv simp_thms)
  from t ne en fx lx ll lc rl rc rs g g' show ?thesis by (simp only: simp_thms)
qed

section \<open>Publishing\<close>

lemma post_to_facebook_configured:
  assumes "FACEBOOK_PAGE_ACCESS_TOKEN e = Some tok" "tok \<noteq> []"
    and "FACEBOOK_PAGE_ID e = Some page" "page \<noteq> []"
  shows "post_to_facebook e message w =
     (let (res, w1) = http e (PostFeed page tok message) w
      in case res of
           Raised x \<Rightarrow> post_failed e x w1
         | Response r \<Rightarrow>
             if status_code r = 200 then
               (case response_json r of
                  Inl x \<Rightarrow> post_failed e x w1
                | Inr body \<Rightarrow>
                    (case dict_get body (ascii ''id'') (JStr []) of
                       Inl x \<Rightarrow> post_failed e x w1
                     | Inr new_post_id \<Rightarrow>
                         (case log_action e (ascii ''post_to_facebook'')
                                 (msg_published @ py_str e new_post_id) w1 of
                            (w2, Some x) \<Rightarrow> post_failed e x w2
                          | (w2, None) \<Rightarrow>
                              (case save_posted_post new_post_id w2 of
                                 (w3, Some x) \<Rightarrow> post_failed e x w3
                               | (w3, None) \<Rightarrow>
                                   (case update_post_stats e new_post_id (JInt 0) (JInt 0)
                                           (JInt 0) (Some message) w3 of
                                      (w4, Some x) \<Rightarrow> post_failed e x w4
                                    | (w4, None) \<Rightarrow> (Inr (py_str e new_post_id), w4))))))
             else
               (let err = msg_post_error @ str_int (status_code r) @ ascii '' '' @ resp_text r
                in case log_action e (ascii ''post_to_facebook'') err w1 of
                     (w2, Some x) \<Rightarrow> post_failed e x w2
                   | (w2, None) \<Rightarrow> (Inr err, w2)))"
  using assms by (simp add: post_to_facebook_def truthy_def)

lemma post_failed_fields [simp]:
  "processed_file (snd (post_failed e x w)) = processed_file w"
  "posted_file (snd (post_failed e x w)) = posted_file w"
  "stats (snd (post_failed e x w)) = stats w"
  "exchanges (snd (post_failed e x w)) = exchanges w"
  by (simp_all add: post_failed_def Let_def split_beta split: option.splits)

lemma post_failed_text:
  "encodable (str_exn e x) \<Longrightarrow>
     fst (post_failed e x w) = Inr (word_exception @ ascii '': '' @ str_exn e x)"
  by (simp add: post_failed_def Let_def log_action_ok)

lemma load_posted_touch:
  "posted_file w' = append_text (posted_file w) [] \<Longrightarrow> load_posted_posts w' = load_posted_posts w"
  by (cases "posted_file w") (simp_all add: load_posted_posts_def append_text_def text_lines_def)

lemma save_posted_post_not_string:
  "\<forall>s. v \<noteq> JStr s \<Longrightarrow>
     save_posted_post v w =
       (w\<lparr>posted_file := append_text (posted_file w) []\<rparr>, Some (TypeError_concat v))"
  by (cases v) (simp_all add: save_posted_post_def)

lemma load_posted_posts_cong:
  "posted_file w' = posted_file w \<Longrightarrow> load_posted_posts w' = load_posted_posts w"
  by (simp add: load_posted_posts_def)

lemma post_to_facebook_unpublished:
  assumes "FACEBOOK_PAGE_ACCESS_TOKEN e = Some tok" and "tok \<noteq> []"
    and "FACEBOOK_PAGE_ID e = Some page" and "page \<noteq> []"
    and "\<forall>s. published_id (remote e (exchanges w) (PostFeed page tok message)) = Some (JStr s)
           \<longrightarrow> \<not> encodable s"
  shows "stats (snd (post_to_facebook e message w)) = stats w \<and>
         load_posted_posts (snd (post_to_facebook e message w)) = load_posted_posts w \<and>
         processed_file (snd (post_to_facebook e message w)) = processed_file w"
proof -
  let ?w' = "snd (post_to_facebook e message w)"
  note unfold = post_to_facebook_configured [OF assms(1-4)] split_beta Let_def response_json_def
  have "stats ?w' = stats w \<and> processed_file ?w' = processed_file w \<and>
        (posted_file ?w' = posted_file w \<or> posted_file ?w' = append_text (posted_file w) [])"
  proof (cases "remote e (exchanges w) (PostFeed page tok message)")
    case (Raised x)
    then show ?thesis by (simp add: unfold split: option.splits)
  next
    case (Response r)
    show ?thesis
    proof (cases "status_code r = 200")
      case False
      with Response show ?thesis by (simp add: unfold split: option.splits)
    next
      case True
      note ok = this
      show ?thesis
      proof (cases "resp_json r")
        case (Inl m)
        with Response ok show ?thesis by (simp add: unfold split: option.splits)
      next
        case (Inr body)
        show ?thesis
        proof (cases "\<exists>kvs. body = JDict kvs")
          case False
          then have "dict_get body (ascii ''id'') (JStr []) = Inl (AttributeError body)"
            by (cases body) (simp_all add: dict_get_def)
          with Response ok Inr show ?thesis by (simp add: unfold split: option.splits)
        next
          case True
          then obtain kvs where b: "body = JDict kvs" by blast
          define v where "v = (case map_of kvs (ascii ''id'') of None \<Rightarrow> JStr [] | Some v \<Rightarrow> v)"
          have g: "dict_get body (ascii ''id'') (JStr []) = Inr v"
            by (simp add: b dict_get_def v_def)
          from Response ok Inr b
          have pv: "published_id (remote e (exchanges w) (PostFeed page tok message)) = Some v"
            by (simp add: published_id_def v_def)
          let ?w1 = "snd (http e (PostFeed page tok message) w)"
          let ?lg = "log_action e (ascii ''post_to_facebook'') (msg_published @ py_str e v) ?w1"
          show ?thesis
          proof (cases "snd ?lg")
            case (Some x)
            with Response ok Inr g show ?thesis
              by (simp add: unfold split: option.splits)
          next
            case None
            have ns: "\<forall>s. v \<noteq> JStr s"
            proof (intro allI notI)
              fix s assume "v = JStr s"
              with pv assms(5) have "\<not> encodable s" by simp
              moreover from None \<open>v = JStr s\<close> have "encodable s" by (simp add: py_str_def)
              ultimately show False by simp
            qed
            from Response ok Inr g None show ?thesis
              by (simp add: unfold save_posted_post_not_string [OF ns] split: option.splits)
          qed
        qed
      qed
    qed
  qed
  moreover have "load_posted_posts ?w' = load_posted_posts w"
    if "posted_file ?w' = posted_file w \<or> posted_file ?w' = append_text (posted_file w) []"
    using that load_posted_touch [of ?w' w] load_posted_posts_cong [of ?w' w] by blast
  ultimately show ?thesis by blast
qed


lemma find_row_None_iff:
  "find_row rows p = None \<longleftrightarrow> find (\<lambda>r. row_post_id r = p) rows = None"
  by (induction rows) (auto split: if_splits)

lemma save_posted_post_fields [simp]:
  "stats (fst (save_posted_post v w)) = stats w"
  "clock_reads (fst (save_posted_post v w)) = clock_reads w"
  "processed_file (fst (save_posted_post v w)) = processed_file w"
  "exchanges (fst (save_posted_post v w)) = exchanges w"
  "log_file (fst (save_posted_post v w)) = log_file w"
  by (cases v; simp add: save_posted_post_def split_beta)+

lemma save_posted_post_string:
  "encodable s \<Longrightarrow> snd (save_posted_post (JStr s) w) = None"
  by (simp add: save_posted_post_def)

lemma save_posted_post_member:
  assumes "clean_id s" "terminated (posted_file w)"
  shows "s \<in> set (load_posted_posts (fst (save_posted_post (JStr s) w)))"
proof (cases "s \<in> set (load_posted_posts w)")
  case True
  then show ?thesis by (simp add: save_posted_post_present)
next
  case False
  with assms show ?thesis by (simp add: save_posted_post_absent)
qed

lemma update_post_stats_posted [simp]:
  "posted_file (fst (update_post_stats e p l c s content w)) = posted_file w"
  "processed_file (fst (update_post_stats e p l c s content w)) = processed_file w"
  "exchanges (fst (update_post_stats e p l c s content w)) = exchanges w"
  by (simp_all add: update_post_stats_def save_workbook_def Let_def
      split: option.splits sum.splits prod.splits)

text \<open>
  C5. With token and page id configured: when the publish request fails (transport error
  or a status other than 200), \<^verbatim>\<open>post_to_facebook\<close> leaves the file of posted posts,
  the metrics sheet and the processed comments as they were, and returns the error text
  (provided the log can take it: the text holds no lone surrogate). Whenever the request
  is not answered with status 200 and an id that is a string without lone surrogate, the
  list of posted posts and the metrics sheet are as before. When it is,
  \<^verbatim>\<open>save_posted_post\<close> raises nothing and \<^verbatim>\<open>update_post_stats\<close> is called on the
  state it leaves, with counters 0, 0, 0 and the message as content: the result is the id
  when that call returns, and what the exception handler gives when it raises. For an id
  and a message that the file and the sheet keep, and a sheet without a record for the
  id, the result is the id, the id is in the list of posted posts, and the sheet has the
  record with the message and three zeros.
\<close>

theorem post_to_facebook_failure:
  assumes "FACEBOOK_PAGE_ACCESS_TOKEN e = Some tok" and "tok \<noteq> []"
    and "FACEBOOK_PAGE_ID e = Some page" and "page \<noteq> []"
    and "res = remote e (exchanges w) (PostFeed page tok message)"
  shows "(query_failed res \<longrightarrow>
            posted_file (snd (post_to_facebook e message w)) = posted_file w \<and>
            stats (snd (post_to_facebook e message w)) = stats w \<and>
            processed_file (snd (post_to_facebook e message w)) = processed_file w \<and>
            (encodable (publish_error_text e res) \<longrightarrow>
               fst (post_to_facebook e message w) = Inr (publish_error_text e res))) \<and>
         ((\<forall>s. published_id res = Some (JStr s) \<longrightarrow> \<not> encodable s) \<longrightarrow>
            load_posted_posts (snd (post_to_facebook e message w)) = load_posted_posts w \<and>
            stats (snd (post_to_facebook e message w)) = stats w) \<and>
         (\<forall>s. published_id res = Some (JStr s) \<and> encodable s \<longrightarrow>
            snd (save_posted_post (JStr s)
                   (fst (log_action e (ascii ''post_to_facebook'') (msg_published @ s)
                      (snd (http e (PostFeed page tok message) w))))) = None \<and>
            post_to_facebook e message w =
              (case update_post_stats e (JStr s) (JInt 0) (JInt 0) (JInt 0) (Some message)
                      (fst (save_posted_post (JStr s)
                         (fst (log_action e (ascii ''post_to_facebook'') (msg_published @ s)
                            (snd (http e (PostFeed page tok message) w)))))) of
                 (w4, None) \<Rightarrow> (Inr s, w4)
               | (w4, Some x) \<Rightarrow> post_failed e x w4)) \<and>
         (\<forall>s. published_id res = Some (JStr s) \<and> clean_id s \<and> kept_string s \<and>
               kept_string message \<and> terminated (posted_file w) \<and> stats w \<noteq> None \<and>
               stats_record w s = None \<longrightarrow>
            fst (post_to_facebook e message w) = Inr s \<and>
            s \<in> set (load_posted_posts (snd (post_to_facebook e message w))) \<and>
            stats_record (snd (post_to_facebook e message w)) s =
              Some \<lparr>row_post_id = JStr s, row_content = JStr message, row_likes = JInt 0,
                    row_comments = JInt 0, row_shares = JInt 0,
                    row_last_update = JStr (clock e (Suc (clock_reads w)))\<rparr>)"
proof -
  let ?P = "post_to_facebook e message w"
  let ?w1 = "snd (http e (PostFeed page tok message) w)"
  note unfold = post_to_facebook_configured [OF assms(1-4)] split_beta Let_def
  have failed: "posted_file (snd ?P) = posted_file w \<and> stats (snd ?P) = stats w \<and>
      processed_file (snd ?P) = processed_file w \<and>
      (encodable (publish_error_text e res) \<longrightarrow> fst ?P = Inr (publish_error_text e res))"
    if f: "query_failed res"
  proof (cases res)
    case (Raised x)
    with assms(5) have "remote e (exchanges w) (PostFeed page tok message) = Raised x" by simp
    with Raised show ?thesis
      by (simp add: unfold publish_error_text_def post_failed_text)
  next
    case (Response r)
    with f have "status_code r \<noteq> 200" by (simp add: query_failed_def)
    moreover from Response assms(5)
    have "remote e (exchanges w) (PostFeed page tok message) = Response r" by simp
    ultimately show ?thesis using Response
      by (simp add: unfold publish_error_text_def log_action_ok split: option.splits)
  qed
  have unpublished: "load_posted_posts (snd ?P) = load_posted_posts w \<and> stats (snd ?P) = stats w"
    if "\<forall>s. published_id res = Some (JStr s) \<longrightarrow> \<not> encodable s"
    using post_to_facebook_unpublished [OF assms(1-4)] that assms(5) by simp
  have invoked: "snd (save_posted_post (JStr s)
                   (fst (log_action e (ascii ''post_to_facebook'') (msg_published @ s) ?w1))) =
                 None \<and>
      ?P = (case update_post_stats e (JStr s) (JInt 0) (JInt 0) (JInt 0) (Some message)
                      (fst (save_posted_post (JStr s)
                         (fst (log_action e (ascii ''post_to_facebook'') (msg_published @ s)
                            ?w1)))) of
                 (w4, None) \<Rightarrow> (Inr s, w4)
               | (w4, Some x) \<Rightarrow> post_failed e x w4)"
    if p: "published_id res = Some (JStr s)" and en: "encodable s" for s
  proof -
    from p obtain r kvs where r: "res = Response r" "status_code r = 200"
        "resp_json r = Inr (JDict kvs)"
        "(case map_of kvs (ascii ''id'') of None \<Rightarrow> JStr [] | Some v \<Rightarrow> v) = JStr s"
      by (auto simp: published_id_def split: http_result.splits if_splits sum.splits json.splits)
    have sv: "snd (save_posted_post (JStr s) w') = None" for w'
      using en by (rule save_posted_post_string)
    have lg: "snd (log_action e (ascii ''post_to_facebook'') (msg_published @ s) ?w1) = None"
      using en by simp
    from r(1) assms(5)
    have rr: "remote e (exchanges w) (PostFeed page tok message) = Response r" by simp
    have dg: "dict_get (JDict kvs) (ascii ''id'') (JStr []) = Inr (JStr s)"
      using r(4) by (simp add: dict_get_def)
    show ?thesis
      using r(2,3) rr sv en dg
      by (simp add: unfold response_json_def py_str_def log_action_snd_ok
          split: option.splits)
  qed
  have stored: "fst ?P = Inr s \<and> s \<in> set (load_posted_posts (snd ?P)) \<and>
      stats_record (snd ?P) s =
        Some \<lparr>row_post_id = JStr s, row_content = JStr message, row_likes = JInt 0,
              row_comments = JInt 0, row_shares = JInt 0,
              row_last_update = JStr (clock e (Suc (clock_reads w)))\<rparr>"
    if p: "published_id res = Some (JStr s)" and cl: "clean_id s" and ks: "kept_string s"
      and km: "kept_string message" and tm: "terminated (posted_file w)"
      and st: "stats w \<noteq> None" and nr: "stats_record w s = None" for s
  proof -
    from cl have en: "encodable s" by (simp add: clean_id_def)
    let ?w2 = "fst (log_action e (ascii ''post_to_facebook'') (msg_published @ s) ?w1)"
    let ?w3 = "fst (save_posted_post (JStr s) ?w2)"
    let ?u = "update_post_stats e (JStr s) (JInt 0) (JInt 0) (JInt 0) (Some message) ?w3"
    from st obtain rows where rows: "stats w = Some rows" by auto
    have rows3: "stats ?w3 = Some rows" using rows by simp
    from nr rows have fr: "find_row rows (JStr s) = None"
      by (simp add: stats_record_def find_row_None_iff)
    have kc: "kept_content (Some message)" using km by (simp add: kept_content_def)
    have kz: "kept_value (JInt 0)" by (simp add: kept_value_def)
    have c3: "clock_reads ?w3 = Suc (clock_reads w)" by simp
    have cm: "content_cell (Some message) = JStr message"
      using km by (simp add: content_cell_def kept_string_def)
    note u = update_post_stats_new [OF rows3 fr ks kc kz kz kz, of e]
    have P: "?P = (Inr s, fst ?u)"
      using invoked [OF p en] by (simp add: u)
    have tm2: "terminated (posted_file ?w2)" using tm by simp
    have "s \<in> set (load_posted_posts ?w3)"
      using cl tm2 by (rule save_posted_post_member)
    moreover have "load_posted_posts (fst ?u) = load_posted_posts ?w3"
      by (rule load_posted_posts_cong) simp
    ultimately have m: "s \<in> set (load_posted_posts (fst ?u))" by simp
    have "find (\<lambda>r. row_post_id r = JStr s) rows = None"
      using fr by (simp add: find_row_None_iff)
    then have rec: "stats_record (fst ?u) s =
        Some \<lparr>row_post_id = JStr s, row_content = JStr message, row_likes = JInt 0,
              row_comments = JInt 0, row_shares = JInt 0,
              row_last_update = JStr (clock e (Suc (clock_reads w)))\<rparr>"
      by (simp add: u stats_record_def find_append_new cm)
    from P m rec show ?thesis by simp
  qed
  show ?thesis
    using failed unpublished invoked stored by blast
qed

lemma str_int_400: "str_int 400 = [52, 48, 48]"
  by (simp add: str_int_def nat_digits.simps)

lemma clean_example_id: "clean_id example_id"
  by (simp add: example_id_def clean_id_def py_strip_def py_isspace_def)

lemma kept_string_examples: "kept_string example_id" "kept_string [104, 105]"
  by (simp_all add: example_id_def kept_string_def illegal_character_def xml_char_def
      is_surrogate_def)

text \<open>
  The theorem at a remote side that rejects the request with status 400, and at one that
  accepts it with the id \<^verbatim>\<open>1_2\<close>: for the message \<^verbatim>\<open>hi\<close>, and for a message with
  the control character U+0001, which the sheet refuses after the id was appended to the
  file.
\<close>

theorem post_to_facebook_failure_witness:
  "FACEBOOK_PAGE_ACCESS_TOKEN rejecting_env = Some [84] \<and> [84] \<noteq> ([]::pystr) \<and>
   FACEBOOK_PAGE_ID rejecting_env = Some [55] \<and> [55] \<noteq> ([]::pystr) \<and>
   query_failed (remote rejecting_env (exchanges fresh_world) (PostFeed [55] [84] [104, 105])) \<and>
   encodable (publish_error_text rejecting_env
     (remote rejecting_env (exchanges fresh_world) (PostFeed [55] [84] [104, 105]))) \<and>
   published_id (remote rejecting_env (exchanges fresh_world)
     (PostFeed [55] [84] [104, 105])) = None \<and>
   fst (post_to_facebook rejecting_env [104, 105] fresh_world) =
     Inr (msg_post_error @ ascii ''400 bad_token'') \<and>
   load_posted_posts (snd (post_to_facebook rejecting_env [104, 105] fresh_world)) = [] \<and>
   posted_file (snd (post_to_facebook rejecting_env [104, 105] fresh_world)) = None \<and>
   stats (snd (post_to_facebook rejecting_env [104, 105] fresh_world)) = Some [] \<and>
   published_id (remote accepting_env (exchanges fresh_world) (PostFeed [55] [84] [104, 105])) =
     Some (JStr example_id) \<and>
   clean_id example_id \<and> kept_string example_id \<and> kept_string [104, 105] \<and>
   terminated (posted_file fresh_world) \<and> stats fresh_world \<noteq> None \<and>
   stats_record fresh_world example_id = None \<and>
   fst (post_to_facebook accepting_env [104, 105] fresh_world) = Inr example_id \<and>
   example_id \<in> set (load_posted_posts (snd (post_to_facebook accepting_env [104, 105]
     fresh_world))) \<and>
   stats_record (snd (post_to_facebook accepting_env [104, 105] fresh_world)) example_id =
     Some \<lparr>row_post_id = JStr example_id, row_content = JStr [104, 105], row_likes = JInt 0,
           row_comments = JInt 0, row_shares = JInt 0, row_last_update = JStr [49]\<rparr> \<and>
   published_id (remote accepting_env (exchanges fresh_world) (PostFeed [55] [84] [97, 1, 98])) =
     Some (JStr example_id) \<and>
   encodable example_id \<and>
   fst (post_to_facebook accepting_env [97, 1, 98] fresh_world) =
     Inr (word_exception @ ascii '': '' @ [63]) \<and>
   posted_file (snd (post_to_facebook accepting_env [97, 1, 98] fresh_world)) =
     Some (example_id @ [LF]) \<and>
   stats (snd (post_to_facebook accepting_env [97, 1, 98] fresh_world)) = Some []"
proof -
  let ?req = "PostFeed [55] [84] [104, 105]"
  let ?req' = "PostFeed [55] [84] [97, 1, 98]"
  have t: "FACEBOOK_PAGE_ACCESS_TOKEN rejecting_env = Some [84]"
    and p: "FACEBOOK_PAGE_ID rejecting_env = Some [55]"
    by (simp_all add: rejecting_env_def base_env_def)
  have t': "FACEBOOK_PAGE_ACCESS_TOKEN accepting_env = Some [84]"
    and p': "FACEBOOK_PAGE_ID accepting_env = Some [55]"
    by (simp_all add: accepting_env_def base_env_def)
  have n1: "[84] \<noteq> ([]::pystr)" and n2: "[55] \<noteq> ([]::pystr)" by simp_all
  have f: "query_failed (remote rejecting_env (exchanges fresh_world) ?req)"
    by (simp add: rejecting_env_def query_failed_def)
  have et: "publish_error_text rejecting_env (remote rejecting_env (exchanges fresh_world) ?req) =
             msg_post_error @ ascii ''400 bad_token''"
    by (simp add: rejecting_env_def publish_error_text_def str_int_400 ascii_def)
  have en: "encodable (publish_error_text rejecting_env
              (remote rejecting_env (exchanges fresh_world) ?req))"
    by (simp add: et)
  have np: "published_id (remote rejecting_env (exchanges fresh_world) ?req) = None"
    by (simp add: rejecting_env_def published_id_def)
  then have np': "\<forall>s. published_id (remote rejecting_env (exchanges fresh_world) ?req) =
                   Some (JStr s) \<longrightarrow> \<not> encodable s"
    by simp
  have f0: "posted_file fresh_world = None" "stats fresh_world = Some []"
    "load_posted_posts fresh_world = []" "clock_reads fresh_world = 0"
    by (simp_all add: fresh_world_def load_posted_posts_def)
  note a = post_to_facebook_failure [OF t n1 p n2 refl, of fresh_world "[104, 105]"]
  from a f en np' et f0 have rej:
    "fst (post_to_facebook rejecting_env [104, 105] fresh_world) =
       Inr (msg_post_error @ ascii ''400 bad_token'')"
    "load_posted_posts (snd (post_to_facebook rejecting_env [104, 105] fresh_world)) = []"
    "posted_file (snd (post_to_facebook rejecting_env [104, 105] fresh_world)) = None"
    "stats (snd (post_to_facebook rejecting_env [104, 105] fresh_world)) = Some []"
    by simp_all
  have pub: "published_id (remote accepting_env (exchanges fresh_world) ?req) =
             Some (JStr example_id)"
    and pub': "published_id (remote accepting_env (exchanges fresh_world) ?req') =
             Some (JStr example_id)"
    by (simp_all add: accepting_env_def published_id_def)
  have tm: "terminated (posted_file fresh_world)" by (simp add: f0 terminated_def)
  have st: "stats fresh_world \<noteq> None" by (simp add: f0)
  have nr: "stats_record fresh_world example_id = None" by (simp add: stats_record_def f0)
  have c1: "clock accepting_env (Suc 0) = [49]"
    by (simp add: accepting_env_def base_env_def nat_digits.simps)
  note b = post_to_facebook_failure [OF t' n1 p' n2 refl, of fresh_world "[104, 105]"]
  from b pub clean_example_id kept_string_examples tm st nr have acc:
    "fst (post_to_facebook accepting_env [104, 105] fresh_world) = Inr example_id \<and>
     example_id \<in> set (load_posted_posts (snd (post_to_facebook accepting_env [104, 105]
       fresh_world))) \<and>
     stats_record (snd (post_to_facebook accepting_env [104, 105] fresh_world)) example_id =
       Some \<lparr>row_post_id = JStr example_id, row_content = JStr [104, 105], row_likes = JInt 0,
             row_comments = JInt 0, row_shares = JInt 0,
             row_last_update = JStr (clock accepting_env (Suc (clock_reads fresh_world)))\<rparr>"
    by blast
  note c = post_to_facebook_failure [OF t' n1 p' n2 refl, of fresh_world "[97, 1, 98]"]
  from c pub' encodable_example_id have ctl:
    "post_to_facebook accepting_env [97, 1, 98] fresh_world =
       (case update_post_stats accepting_env (JStr example_id) (JInt 0) (JInt 0) (JInt 0)
               (Some [97, 1, 98])
               (fst (save_posted_post (JStr example_id)
                  (fst (log_action accepting_env (ascii ''post_to_facebook'')
                     (msg_published @ example_id)
                     (snd (http accepting_env ?req' fresh_world)))))) of
          (w4, None) \<Rightarrow> (Inr example_id, w4)
        | (w4, Some x) \<Rightarrow> post_failed accepting_env x w4)"
    by blast
  have ctl':
    "fst (post_to_facebook accepting_env [97, 1, 98] fresh_world) =
       Inr (word_exception @ ascii '': '' @ [63])"
    "posted_file (snd (post_to_facebook accepting_env [97, 1, 98] fresh_world)) =
       Some (example_id @ [LF])"
    "stats (snd (post_to_facebook accepting_env [97, 1, 98] fresh_world)) = Some []"
    unfolding ctl
    by (simp_all add: update_post_stats_def new_row_cells_def bind_value_def check_string_def
        illegal_character_def truthy_def Let_def post_failed_def log_action_ok str_exn_def
        accepting_env_def base_env_def save_posted_post_def load_posted_posts_def
        fresh_world_def append_text_def example_id_def http_def)
  from t p n1 n2 f en np rej pub pub' clean_example_id kept_string_examples tm st nr acc
    encodable_example_id ctl' c1 f0(4)
  show ?thesis by (simp only: simp_thms)
qed

section \<open>Missing credentials\<close>

lemma engagement_logged_exchanges [simp]:
  "exchanges (fst (engagement_logged e fname done_msg cid res w)) = exchanges w"
  by (simp add: engagement_logged_def Let_def split_beta split: http_result.splits option.splits)

lemma like_comment_exchanges:
  "exchanges (fst (like_comment e cid w)) =
     exchanges w @ [(PostLike (py_str e cid) (FACEBOOK_PAGE_ACCESS_TOKEN e),
                     remote e (exchanges w) (PostLike (py_str e cid) (FACEBOOK_PAGE_ACCESS_TOKEN e)))]"
  by (simp add: like_comment_def split_beta)

lemma reply_to_comment_exchanges:
  "exchanges (fst (reply_to_comment e cid text w)) =
     exchanges w @ [(PostReply (py_str e cid) (FACEBOOK_PAGE_ACCESS_TOKEN e) text,
                     remote e (exchanges w)
                       (PostReply (py_str e cid) (FACEBOOK_PAGE_ACCESS_TOKEN e) text))]"
  by (simp add: reply_to_comment_def split_beta)

lemma comments_failed_fields [simp]:
  "fst (comments_failed e x w) = []"
  "exchanges (fst (snd (comments_failed e x w))) = exchanges w"
  "processed_file (fst (snd (comments_failed e x w))) = processed_file w"
  "posted_file (fst (snd (comments_failed e x w))) = posted_file w"
  "stats (fst (snd (comments_failed e x w))) = stats w"
  by (simp_all add: comments_failed_def split_beta)

lemma get_post_comments_exchanges:
  "exchanges (fst (snd (get_post_comments e p limit w))) =
     exchanges w @ [(GetComments p (FACEBOOK_PAGE_ACCESS_TOKEN e) limit,
                     remote e (exchanges w) (GetComments p (FACEBOOK_PAGE_ACCESS_TOKEN e) limit))]"
  by (simp add: get_post_comments_def split_beta Let_def
      split: http_result.splits sum.splits option.splits)

text \<open>
  C8 (as amended). When the token or the page id is missing, \<^verbatim>\<open>post_to_facebook\<close>
  returns the fixed error text, writes it to the log and sends no request. When the token
  is missing, \<^verbatim>\<open>get_post_insights\<close> returns three zeros and changes nothing: no
  request, no log line. The other three gateway functions do not look at the
  credentials: each sends its request with whatever token there is.
\<close>

theorem missing_credentials:
  "(\<not> truthy (FACEBOOK_PAGE_ACCESS_TOKEN e) \<or> \<not> truthy (FACEBOOK_PAGE_ID e) \<longrightarrow>
      post_to_facebook e message w =
        (Inr msg_no_token, fst (log_action e (ascii ''post_to_facebook'') msg_no_token w)) \<and>
      snd (log_action e (ascii ''post_to_facebook'') msg_no_token w) = None \<and>
      exchanges (snd (post_to_facebook e message w)) = exchanges w) \<and>
   (\<not> truthy (FACEBOOK_PAGE_ACCESS_TOKEN e) \<longrightarrow>
      get_post_insights e p w = ((JInt 0, JInt 0, JInt 0), w, None)) \<and>
   exchanges (fst (snd (get_post_comments e p limit w))) =
     exchanges w @ [(GetComments p (FACEBOOK_PAGE_ACCESS_TOKEN e) limit,
                     remote e (exchanges w) (GetComments p (FACEBOOK_PAGE_ACCESS_TOKEN e) limit))] \<and>
   exchanges (fst (like_comment e cid w)) =
     exchanges w @ [(PostLike (py_str e cid) (FACEBOOK_PAGE_ACCESS_TOKEN e),
                     remote e (exchanges w)
                       (PostLike (py_str e cid) (FACEBOOK_PAGE_ACCESS_TOKEN e)))] \<and>
   exchanges (fst (reply_to_comment e cid text w)) =
     exchanges w @ [(PostReply (py_str e cid) (FACEBOOK_PAGE_ACCESS_TOKEN e) text,
                     remote e (exchanges w)
                       (PostReply (py_str e cid) (FACEBOOK_PAGE_ACCESS_TOKEN e) text))]"
proof (intro conjI impI)
  assume "\<not> truthy (FACEBOOK_PAGE_ACCESS_TOKEN e) \<or> \<not> truthy (FACEBOOK_PAGE_ID e)"
  then show "post_to_facebook e message w =
        (Inr msg_no_token, fst (log_action e (ascii ''post_to_facebook'') msg_no_token w))"
    by (simp add: post_to_facebook_def log_action_ok)
  then show "exchanges (snd (post_to_facebook e message w)) = exchanges w"
    by simp
  show "snd (log_action e (ascii ''post_to_facebook'') msg_no_token w) = None"
    by simp
next
  assume "\<not> truthy (FACEBOOK_PAGE_ACCESS_TOKEN e)"
  then show "get_post_insights e p w = ((JInt 0, JInt 0, JInt 0), w, None)"
    by (simp add: get_post_insights_def)
qed (rule get_post_comments_exchanges like_comment_exchanges reply_to_comment_exchanges)+

theorem missing_credentials_witness:
  "\<not> truthy (FACEBOOK_PAGE_ACCESS_TOKEN no_token_env) \<and>
   fst (post_to_facebook no_token_env [104, 105] fresh_world) = Inr msg_no_token \<and>
   exchanges (snd (post_to_facebook no_token_env [104, 105] fresh_world)) = [] \<and>
   log_file (snd (post_to_facebook no_token_env [104, 105] fresh_world)) =
     [\<lparr>log_time = [48], log_action_name = ascii ''post_to_facebook'', log_info = msg_no_token\<rparr>] \<and>
   get_post_insights no_token_env example_id fresh_world =
     ((JInt 0, JInt 0, JInt 0), fresh_world, None)"
proof -
  have t: "\<not> truthy (FACEBOOK_PAGE_ACCESS_TOKEN no_token_env)"
    by (simp add: no_token_env_def truthy_def)
  note a = missing_credentials [of no_token_env "[104, 105]" fresh_world example_id]
  from a t have p: "post_to_facebook no_token_env [104, 105] fresh_world =
      (Inr msg_no_token,
       fst (log_action no_token_env (ascii ''post_to_facebook'') msg_no_token fresh_world))"
    and g: "get_post_insights no_token_env example_id fresh_world =
      ((JInt 0, JInt 0, JInt 0), fresh_world, None)"
    by blast+
  have "log_file (fst (log_action no_token_env (ascii ''post_to_facebook'') msg_no_token
          fresh_world)) =
     [\<lparr>log_time = [48], log_action_name = ascii ''post_to_facebook'', log_info = msg_no_token\<rparr>]"
    by (simp add: log_action_ok fresh_world_def no_token_env_def base_env_def nat_digits.simps)
  moreover have "exchanges fresh_world = []" by (simp add: fresh_world_def)
  ultimately show ?thesis using t p g by simp
qed

text \<open>
  C8 as stated fails: without a token \<^verbatim>\<open>get_post_insights\<close> reports no error, it
  returns zeros and leaves the log empty, and \<^verbatim>\<open>like_comment\<close> and
  \<^verbatim>\<open>get_post_comments\<close> send their requests.
\<close>

theorem missing_token_not_reported:
  "FACEBOOK_PAGE_ACCESS_TOKEN no_token_env = None \<and>
   get_post_insights no_token_env example_id fresh_world =
     ((JInt 0, JInt 0, JInt 0), fresh_world, None) \<and>
   log_file fresh_world = [] \<and>
   exchanges (fst (like_comment no_token_env (JStr example_id) fresh_world)) =
     [(PostLike example_id None, Raised (RequestException [120]))] \<and>
   exchanges (fst (snd (get_post_comments no_token_env example_id 50 fresh_world))) =
     [(GetComments example_id None 50, Raised (RequestException [120]))]"
  by (simp add: no_token_env_def base_env_def get_post_insights_def truthy_def fresh_world_def
      like_comment_exchanges get_post_comments_exchanges py_str_def)

section \<open>The console\<close>

lemma print_stdout [simp]: "stdout (print s w) = stdout w @ [s]"
  by (simp add: print_def)

lemma new_post_neq_error: "msg_new_post @ result \<noteq> msg_publish_error @ result"
proof
  assume "msg_new_post @ result = msg_publish_error @ result"
  then have "length (msg_new_post @ result) = length (msg_publish_error @ result)" by simp
  then show False by (simp add: msg_new_post_def msg_publish_error_def)
qed

lemma store_stdout [simp]:
  "stdout (fst (save_posted_post v w)) = stdout w"
  "stdout (fst (update_post_stats e p l c s content w)) = stdout w"
  "stdout (snd (post_failed e x w)) = stdout w"
  by (simp_all add: save_posted_post_def update_post_stats_def save_workbook_def post_failed_def
      Let_def split_beta split: json.splits option.splits sum.splits)

lemma post_to_facebook_stdout: "stdout (snd (post_to_facebook e m w)) = stdout w"
  by (simp add: post_to_facebook_def split_beta Let_def
      split: http_result.splits sum.splits option.splits)

text \<open>
  C9. For a console line that is a publish command with a text, and a call of
  \<^verbatim>\<open>post_to_facebook\<close> that returns a string, the line printed is the
  success message followed by the string \<^verbatim>\<open>post_to_facebook\<close> returned when that
  string contains an underscore or is a non-empty string of digits, and the error message
  followed by it otherwise; the two lines differ. So a failure can be shown as a success:
  when the remote side rejects the publish request with status 400 and the text
  \<^verbatim>\<open>bad_token\<close>, nothing is added to the posted posts and the operator reads the
  success message.
\<close>

theorem console_publish_classification:
  assumes "line0 \<noteq> []"
    and "py_startswith (str_lower e (py_strip line0)) (ascii ''/post '')"
    and "post_text = py_strip (drop 6 (py_strip line0))" and "post_text \<noteq> []"
    and "Inr result = fst (post_to_facebook e post_text w)"
  shows "snd (console_step e line0 w) = None \<and>
         stdout (fst (console_step e line0 w)) =
           stdout w @
           [if underscore \<in> set result \<or> (result \<noteq> [] \<and> (\<forall>c \<in> set result. char_isdigit e c))
            then msg_new_post @ result else msg_publish_error @ result] \<and>
         msg_new_post @ result \<noteq> msg_publish_error @ result \<and>
         query_failed (remote rejecting_env (exchanges fresh_world) (PostFeed [55] [84] [104, 105])) \<and>
         posted_file (fst (console_step rejecting_env (ascii ''/post hi'') fresh_world)) = None \<and>
         stdout (fst (console_step rejecting_env (ascii ''/post hi'') fresh_world)) =
           [msg_new_post @ msg_post_error @ ascii ''400 bad_token'']"
proof (intro conjI)
  from assms(5) have r: "fst (post_to_facebook e post_text w) = Inr result" by simp
  show "snd (console_step e line0 w) = None"
    using assms(1-4) r
    by (simp add: console_step_def Let_def split_beta)
  show "stdout (fst (console_step e line0 w)) =
           stdout w @
           [if underscore \<in> set result \<or> (result \<noteq> [] \<and> (\<forall>c \<in> set result. char_isdigit e c))
            then msg_new_post @ result else msg_publish_error @ result]"
    using assms(1-4) r
    by (simp add: console_step_def Let_def split_beta looks_published_def py_isdigit_def
        list_all_iff post_to_facebook_stdout)
  show "msg_new_post @ result \<noteq> msg_publish_error @ result" by (rule new_post_neq_error)
  show "query_failed (remote rejecting_env (exchanges fresh_world) (PostFeed [55] [84] [104, 105]))"
    by (simp add: rejecting_env_def query_failed_def)
  have l: "py_strip (ascii ''/post hi'') = ascii ''/post hi''"
    by (simp add: ascii_def py_strip_def py_isspace_def)
  have s: "py_startswith (str_lower rejecting_env (ascii ''/post hi'')) (ascii ''/post '')"
    by (simp add: ascii_def py_startswith_def rejecting_env_def base_env_def)
  have t: "py_strip (drop 6 (ascii ''/post hi'')) = [104, 105]"
    by (simp add: ascii_def py_strip_def py_isspace_def)
  have p: "post_to_facebook rejecting_env [104, 105] fresh_world =
      (Inr (msg_post_error @ ascii ''400 bad_token''),
       fst (log_action rejecting_env (ascii ''post_to_facebook'')
         (msg_post_error @ ascii ''400 bad_token'')
         (snd (http rejecting_env (PostFeed [55] [84] [104, 105]) fresh_world))))"
    by (simp add: post_to_facebook_def rejecting_env_def base_env_def truthy_def http_def
        str_int_400 ascii_def Let_def log_action_ok)
  have u: "underscore \<in> set (msg_post_error @ ascii ''400 bad_token'')"
    by (simp add: ascii_def)
  have n: "ascii ''/post hi'' \<noteq> []" by (simp add: ascii_def)
  have c: "console_step rejecting_env (ascii ''/post hi'') fresh_world =
      (print (msg_new_post @ msg_post_error @ ascii ''400 bad_token'')
        (fst (log_action rejecting_env (ascii ''post_to_facebook'')
          (msg_post_error @ ascii ''400 bad_token'')
          (snd (http rejecting_env (PostFeed [55] [84] [104, 105]) fresh_world)))), None)"
    using n s u by (simp add: console_step_def l t p looks_published_def)
  show "posted_file (fst (console_step rejecting_env (ascii ''/post hi'') fresh_world)) = None"
    unfolding c by (simp add: print_def fresh_world_def)
  show "stdout (fst (console_step rejecting_env (ascii ''/post hi'') fresh_world)) =
           [msg_new_post @ msg_post_error @ ascii ''400 bad_token'']"
    unfolding c by (simp add: fresh_world_def)
qed


theorem console_publish_classification_witness:
  "ascii ''/post hi'' \<noteq> [] \<and>
   py_startswith (str_lower rejecting_env (py_strip (ascii ''/post hi''))) (ascii ''/post '') \<and>
   py_strip (drop 6 (py_strip (ascii ''/post hi''))) = [104, 105] \<and>
   fst (post_to_facebook rejecting_env [104, 105] fresh_world) =
     Inr (msg_post_error @ ascii ''400 bad_token'') \<and>
   underscore \<in> set (msg_post_error @ ascii ''400 bad_token'') \<and>
   snd (console_step rejecting_env (ascii ''/post hi'') fresh_world) = None \<and>
   stdout (fst (console_step rejecting_env (ascii ''/post hi'') fresh_world)) =
     [msg_new_post @ msg_post_error @ ascii ''400 bad_token'']"
proof -
  have n: "ascii ''/post hi'' \<noteq> []" by (simp add: ascii_def)
  have l: "py_strip (ascii ''/post hi'') = ascii ''/post hi''"
    by (simp add: ascii_def py_strip_def py_isspace_def)
  have s: "py_startswith (str_lower rejecting_env (py_strip (ascii ''/post hi'')))
             (ascii ''/post '')"
    unfolding l by (simp add: ascii_def py_startswith_def rejecting_env_def base_env_def)
  have t: "[104, 105] = py_strip (drop 6 (py_strip (ascii ''/post hi'')))"
    unfolding l by (simp add: ascii_def py_strip_def py_isspace_def)
  have ne: "[104, 105] \<noteq> ([]::pystr)" by simp
  have p: "Inr (msg_post_error @ ascii ''400 bad_token'') =
           fst (post_to_facebook rejecting_env [104, 105] fresh_world)"
    by (simp add: post_to_facebook_def rejecting_env_def base_env_def truthy_def http_def
        str_int_400 ascii_def Let_def log_action_ok)
  have u: "underscore \<in> set (msg_post_error @ ascii ''400 bad_token'')"
    by (simp add: ascii_def)
  note a = console_publish_classification [OF n s t ne p]
  from a have "snd (console_step rejecting_env (ascii ''/post hi'') fresh_world) = None \<and>
     stdout (fst (console_step rejecting_env (ascii ''/post hi'') fresh_world)) =
     [msg_new_post @ msg_post_error @ ascii ''400 bad_token'']"
    by blast
  with n s t [symmetric] p [symmetric] u show ?thesis by (simp only: simp_thms)
qed

section \<open>The reconciliation loop\<close>

lemma likes_for_append [simp]: "likes_for cid (a @ b) = likes_for cid a + likes_for cid b"
  by (simp add: likes_for_def)

lemma replies_for_append [simp]: "replies_for cid (a @ b) = replies_for cid a + replies_for cid b"
  by (simp add: replies_for_def)

lemma fetched_ids_append [simp]: "fetched_ids (a @ b) = fetched_ids a @ fetched_ids b"
  by (simp add: fetched_ids_def)

lemma counts_Nil [simp]: "likes_for cid [] = 0" "replies_for cid [] = 0" "fetched_ids [] = []"
  by (simp_all add: likes_for_def replies_for_def fetched_ids_def)

lemma new_exchanges_append: "exchanges w' = exchanges w @ ext \<Longrightarrow> new_exchanges w w' = ext"
  by (simp add: new_exchanges_def)

lemma new_exchanges_self [simp]: "new_exchanges w w = []"
  by (simp add: new_exchanges_def)

lemma new_exchanges_trans:
  "exchanges w1 = exchanges w @ ext1 \<Longrightarrow> exchanges w2 = exchanges w1 @ ext2 \<Longrightarrow>
     new_exchanges w w2 = new_exchanges w w1 @ new_exchanges w1 w2"
  by (simp add: new_exchanges_def)

lemma is_like_for_simps [simp]:
  "is_like_for cid (PostLike c t, r) \<longleftrightarrow> c = cid"
  "\<not> is_like_for cid (PostReply c t m, r)"
  "\<not> is_like_for cid (GetComments p t' l, r)"
  "\<not> is_like_for cid (GetLikes p t'', r)"
  "\<not> is_like_for cid (GetCommentsSummary p t'', r)"
  "\<not> is_like_for cid (GetShares p t'', r)"
  by (simp_all add: is_like_for_def)

lemma is_reply_for_simps [simp]:
  "is_reply_for cid (PostReply c t m, r) \<longleftrightarrow> c = cid"
  "\<not> is_reply_for cid (PostLike c t, r)"
  "\<not> is_reply_for cid (GetComments p t' l, r)"
  "\<not> is_reply_for cid (GetLikes p t'', r)"
  "\<not> is_reply_for cid (GetCommentsSummary p t'', r)"
  "\<not> is_reply_for cid (GetShares p t'', r)"
  by (simp_all add: is_reply_for_def)

lemma fetched_in_simps [simp]:
  "fetched_in (PostLike c t, r) = []"
  "fetched_in (PostReply c t m, r) = []"
  "fetched_in (GetLikes p t'', r) = []"
  "fetched_in (GetCommentsSummary p t'', r) = []"
  "fetched_in (GetShares p t'', r) = []"
  "fetched_in (GetComments p t' l, r) = map fst (fetched_comments r)"
  by (simp_all add: fetched_in_def)

lemma counts_Cons [simp]:
  "likes_for cid (x # tr) = (if is_like_for cid x then 1 else 0) + likes_for cid tr"
  "replies_for cid (x # tr) = (if is_reply_for cid x then 1 else 0) + replies_for cid tr"
  "fetched_ids (x # tr) = fetched_in x @ fetched_ids tr"
  by (simp_all add: likes_for_def replies_for_def fetched_ids_def)

lemma string_ids_simps [simp]:
  "string_ids []"
  "string_ids (v # vs) \<longleftrightarrow> is_string v \<and> string_ids vs"
  "string_ids (us @ vs) \<longleftrightarrow> string_ids us \<and> string_ids vs"
  by (simp_all add: string_ids_def)

lemma unprocessed_simps [simp]:
  "unprocessed ids [] = []"
  "unprocessed ids (JStr s # vs) = (if s \<in> ids then [] else [s]) @ unprocessed ids vs"
  "unprocessed ids (us @ vs) = unprocessed ids us @ unprocessed ids vs"
  by (simp_all add: unprocessed_def)

lemma unprocessed_set: "s \<in> set (unprocessed ids vs) \<longleftrightarrow> JStr s \<in> set vs \<and> s \<notin> ids"
  by (induction vs) (auto simp: unprocessed_def split: json.splits)

lemma marked_simps [simp]:
  "marked f [] = f"
  "marked f (s # ss) = marked (append_text f (s @ [LF])) ss"
  "marked f (ss @ ts) = marked (marked f ss) ts"
  by (simp_all add: marked_def)

subsection \<open>Like and reply\<close>

lemma engagement_logged_store [simp]:
  "processed_file (fst (engagement_logged e fname done_msg cid res w)) = processed_file w"
  "posted_file (fst (engagement_logged e fname done_msg cid res w)) = posted_file w"
  "stats (fst (engagement_logged e fname done_msg cid res w)) = stats w"
  by (simp_all add: engagement_logged_def Let_def split_beta
      split: http_result.splits option.splits)

lemma engagement_logged_returns:
  assumes "encodable fname" "encodable done_msg" "encodable (py_str e cid)" "loggable e res"
  shows "snd (engagement_logged e fname done_msg cid res w) = None"
proof (cases res)
  case (Raised x)
  with assms show ?thesis by (simp add: engagement_logged_def loggable_def)
next
  case (Response r)
  with assms show ?thesis
    by (auto simp: engagement_logged_def Let_def split_beta dest: log_action_exn
        split: option.splits)
qed

lemma like_comment_store [simp]:
  "processed_file (fst (like_comment e cid w)) = processed_file w"
  "posted_file (fst (like_comment e cid w)) = posted_file w"
  "stats (fst (like_comment e cid w)) = stats w"
  by (simp_all add: like_comment_def split_beta)

lemma reply_to_comment_store [simp]:
  "processed_file (fst (reply_to_comment e cid t w)) = processed_file w"
  "posted_file (fst (reply_to_comment e cid t w)) = posted_file w"
  "stats (fst (reply_to_comment e cid t w)) = stats w"
  by (simp_all add: reply_to_comment_def split_beta)

lemma like_comment_returns:
  assumes "encodable (py_str e cid)"
    and "loggable e (remote e (exchanges w) (PostLike (py_str e cid) (FACEBOOK_PAGE_ACCESS_TOKEN e)))"
  shows "snd (like_comment e cid w) = None"
  using assms by (simp add: like_comment_def split_beta engagement_logged_returns)

lemma reply_to_comment_returns:
  assumes "encodable (py_str e cid)"
    and "loggable e (remote e (exchanges w)
           (PostReply (py_str e cid) (FACEBOOK_PAGE_ACCESS_TOKEN e) text))"
  shows "snd (reply_to_comment e cid text w) = None"
  using assms by (simp add: reply_to_comment_def split_beta engagement_logged_returns)

lemma save_processed_comment_fields [simp]:
  "exchanges (fst (save_processed_comment cid w)) = exchanges w"
  "posted_file (fst (save_processed_comment cid w)) = posted_file w"
  "stats (fst (save_processed_comment cid w)) = stats w"
  by (simp_all add: save_processed_comment_def split_beta split: json.splits)

lemma save_processed_comment_None:
  assumes "save_processed_comment cid w = (w', None)"
  shows "\<exists>s. cid = JStr s \<and> encodable s \<and>
             processed_file w' = append_text (processed_file w) (s @ [LF])"
  using assms
  by (cases cid) (auto simp: save_processed_comment_def write_text_def split: if_splits)

text \<open>The exchanges of one engagement: the like, then the reply.\<close>

lemma engagement_exchanges:
  "exchanges (fst (reply_to_comment e cid text (fst (like_comment e cid w)))) =
     exchanges w @
     [(PostLike (py_str e cid) (FACEBOOK_PAGE_ACCESS_TOKEN e),
       remote e (exchanges w) (PostLike (py_str e cid) (FACEBOOK_PAGE_ACCESS_TOKEN e))),
      (PostReply (py_str e cid) (FACEBOOK_PAGE_ACCESS_TOKEN e) text,
       remote e
         (exchanges w @
          [(PostLike (py_str e cid) (FACEBOOK_PAGE_ACCESS_TOKEN e),
            remote e (exchanges w) (PostLike (py_str e cid) (FACEBOOK_PAGE_ACCESS_TOKEN e)))])
         (PostReply (py_str e cid) (FACEBOOK_PAGE_ACCESS_TOKEN e) text))]"
  by (simp add: reply_to_comment_exchanges like_comment_exchanges)

subsection \<open>One comment\<close>

text \<open>
  A comment that passes the test, with a like and a reply that return: the body is the
  like, the reply and the marking.
\<close>

lemma process_comment_engaged:
  assumes "not_in_processed cid ids = Inr True"
    and "snd (like_comment e cid w) = None"
    and "snd (reply_to_comment e cid (reply_template e a t) (fst (like_comment e cid w))) = None"
  shows "process_comment e ids (cid, t, a) w =
         save_processed_comment cid
           (fst (reply_to_comment e cid (reply_template e a t) (fst (like_comment e cid w))))"
  using assms by (simp add: process_comment_def split_beta)

lemma process_comment_old:
  "s \<in> ids \<Longrightarrow> process_comment e ids (JStr s, t, a) w = (w, None)"
  by (simp add: process_comment_def not_in_processed_def)

text \<open>What a pass of the loop body that returns has done.\<close>

lemma process_comment_done:
  assumes "process_comment e ids c w = (w', None)"
  shows "exchanges w' = exchanges w @ new_exchanges w w' \<and>
         fetched_ids (new_exchanges w w') = [] \<and> is_string (fst c) \<and>
         likes_for cid (new_exchanges w w') = (if fst c = JStr cid \<and> cid \<notin> ids then 1 else 0) \<and>
         replies_for cid (new_exchanges w w') = (if fst c = JStr cid \<and> cid \<notin> ids then 1 else 0) \<and>
         processed_file w' = marked (processed_file w) (unprocessed ids [fst c]) \<and>
         posted_file w' = posted_file w"
proof -
  obtain c_id ctext cauthor where c: "c = (c_id, ctext, cauthor)" by (cases c) auto
  show ?thesis
  proof (cases "not_in_processed c_id ids")
    case (Inl y)
    with assms c show ?thesis by (simp add: process_comment_def)
  next
    case (Inr b)
    show ?thesis
    proof (cases b)
      case False
      with Inr assms c have w: "w' = w" by (simp add: process_comment_def)
      from Inr False obtain s where "c_id = JStr s" "s \<in> ids"
        by (auto simp: not_in_processed_def split: json.splits)
      with w c show ?thesis by (auto simp: is_string_def)
    next
      case True
      let ?text = "reply_template e cauthor ctext"
      let ?l = "like_comment e c_id w"
      let ?r = "reply_to_comment e c_id ?text (fst ?l)"
      from Inr True assms c have l: "snd ?l = None"
        by (simp add: process_comment_def split_beta split: option.splits)
      from Inr True assms c l have r: "snd ?r = None"
        by (simp add: process_comment_def split_beta split: option.splits)
      from Inr True assms c l r have p: "save_processed_comment c_id (fst ?r) = (w', None)"
        by (simp add: process_comment_def split_beta)
      from save_processed_comment_None [OF p] obtain s where
        s: "c_id = JStr s" "encodable s"
           "processed_file w' = append_text (processed_file (fst ?r)) (s @ [LF])"
        by blast
      from Inr True s(1) have ni: "s \<notin> ids" by (simp add: not_in_processed_def)
      from p have "exchanges w' = exchanges (fst ?r)"
        by (metis fst_conv save_processed_comment_fields(1))
      moreover define ext where "ext =
         [(PostLike s (FACEBOOK_PAGE_ACCESS_TOKEN e),
           remote e (exchanges w) (PostLike s (FACEBOOK_PAGE_ACCESS_TOKEN e))),
          (PostReply s (FACEBOOK_PAGE_ACCESS_TOKEN e) ?text,
           remote e
             (exchanges w @
              [(PostLike s (FACEBOOK_PAGE_ACCESS_TOKEN e),
                remote e (exchanges w) (PostLike s (FACEBOOK_PAGE_ACCESS_TOKEN e)))])
             (PostReply s (FACEBOOK_PAGE_ACCESS_TOKEN e) ?text))]"
      ultimately have ex: "exchanges w' = exchanges w @ ext"
        using s(1) by (simp add: engagement_exchanges py_str_def)
      then have n: "new_exchanges w w' = ext" by (rule new_exchanges_append)
      from p have po: "posted_file w' = posted_file w"
        by (metis fst_conv save_processed_comment_fields(2) reply_to_comment_store(2)
            like_comment_store(2))
      have pf: "processed_file w' = marked (processed_file w) (unprocessed ids [c_id])"
        using s ni by simp
      show ?thesis
        unfolding n using ex pf po c s(1) ni by (auto simp: ext_def is_string_def)
    qed
  qed
qed

lemma process_comments_done:
  "process_comments e ids cs w = (w', None) \<Longrightarrow>
     exchanges w' = exchanges w @ new_exchanges w w' \<and>
     fetched_ids (new_exchanges w w') = [] \<and> string_ids (map fst cs) \<and>
     likes_for cid (new_exchanges w w') =
       (if cid \<in> ids then 0 else count_list (map fst cs) (JStr cid)) \<and>
     replies_for cid (new_exchanges w w') =
       (if cid \<in> ids then 0 else count_list (map fst cs) (JStr cid)) \<and>
     processed_file w' = marked (processed_file w) (unprocessed ids (map fst cs)) \<and>
     posted_file w' = posted_file w"
proof (induction cs arbitrary: w)
  case Nil
  then show ?case by simp
next
  case (Cons c cs)
  obtain w1 x1 where p: "process_comment e ids c w = (w1, x1)" by (cases "process_comment e ids c w")
  with Cons.prems have x1: "x1 = None" by (cases x1) simp_all
  with p Cons.prems have r: "process_comments e ids cs w1 = (w', None)" by simp
  note d1 = process_comment_done [OF p [unfolded x1], of cid]
  note d2 = Cons.IH [OF r]
  from d1 d2 have n: "new_exchanges w w' = new_exchanges w w1 @ new_exchanges w1 w'"
    by (intro new_exchanges_trans) blast+
  have ex: "exchanges w' = exchanges w @ new_exchanges w w'"
    unfolding n using d1 d2 by simp
  have pf: "processed_file w' = marked (processed_file w) (unprocessed ids (map fst (c # cs)))"
  proof -
    have "unprocessed ids (map fst (c # cs)) =
          unprocessed ids [fst c] @ unprocessed ids (map fst cs)"
      using unprocessed_simps(3) [of ids "[fst c]" "map fst cs"] by simp
    with d1 d2 show ?thesis by (simp only: marked_simps(3))
  qed
  show ?case
    unfolding n using ex [unfolded n] pf d1 d2 by auto
qed

subsection \<open>One post\<close>

lemma get_post_insights_exchanges:
  "\<exists>ext. exchanges (fst (snd (get_post_insights e p w))) = exchanges w @ ext \<and>
         fetched_ids ext = [] \<and> likes_for cid ext = 0 \<and> replies_for cid ext = 0"
proof (cases "truthy (FACEBOOK_PAGE_ACCESS_TOKEN e)")
  case False
  then show ?thesis by (simp add: get_post_insights_def)
next
  case True
  then show ?thesis
    by (simp add: get_post_insights_def Let_def split_beta insight_query_exchanges
        split: option.splits)
qed

lemma get_post_insights_store [simp]:
  "processed_file (fst (snd (get_post_insights e p w))) = processed_file w"
  "posted_file (fst (snd (get_post_insights e p w))) = posted_file w"
  "stats (fst (snd (get_post_insights e p w))) = stats w"
  by (simp_all add: get_post_insights_def Let_def split_beta insight_query_store
      split: option.splits)

lemma get_post_comments_result:
  "fst (get_post_comments e p limit w) =
     fetched_comments (remote e (exchanges w) (GetComments p (FACEBOOK_PAGE_ACCESS_TOKEN e) limit))"
  by (simp add: get_post_comments_def fetched_comments_def split_beta Let_def
      split: http_result.splits sum.splits option.splits)

lemma get_post_comments_store [simp]:
  "processed_file (fst (snd (get_post_comments e p limit w))) = processed_file w"
  "posted_file (fst (snd (get_post_comments e p limit w))) = posted_file w"
  "stats (fst (snd (get_post_comments e p limit w))) = stats w"
  by (simp_all add: get_post_comments_def split_beta Let_def
      split: http_result.splits sum.splits option.splits)

text \<open>The stages of the work on one post, when it returns.\<close>

lemma process_post_stages:
  assumes "process_post e ids p w = (w', None)"
  shows "snd (snd (get_post_insights e p w)) = None \<and>
         snd (update_post_stats e (JStr p) (fst (fst (get_post_insights e p w)))
                (fst (snd (fst (get_post_insights e p w))))
                (snd (snd (fst (get_post_insights e p w)))) None
                (fst (snd (get_post_insights e p w)))) = None \<and>
         snd (snd (get_post_comments e p 50
                (fst (update_post_stats e (JStr p) (fst (fst (get_post_insights e p w)))
                   (fst (snd (fst (get_post_insights e p w))))
                   (snd (snd (fst (get_post_insights e p w)))) None
                   (fst (snd (get_post_insights e p w))))))) = None \<and>
         process_comments e ids
           (fst (get_post_comments e p 50
                (fst (update_post_stats e (JStr p) (fst (fst (get_post_insights e p w)))
                   (fst (snd (fst (get_post_insights e p w))))
                   (snd (snd (fst (get_post_insights e p w)))) None
                   (fst (snd (get_post_insights e p w)))))))
           (fst (snd (get_post_comments e p 50
                (fst (update_post_stats e (JStr p) (fst (fst (get_post_insights e p w)))
                   (fst (snd (fst (get_post_insights e p w))))
                   (snd (snd (fst (get_post_insights e p w)))) None
                   (fst (snd (get_post_insights e p w)))))))) = (w', None)"
  using assms by (simp add: process_post_def split_beta split: option.splits)

lemma process_post_done:
  assumes "process_post e ids p w = (w', None)"
  shows "exchanges w' = exchanges w @ new_exchanges w w' \<and>
         string_ids (fetched_ids (new_exchanges w w')) \<and>
         likes_for cid (new_exchanges w w') =
           (if cid \<in> ids then 0 else count_list (fetched_ids (new_exchanges w w')) (JStr cid)) \<and>
         replies_for cid (new_exchanges w w') =
           (if cid \<in> ids then 0 else count_list (fetched_ids (new_exchanges w w')) (JStr cid)) \<and>
         processed_file w' =
           marked (processed_file w) (unprocessed ids (fetched_ids (new_exchanges w w'))) \<and>
         posted_file w' = posted_file w"
proof -
  let ?g = "get_post_insights e p w"
  let ?u = "update_post_stats e (JStr p) (fst (fst ?g)) (fst (snd (fst ?g)))
              (snd (snd (fst ?g))) None (fst (snd ?g))"
  let ?req = "GetComments p (FACEBOOK_PAGE_ACCESS_TOKEN e) 50"
  let ?c = "get_post_comments e p 50 (fst ?u)"
  from process_post_stages [OF assms]
  have pc: "process_comments e ids (fst ?c) (fst (snd ?c)) = (w', None)" by blast
  from get_post_insights_exchanges [of e p w cid] obtain ext1 where
    e1: "exchanges (fst (snd ?g)) = exchanges w @ ext1" "fetched_ids ext1 = []"
        "likes_for cid ext1 = 0" "replies_for cid ext1 = 0"
    by blast
  have e2: "exchanges (fst (snd ?c)) =
            exchanges w @ ext1 @ [(?req, remote e (exchanges w @ ext1) ?req)]"
    using e1(1) by (simp add: get_post_comments_exchanges)
  have cl: "fst ?c = fetched_comments (remote e (exchanges w @ ext1) ?req)"
    using e1(1) by (simp add: get_post_comments_result)
  note d = process_comments_done [OF pc, of cid]
  define ext3 where "ext3 = new_exchanges (fst (snd ?c)) w'"
  define ext where "ext = ext1 @ [(?req, remote e (exchanges w @ ext1) ?req)] @ ext3"
  have ex: "exchanges w' = exchanges w @ ext"
    using e2 d by (simp add: ext_def ext3_def)
  then have n: "new_exchanges w w' = ext" by (rule new_exchanges_append)
  have f: "fetched_ids ext = map fst (fst ?c)"
    using e1(2) d cl by (simp add: ext_def ext3_def)
  have k: "likes_for cid ext = likes_for cid ext3" "replies_for cid ext = replies_for cid ext3"
    using e1 by (simp_all add: ext_def)
  have pf: "processed_file (fst (snd ?c)) = processed_file w"
    and po: "posted_file (fst (snd ?c)) = posted_file w"
    by simp_all
  show ?thesis
    unfolding n using ex f k d pf po by (simp add: ext3_def)
qed

lemma process_posts_done:
  "process_posts e ids ps w = (w', None) \<Longrightarrow>
     exchanges w' = exchanges w @ new_exchanges w w' \<and>
     string_ids (fetched_ids (new_exchanges w w')) \<and>
     likes_for cid (new_exchanges w w') =
       (if cid \<in> ids then 0 else count_list (fetched_ids (new_exchanges w w')) (JStr cid)) \<and>
     replies_for cid (new_exchanges w w') =
       (if cid \<in> ids then 0 else count_list (fetched_ids (new_exchanges w w')) (JStr cid)) \<and>
     processed_file w' =
       marked (processed_file w) (unprocessed ids (fetched_ids (new_exchanges w w'))) \<and>
     posted_file w' = posted_file w"
proof (induction ps arbitrary: w)
  case Nil
  then show ?case by simp
next
  case (Cons p ps)
  obtain w1 x1 where p: "process_post e ids p w = (w1, x1)" by (cases "process_post e ids p w")
  with Cons.prems have x1: "x1 = None" by (cases x1) simp_all
  with p Cons.prems have r: "process_posts e ids ps w1 = (w', None)" by simp
  note d1 = process_post_done [OF p [unfolded x1], of cid]
  note d2 = Cons.IH [OF r]
  from d1 d2 have n: "new_exchanges w w' = new_exchanges w w1 @ new_exchanges w1 w'"
    by (intro new_exchanges_trans) blast+
  have ex: "exchanges w' = exchanges w @ (new_exchanges w w1 @ new_exchanges w1 w')"
    using d1 d2 by simp
  have pf: "processed_file w' =
      marked (processed_file w)
        (unprocessed ids (fetched_ids (new_exchanges w w1 @ new_exchanges w1 w')))"
    using d1 d2 by (simp only: fetched_ids_append unprocessed_simps(3) marked_simps(3))
  show ?case
    unfolding n using ex pf d1 d2 by auto
qed

subsection \<open>One cycle, and several\<close>

lemma monitor_cycle_done:
  assumes "monitor_cycle e w = (w', None)"
  shows "exchanges w' = exchanges w @ new_exchanges w w'"
    and "string_ids (fetched_ids (new_exchanges w w'))"
    and "likes_for cid (new_exchanges w w') =
           (if cid \<in> load_processed_comments w then 0
            else count_list (fetched_ids (new_exchanges w w')) (JStr cid))"
    and "replies_for cid (new_exchanges w w') =
           (if cid \<in> load_processed_comments w then 0
            else count_list (fetched_ids (new_exchanges w w')) (JStr cid))"
    and "processed_file w' =
           marked (processed_file w)
             (unprocessed (load_processed_comments w) (fetched_ids (new_exchanges w w')))"
    and "posted_file w' = posted_file w"
proof -
  from assms have p: "process_posts e (load_processed_comments w) (load_posted_posts w) w =
     (w', None)" by (simp add: monitor_cycle_def Let_def)
  note d = process_posts_done [OF p, of cid]
  from d show "exchanges w' = exchanges w @ new_exchanges w w'" by blast
  from d show "string_ids (fetched_ids (new_exchanges w w'))" by blast
  from d show "likes_for cid (new_exchanges w w') =
           (if cid \<in> load_processed_comments w then 0
            else count_list (fetched_ids (new_exchanges w w')) (JStr cid))" by blast
  from d show "replies_for cid (new_exchanges w w') =
           (if cid \<in> load_processed_comments w then 0
            else count_list (fetched_ids (new_exchanges w w')) (JStr cid))" by blast
  from d show "processed_file w' =
           marked (processed_file w)
             (unprocessed (load_processed_comments w) (fetched_ids (new_exchanges w w')))"
    by blast
  from d show "posted_file w' = posted_file w" by blast
qed

lemma monitor_posts_loop_step:
  "snd (monitor_cycle e w) = None \<Longrightarrow>
     monitor_posts_loop (Suc n) e w = monitor_posts_loop n e (fst (monitor_cycle e w))"
  by (cases "monitor_cycle e w") simp

lemma monitor_posts_loop_first:
  "snd (monitor_posts_loop (Suc n) e w) = None \<Longrightarrow> snd (monitor_cycle e w) = None"
  by (cases "monitor_cycle e w"; cases "snd (monitor_cycle e w)") auto

subsection \<open>The file of processed comments after the markings\<close>

lemma load_processed_cong:
  "processed_file w' = processed_file w \<Longrightarrow> load_processed_comments w' = load_processed_comments w"
  by (simp add: load_processed_comments_def)

lemma marked_loaded:
  "terminated (processed_file w) \<Longrightarrow> processed_file w' = marked (processed_file w) ss \<Longrightarrow>
     terminated (processed_file w') \<and>
     load_processed_comments w \<subseteq> load_processed_comments w' \<and>
     (\<forall>s \<in> set ss. clean_id s \<longrightarrow> s \<in> load_processed_comments w')"
proof (induction ss arbitrary: w)
  case Nil
  then have "load_processed_comments w' = load_processed_comments w"
    by (intro load_processed_cong) simp
  with Nil show ?case by simp
next
  case (Cons s ss)
  let ?w1 = "w\<lparr>processed_file := append_text (processed_file w) (s @ [LF])\<rparr>"
  have t1: "terminated (processed_file ?w1)" by (simp add: terminated_append)
  from Cons.prems(2) have p1: "processed_file w' = marked (processed_file ?w1) ss" by simp
  note ih = Cons.IH [OF t1 p1]
  have l1: "load_processed_comments ?w1 =
            load_processed_comments w \<union> {y \<in> py_strip ` set (text_lines (s @ [LF])). y \<noteq> []}"
    using Cons.prems(1) by (rule load_processed_append)
  have "s \<in> load_processed_comments ?w1" if "clean_id s"
  proof -
    from that have "text_lines (s @ [LF]) = [s @ [LF]]" "py_strip (s @ [LF]) = s" "s \<noteq> []"
      by (simp_all add: clean_id_def text_lines_clean py_strip_line)
    with l1 show ?thesis by simp
  qed
  with ih l1 show ?case by auto
qed

subsection \<open>Evaluating the loop body\<close>

lemma process_comments_Cons_if:
  "process_comments e ids (c # cs) w =
     (if snd (process_comment e ids c w) = None
      then process_comments e ids cs (fst (process_comment e ids c w))
      else process_comment e ids c w)"
  by (cases "process_comment e ids c w"; cases "snd (process_comment e ids c w)") auto

lemma process_posts_Cons_if:
  "process_posts e ids (p # ps) w =
     (if snd (process_post e ids p w) = None
      then process_posts e ids ps (fst (process_post e ids p w))
      else process_post e ids p w)"
  by (cases "process_post e ids p w"; cases "snd (process_post e ids p w)") auto

declare process_comments.simps(2) [simp del] process_posts.simps(2) [simp del]

lemma process_posts_single: "process_posts e ids [p] w = process_post e ids p w"
  by (simp add: process_posts_Cons_if prod_eq_iff)

lemma loggable_Raised [simp]: "loggable e (Raised (RequestException m)) \<longleftrightarrow> encodable m"
  by (simp add: loggable_def)

text \<open>
  A comment with a new string id, when the id and the error texts of the two answers can
  be encoded: like, reply, marking, and no exception, whatever the two answers are.
\<close>

lemma process_comment_new:
  assumes "s \<notin> ids" and "encodable s"
    and "loggable e (remote e (exchanges w) (PostLike s (FACEBOOK_PAGE_ACCESS_TOKEN e)))"
    and "loggable e
           (remote e
              (exchanges w @
               [(PostLike s (FACEBOOK_PAGE_ACCESS_TOKEN e),
                 remote e (exchanges w) (PostLike s (FACEBOOK_PAGE_ACCESS_TOKEN e)))])
              (PostReply s (FACEBOOK_PAGE_ACCESS_TOKEN e) (reply_template e a t)))"
  shows "snd (process_comment e ids (JStr s, t, a) w) = None"
    and "exchanges (fst (process_comment e ids (JStr s, t, a) w)) =
           exchanges w @
           [(PostLike s (FACEBOOK_PAGE_ACCESS_TOKEN e),
             remote e (exchanges w) (PostLike s (FACEBOOK_PAGE_ACCESS_TOKEN e))),
            (PostReply s (FACEBOOK_PAGE_ACCESS_TOKEN e) (reply_template e a t),
             remote e
               (exchanges w @
                [(PostLike s (FACEBOOK_PAGE_ACCESS_TOKEN e),
                  remote e (exchanges w) (PostLike s (FACEBOOK_PAGE_ACCESS_TOKEN e)))])
               (PostReply s (FACEBOOK_PAGE_ACCESS_TOKEN e) (reply_template e a t)))]"
    and "processed_file (fst (process_comment e ids (JStr s, t, a) w)) =
           append_text (processed_file w) (s @ [LF])"
    and "posted_file (fst (process_comment e ids (JStr s, t, a) w)) = posted_file w"
    and "stats (fst (process_comment e ids (JStr s, t, a) w)) = stats w"
proof -
  let ?l = "like_comment e (JStr s) w"
  let ?r = "reply_to_comment e (JStr s) (reply_template e a t) (fst ?l)"
  have n: "not_in_processed (JStr s) ids = Inr True"
    using assms(1) by (simp add: not_in_processed_def)
  have ps: "py_str e (JStr s) = s" by (simp add: py_str_def)
  have l: "snd ?l = None"
    using assms(2,3) by (intro like_comment_returns) (simp_all add: ps)
  have r: "snd ?r = None"
    using assms(2,4) by (intro reply_to_comment_returns) (simp_all add: ps like_comment_exchanges)
  note p = process_comment_engaged [OF n l r]
  show "snd (process_comment e ids (JStr s, t, a) w) = None"
    using assms(2) by (simp add: p save_processed_comment_def)
  show "exchanges (fst (process_comment e ids (JStr s, t, a) w)) =
           exchanges w @
           [(PostLike s (FACEBOOK_PAGE_ACCESS_TOKEN e),
             remote e (exchanges w) (PostLike s (FACEBOOK_PAGE_ACCESS_TOKEN e))),
            (PostReply s (FACEBOOK_PAGE_ACCESS_TOKEN e) (reply_template e a t),
             remote e
               (exchanges w @
                [(PostLike s (FACEBOOK_PAGE_ACCESS_TOKEN e),
                  remote e (exchanges w) (PostLike s (FACEBOOK_PAGE_ACCESS_TOKEN e)))])
               (PostReply s (FACEBOOK_PAGE_ACCESS_TOKEN e) (reply_template e a t)))]"
    using engagement_exchanges [of e "JStr s" "reply_template e a t" w] by (simp add: p ps)
  show "processed_file (fst (process_comment e ids (JStr s, t, a) w)) =
           append_text (processed_file w) (s @ [LF])"
    using assms(2) by (simp add: p save_processed_comment_def)
  show "posted_file (fst (process_comment e ids (JStr s, t, a) w)) = posted_file w"
    by (simp add: p)
  show "stats (fst (process_comment e ids (JStr s, t, a) w)) = stats w"
    by (simp add: p)
qed

text \<open>
  A comment whose id is not a string (and not a list or dictionary): like and reply are
  sent to the URL that \<^verbatim>\<open>str()\<close> of the id gives, then the marking raises.
\<close>

lemma process_comment_unmarked:
  assumes "not_in_processed v ids = Inr True" and "\<forall>s. v \<noteq> JStr s"
    and "encodable (py_str e v)"
    and "loggable e (remote e (exchanges w) (PostLike (py_str e v) (FACEBOOK_PAGE_ACCESS_TOKEN e)))"
    and "loggable e
           (remote e
              (exchanges w @
               [(PostLike (py_str e v) (FACEBOOK_PAGE_ACCESS_TOKEN e),
                 remote e (exchanges w) (PostLike (py_str e v) (FACEBOOK_PAGE_ACCESS_TOKEN e)))])
              (PostReply (py_str e v) (FACEBOOK_PAGE_ACCESS_TOKEN e) (reply_template e a t)))"
  shows "snd (process_comment e ids (v, t, a) w) = Some (TypeError_concat v)"
    and "exchanges (fst (process_comment e ids (v, t, a) w)) =
           exchanges w @
           [(PostLike (py_str e v) (FACEBOOK_PAGE_ACCESS_TOKEN e),
             remote e (exchanges w) (PostLike (py_str e v) (FACEBOOK_PAGE_ACCESS_TOKEN e))),
            (PostReply (py_str e v) (FACEBOOK_PAGE_ACCESS_TOKEN e) (reply_template e a t),
             remote e
               (exchanges w @
                [(PostLike (py_str e v) (FACEBOOK_PAGE_ACCESS_TOKEN e),
                  remote e (exchanges w)
                    (PostLike (py_str e v) (FACEBOOK_PAGE_ACCESS_TOKEN e)))])
               (PostReply (py_str e v) (FACEBOOK_PAGE_ACCESS_TOKEN e) (reply_template e a t)))]"
    and "processed_file (fst (process_comment e ids (v, t, a) w)) =
           append_text (processed_file w) []"
proof -
  let ?l = "like_comment e v w"
  let ?r = "reply_to_comment e v (reply_template e a t) (fst ?l)"
  have l: "snd ?l = None"
    using assms(3,4) by (intro like_comment_returns) simp_all
  have r: "snd ?r = None"
    using assms(3,5) by (intro reply_to_comment_returns) (simp_all add: like_comment_exchanges)
  note p = process_comment_engaged [OF assms(1) l r]
  have sv: "save_processed_comment v w' =
            (w'\<lparr>processed_file := append_text (processed_file w') []\<rparr>, Some (TypeError_concat v))"
    for w'
    using assms(2) by (cases v) (simp_all add: save_processed_comment_def)
  show "snd (process_comment e ids (v, t, a) w) = Some (TypeError_concat v)"
    by (simp add: p sv)
  show "exchanges (fst (process_comment e ids (v, t, a) w)) =
           exchanges w @
           [(PostLike (py_str e v) (FACEBOOK_PAGE_ACCESS_TOKEN e),
             remote e (exchanges w) (PostLike (py_str e v) (FACEBOOK_PAGE_ACCESS_TOKEN e))),
            (PostReply (py_str e v) (FACEBOOK_PAGE_ACCESS_TOKEN e) (reply_template e a t),
             remote e
               (exchanges w @
                [(PostLike (py_str e v) (FACEBOOK_PAGE_ACCESS_TOKEN e),
                  remote e (exchanges w)
                    (PostLike (py_str e v) (FACEBOOK_PAGE_ACCESS_TOKEN e)))])
               (PostReply (py_str e v) (FACEBOOK_PAGE_ACCESS_TOKEN e) (reply_template e a t)))]"
    using engagement_exchanges [of e v "reply_template e a t" w] by (simp add: p sv)
  show "processed_file (fst (process_comment e ids (v, t, a) w)) =
           append_text (processed_file w) []"
    by (simp add: p sv)
qed

subsection \<open>Evaluating the work on a post\<close>

lemma update_post_stats_kept:
  assumes "stats w \<noteq> None" "kept_string p" "kept_value l" "kept_value c" "kept_value s"
  shows "snd (update_post_stats e (JStr p) l c s None w) = None"
    and "stats (fst (update_post_stats e (JStr p) l c s None w)) \<noteq> None"
proof -
  from assms(1) obtain rows where rows: "stats w = Some rows" by auto
  have k: "kept_content None" by (simp add: kept_content_def)
  have "snd (update_post_stats e (JStr p) l c s None w) = None \<and>
        stats (fst (update_post_stats e (JStr p) l c s None w)) \<noteq> None"
  proof (cases "find_row rows (JStr p)")
    case None
    from update_post_stats_new [OF rows None assms(2) k assms(3-5), of e]
    show ?thesis by simp
  next
    case (Some i)
    from update_post_stats_found [OF rows Some assms(3-5), of e None]
    show ?thesis by simp
  qed
  then show "snd (update_post_stats e (JStr p) l c s None w) = None"
    and "stats (fst (update_post_stats e (JStr p) l c s None w)) \<noteq> None"
    by simp_all
qed

lemma get_post_insights_returns:
  assumes "encodable p" and "\<And>h req. loggable e (remote e h req)"
  shows "snd (snd (get_post_insights e p w)) = None"
  using assms
  by (simp add: get_post_insights_def Let_def split_beta insight_query_returns
      split: option.splits)

lemma get_post_insights_zero:
  assumes "encodable p" and "\<And>h req. loggable e (remote e h req)"
    and "\<And>h t. query_failed (remote e h (GetLikes p t))"
    and "\<And>h t. query_failed (remote e h (GetCommentsSummary p t))"
    and "\<And>h t. query_failed (remote e h (GetShares p t))"
  shows "fst (get_post_insights e p w) = (JInt 0, JInt 0, JInt 0)"
  using assms
  by (simp add: get_post_insights_def Let_def split_beta insight_query_returns
      insight_query_failed split: option.splits)

lemma fetched_state_fields [simp]:
  "processed_file (fetched_state e p w) = processed_file w"
  "posted_file (fetched_state e p w) = posted_file w"
  by (simp_all add: fetched_state_def split_beta)

lemma fetched_state_exchanges:
  "\<exists>ext. exchanges (fetched_state e p w) =
           exchanges w @ ext @
           [(GetComments p (FACEBOOK_PAGE_ACCESS_TOKEN e) 50,
             remote e (exchanges w @ ext) (GetComments p (FACEBOOK_PAGE_ACCESS_TOKEN e) 50))] \<and>
         fetched_ids ext = [] \<and> likes_for cid ext = 0 \<and> replies_for cid ext = 0"
proof -
  from get_post_insights_exchanges [of e p w cid] obtain ext where
    e1: "exchanges (fst (snd (get_post_insights e p w))) = exchanges w @ ext"
      "fetched_ids ext = []" "likes_for cid ext = 0" "replies_for cid ext = 0"
    by blast
  then show ?thesis
    by (intro exI [of _ ext]) (simp add: fetched_state_def split_beta get_post_comments_exchanges)
qed

text \<open>
  The work on a post when the three stages before the comments return: the loop over
  the comments that the fetch gave.
\<close>

lemma process_post_eval:
  assumes "snd (snd (get_post_insights e p w)) = None"
    and "fst (get_post_insights e p w) = (l, c, s)"
    and "snd (update_post_stats e (JStr p) l c s None (fst (snd (get_post_insights e p w)))) =
         None"
    and "\<And>w'. snd (snd (get_post_comments e p 50 w')) = None"
    and "\<And>h. fetched_comments (remote e h (GetComments p (FACEBOOK_PAGE_ACCESS_TOKEN e) 50)) = ts"
  shows "process_post e ids p w = process_comments e ids ts (fetched_state e p w)"
  using assms
  by (simp add: process_post_def fetched_state_def split_beta get_post_comments_result)

subsection \<open>A remote side that only answers the comment fetch\<close>

lemma comments_env_simps [simp]:
  "FACEBOOK_PAGE_ACCESS_TOKEN (comments_env cs) = Some [84]"
  "remote (comments_env cs) h (GetComments p t l) =
     Response \<lparr>status_code = 200, resp_text = [],
       resp_json = Inr (JDict [(ascii ''data'', JList cs)])\<rparr>"
  "remote (comments_env cs) h (GetLikes p t') = Raised (RequestException [120])"
  "remote (comments_env cs) h (GetCommentsSummary p t') = Raised (RequestException [120])"
  "remote (comments_env cs) h (GetShares p t') = Raised (RequestException [120])"
  "remote (comments_env cs) h (PostLike c t) = Raised (RequestException [120])"
  "remote (comments_env cs) h (PostReply c t m) = Raised (RequestException [120])"
  "py_str (comments_env cs) JNull = ascii ''None''"
  by (simp_all add: comments_env_def base_env_def py_str_def)

lemma comments_env_loggable [simp]:
  "loggable (comments_env cs) (remote (comments_env cs) h req)"
  by (cases req) (simp_all add: loggable_def comments_env_def base_env_def)

lemma comments_env_fetched:
  "comment_tuples cs [] = Inr ts \<Longrightarrow>
     fetched_comments (remote (comments_env cs) h (GetComments p t l)) = ts"
  by (simp add: fetched_comments_def parse_comments_def response_json_def dict_get_def
      py_iter_def)

lemma comments_env_comments_return:
  "comment_tuples cs [] = Inr ts \<Longrightarrow>
     snd (snd (get_post_comments (comments_env cs) p 50 w)) = None"
  by (simp add: get_post_comments_def split_beta parse_comments_def response_json_def
      dict_get_def py_iter_def)

lemma process_comment_stats:
  "stats (fst (process_comment e ids c w)) = stats w"
  by (cases c) (simp add: process_comment_def split_beta split: sum.splits bool.splits
      option.splits)

lemma process_comments_stats:
  "stats (fst (process_comments e ids cs w)) = stats w"
proof (induction cs arbitrary: w)
  case Nil
  then show ?case by simp
next
  case (Cons c cs)
  show ?case
    using Cons.IH [of "fst (process_comment e ids c w)"] process_comment_stats [of e ids c w]
    by (simp add: process_comments_Cons_if)
qed

text \<open>A cycle over one post, for that remote side.\<close>

lemma comments_env_cycle:
  assumes "load_posted_posts w = [p]" and "kept_string p" and "encodable p"
    and "stats w \<noteq> None" and "comment_tuples cs [] = Inr ts"
  shows "monitor_cycle (comments_env cs) w =
           process_comments (comments_env cs) (load_processed_comments w) ts
             (fetched_state (comments_env cs) p w)"
    and "stats (fst (monitor_cycle (comments_env cs) w)) \<noteq> None"
proof -
  let ?e = "comments_env cs"
  have r: "snd (snd (get_post_insights ?e p w)) = None"
    using assms(3) by (intro get_post_insights_returns) simp_all
  have z: "fst (get_post_insights ?e p w) = (JInt 0, JInt 0, JInt 0)"
    using assms(3) by (intro get_post_insights_zero) (simp_all add: query_failed_def)
  have kz: "kept_value (JInt 0)" by (simp add: kept_value_def)
  have st: "stats (fst (snd (get_post_insights ?e p w))) \<noteq> None" using assms(4) by simp
  note u = update_post_stats_kept [OF st assms(2) kz kz kz, of ?e]
  have pp: "process_post ?e ids p w = process_comments ?e ids ts (fetched_state ?e p w)" for ids
    using r z u(1) comments_env_comments_return [OF assms(5)] comments_env_fetched [OF assms(5)]
    by (intro process_post_eval) simp_all
  show m: "monitor_cycle ?e w =
           process_comments ?e (load_processed_comments w) ts (fetched_state ?e p w)"
    by (simp add: monitor_cycle_def Let_def assms(1) process_posts_single pp)
  have "stats (fetched_state ?e p w) \<noteq> None"
    using u(2) z by (simp add: fetched_state_def split_beta)
  then show "stats (fst (monitor_cycle ?e w)) \<noteq> None"
    by (simp add: m process_comments_stats)
qed

lemma comments_env_fetched_state:
  assumes "comment_tuples cs [] = Inr ts"
  shows "\<exists>ext. exchanges (fetched_state (comments_env cs) p w) = exchanges w @ ext \<and>
           fetched_ids ext = map fst ts \<and> likes_for cid ext = 0 \<and> replies_for cid ext = 0"
proof -
  let ?e = "comments_env cs"
  let ?req = "GetComments p (FACEBOOK_PAGE_ACCESS_TOKEN ?e) 50"
  from fetched_state_exchanges [of ?e p w cid] obtain ext where
    e: "exchanges (fetched_state ?e p w) =
          exchanges w @ ext @ [(?req, remote ?e (exchanges w @ ext) ?req)]"
       "fetched_ids ext = []" "likes_for cid ext = 0" "replies_for cid ext = 0"
    by blast
  have "fetched_ids (ext @ [(?req, remote ?e (exchanges w @ ext) ?req)]) = map fst ts"
    using e(2) comments_env_fetched [OF assms] by simp
  moreover have "likes_for cid (ext @ [(?req, remote ?e (exchanges w @ ext) ?req)]) = 0"
    "replies_for cid (ext @ [(?req, remote ?e (exchanges w @ ext) ?req)]) = 0"
    using e(3,4) by simp_all
  ultimately show ?thesis using e(1) by (intro exI [of _ "ext @ [(?req, _)]"]) simp
qed

lemma example_comment_tuple:
  "comment_tuple example_comment = Inr (JStr example_id, JStr [104, 105], JStr [65, 110, 110])"
  by (simp add: comment_tuple_def example_comment_def dict_get_def ascii_def)

lemma no_id_comment_tuple:
  "comment_tuple no_id_comment = Inr (JNull, JStr [104, 105], JStr [65, 110, 110])"
  by (simp add: comment_tuple_def no_id_comment_def dict_get_def ascii_def)

lemma empty_id_comment_tuple:
  "comment_tuple empty_id_comment = Inr (JStr [], JStr [104, 105], JStr [65, 110, 110])"
  by (simp add: comment_tuple_def empty_id_comment_def dict_get_def ascii_def)

lemma one_post_world_facts:
  "load_posted_posts one_post_world = [example_id]"
  "load_processed_comments one_post_world = {}"
  "stats one_post_world \<noteq> None"
  "terminated (processed_file one_post_world)"
  "exchanges one_post_world = []"
  "processed_file one_post_world = None"
  by (simp_all add: one_post_world_def fresh_world_def example_id_def load_posted_posts_def
      load_processed_comments_def terminated_def text_lines_def py_strip_def py_isspace_def)

text \<open>A cycle over one post that fetches one comment with a new string id.\<close>

lemma single_comment_cycle:
  assumes "load_posted_posts w = [p]" and "kept_string p" and "encodable p"
    and "stats w \<noteq> None" and "comment_tuple c = Inr (JStr s, t, a)"
    and "s \<notin> load_processed_comments w" and "encodable s"
  shows "snd (monitor_cycle (comments_env [c]) w) = None"
    and "fetched_ids (new_exchanges w (fst (monitor_cycle (comments_env [c]) w))) = [JStr s]"
    and "stats (fst (monitor_cycle (comments_env [c]) w)) \<noteq> None"
proof -
  let ?e = "comments_env [c]"
  let ?W = "fetched_state ?e p w"
  let ?P = "process_comment ?e (load_processed_comments w) (JStr s, t, a) ?W"
  have ts: "comment_tuples [c] [] = Inr [(JStr s, t, a)]" using assms(5) by simp
  note cy = comments_env_cycle [OF assms(1-4) ts]
  note pn = process_comment_new [of s "load_processed_comments w" ?e ?W a t, OF assms(6,7)]
  have m: "monitor_cycle ?e w = (fst ?P, None)"
    using pn(1) by (simp add: cy(1) process_comments_Cons_if)
  then show "snd (monitor_cycle ?e w) = None" by simp
  from comments_env_fetched_state [OF ts, of p w undefined] obtain ext where
    e: "exchanges ?W = exchanges w @ ext" "fetched_ids ext = [JStr s]" by auto
  have "exchanges (fst ?P) = exchanges w @ ext @
          [(PostLike s (Some [84]), Raised (RequestException [120])),
           (PostReply s (Some [84]) (reply_template ?e a t), Raised (RequestException [120]))]"
    using pn(2) e(1) by simp
  then have "new_exchanges w (fst ?P) = ext @
          [(PostLike s (Some [84]), Raised (RequestException [120])),
           (PostReply s (Some [84]) (reply_template ?e a t), Raised (RequestException [120]))]"
    by (rule new_exchanges_append)
  then show "fetched_ids (new_exchanges w (fst (monitor_cycle ?e w))) = [JStr s]"
    using e(2) by (simp add: m)
  show "stats (fst (monitor_cycle ?e w)) \<noteq> None" by (rule cy(2))
qed

section \<open>Marking after the two attempts\<close>

text \<open>
  C2 (as amended). For a comment whose id is a string without lone surrogate and is not
  in the snapshot, and answers to the like and to the reply whose error texts can be
  encoded: the loop body sends the like, then the reply, whatever the remote side answers
  to either, no exception reaches the loop, and the id is appended to the file of
  processed comments. For a cycle that runs to its end: the file of processed comments
  is the earlier one with one line appended, in the order fetched, for every fetched
  comment whose id is not in the snapshot; for each such id at least one like and one
  reply were sent; and when the id is one that the file gives back as written, and the
  file was absent, empty or ended with a line feed, the id is in the set that
  \<^verbatim>\<open>load_processed_comments\<close> returns after the cycle.
\<close>

theorem marked_after_both_attempts:
  "(s \<notin> ids \<and> encodable s \<and>
    loggable e (remote e (exchanges w) (PostLike s (FACEBOOK_PAGE_ACCESS_TOKEN e))) \<and>
    loggable e
      (remote e
         (exchanges w @
          [(PostLike s (FACEBOOK_PAGE_ACCESS_TOKEN e),
            remote e (exchanges w) (PostLike s (FACEBOOK_PAGE_ACCESS_TOKEN e)))])
         (PostReply s (FACEBOOK_PAGE_ACCESS_TOKEN e) (reply_template e cauthor ctext))) \<longrightarrow>
      snd (process_comment e ids (JStr s, ctext, cauthor) w) = None \<and>
      new_exchanges w (fst (process_comment e ids (JStr s, ctext, cauthor) w)) =
        [(PostLike s (FACEBOOK_PAGE_ACCESS_TOKEN e),
          remote e (exchanges w) (PostLike s (FACEBOOK_PAGE_ACCESS_TOKEN e))),
         (PostReply s (FACEBOOK_PAGE_ACCESS_TOKEN e) (reply_template e cauthor ctext),
          remote e
            (exchanges w @
             [(PostLike s (FACEBOOK_PAGE_ACCESS_TOKEN e),
               remote e (exchanges w) (PostLike s (FACEBOOK_PAGE_ACCESS_TOKEN e)))])
            (PostReply s (FACEBOOK_PAGE_ACCESS_TOKEN e) (reply_template e cauthor ctext)))] \<and>
      processed_file (fst (process_comment e ids (JStr s, ctext, cauthor) w)) =
        append_text (processed_file w) (s @ [LF])) \<and>
   (snd (monitor_cycle e w) = None \<longrightarrow>
      processed_file (fst (monitor_cycle e w)) =
        marked (processed_file w)
          (unprocessed (load_processed_comments w)
             (fetched_ids (new_exchanges w (fst (monitor_cycle e w))))) \<and>
      (\<forall>c. JStr c \<in> set (fetched_ids (new_exchanges w (fst (monitor_cycle e w)))) \<and>
            c \<notin> load_processed_comments w \<longrightarrow>
         0 < likes_for c (new_exchanges w (fst (monitor_cycle e w))) \<and>
         0 < replies_for c (new_exchanges w (fst (monitor_cycle e w))) \<and>
         (clean_id c \<and> terminated (processed_file w) \<longrightarrow>
            c \<in> load_processed_comments (fst (monitor_cycle e w)))))"
proof (intro conjI impI allI)
  assume a: "s \<notin> ids \<and> encodable s \<and>
    loggable e (remote e (exchanges w) (PostLike s (FACEBOOK_PAGE_ACCESS_TOKEN e))) \<and>
    loggable e
      (remote e
         (exchanges w @
          [(PostLike s (FACEBOOK_PAGE_ACCESS_TOKEN e),
            remote e (exchanges w) (PostLike s (FACEBOOK_PAGE_ACCESS_TOKEN e)))])
         (PostReply s (FACEBOOK_PAGE_ACCESS_TOKEN e) (reply_template e cauthor ctext)))"
  then have a1: "s \<notin> ids" and a2: "encodable s"
    and a3: "loggable e (remote e (exchanges w) (PostLike s (FACEBOOK_PAGE_ACCESS_TOKEN e)))"
    and a4: "loggable e
      (remote e
         (exchanges w @
          [(PostLike s (FACEBOOK_PAGE_ACCESS_TOKEN e),
            remote e (exchanges w) (PostLike s (FACEBOOK_PAGE_ACCESS_TOKEN e)))])
         (PostReply s (FACEBOOK_PAGE_ACCESS_TOKEN e) (reply_template e cauthor ctext)))"
    by simp_all
  note p = process_comment_new [OF a1 a2 a3 a4]
  show "snd (process_comment e ids (JStr s, ctext, cauthor) w) = None" by (rule p(1))
  show "new_exchanges w (fst (process_comment e ids (JStr s, ctext, cauthor) w)) =
        [(PostLike s (FACEBOOK_PAGE_ACCESS_TOKEN e),
          remote e (exchanges w) (PostLike s (FACEBOOK_PAGE_ACCESS_TOKEN e))),
         (PostReply s (FACEBOOK_PAGE_ACCESS_TOKEN e) (reply_template e cauthor ctext),
          remote e
            (exchanges w @
             [(PostLike s (FACEBOOK_PAGE_ACCESS_TOKEN e),
               remote e (exchanges w) (PostLike s (FACEBOOK_PAGE_ACCESS_TOKEN e)))])
            (PostReply s (FACEBOOK_PAGE_ACCESS_TOKEN e) (reply_template e cauthor ctext)))]"
    by (rule new_exchanges_append) (rule p(2))
  show "processed_file (fst (process_comment e ids (JStr s, ctext, cauthor) w)) =
        append_text (processed_file w) (s @ [LF])" by (rule p(3))
next
  assume fin: "snd (monitor_cycle e w) = None"
  let ?w' = "fst (monitor_cycle e w)"
  from fin have c: "monitor_cycle e w = (?w', None)" by (simp add: prod_eq_iff)
  show "processed_file ?w' =
        marked (processed_file w)
          (unprocessed (load_processed_comments w) (fetched_ids (new_exchanges w ?w')))"
    by (rule monitor_cycle_done(5) [OF c])
next
  fix c
  assume fin: "snd (monitor_cycle e w) = None"
    and f: "JStr c \<in> set (fetched_ids (new_exchanges w (fst (monitor_cycle e w)))) \<and>
            c \<notin> load_processed_comments w"
  let ?w' = "fst (monitor_cycle e w)"
  from fin have m: "monitor_cycle e w = (?w', None)" by (simp add: prod_eq_iff)
  from f have "count_list (fetched_ids (new_exchanges w ?w')) (JStr c) \<noteq> 0"
    by (simp add: count_list_0_iff)
  with monitor_cycle_done(3,4) [OF m, of c] f
  show "0 < likes_for c (new_exchanges w ?w')" and "0 < replies_for c (new_exchanges w ?w')"
    by simp_all
next
  fix c
  assume fin: "snd (monitor_cycle e w) = None"
    and f: "JStr c \<in> set (fetched_ids (new_exchanges w (fst (monitor_cycle e w)))) \<and>
            c \<notin> load_processed_comments w"
    and g: "clean_id c \<and> terminated (processed_file w)"
  let ?w' = "fst (monitor_cycle e w)"
  from fin have m: "monitor_cycle e w = (?w', None)" by (simp add: prod_eq_iff)
  from f have "c \<in> set (unprocessed (load_processed_comments w)
                 (fetched_ids (new_exchanges w ?w')))"
    by (simp add: unprocessed_set)
  with marked_loaded [OF _ monitor_cycle_done(5) [OF m]] g
  show "c \<in> load_processed_comments ?w'" by blast
qed

text \<open>
  The theorem at the comment \<^verbatim>\<open>1_2\<close> with a remote side on which the like and the
  reply fail, and at a cycle over one post that fetches this comment.
\<close>

theorem marked_after_both_attempts_witness:
  "example_id \<notin> ({}::pystr set) \<and> encodable example_id \<and>
   loggable base_env (remote base_env (exchanges fresh_world) (PostLike example_id (Some [84]))) \<and>
   query_failed (remote base_env (exchanges fresh_world) (PostLike example_id (Some [84]))) \<and>
   snd (process_comment base_env {} (JStr example_id, JStr [104, 105], JStr [65, 110, 110])
          fresh_world) = None \<and>
   map fst (new_exchanges fresh_world
     (fst (process_comment base_env {} (JStr example_id, JStr [104, 105], JStr [65, 110, 110])
        fresh_world))) =
     [PostLike example_id (Some [84]),
      PostReply example_id (Some [84])
        (reply_template base_env (JStr [65, 110, 110]) (JStr [104, 105]))] \<and>
   processed_file
     (fst (process_comment base_env {} (JStr example_id, JStr [104, 105], JStr [65, 110, 110])
        fresh_world)) = Some (example_id @ [LF]) \<and>
   snd (monitor_cycle (comments_env [example_comment]) one_post_world) = None \<and>
   fetched_ids (new_exchanges one_post_world
     (fst (monitor_cycle (comments_env [example_comment]) one_post_world))) = [JStr example_id] \<and>
   example_id \<notin> load_processed_comments one_post_world \<and>
   clean_id example_id \<and> terminated (processed_file one_post_world) \<and>
   processed_file (fst (monitor_cycle (comments_env [example_comment]) one_post_world)) =
     Some (example_id @ [LF]) \<and>
   0 < likes_for example_id (new_exchanges one_post_world
         (fst (monitor_cycle (comments_env [example_comment]) one_post_world))) \<and>
   0 < replies_for example_id (new_exchanges one_post_world
         (fst (monitor_cycle (comments_env [example_comment]) one_post_world))) \<and>
   example_id \<in> load_processed_comments
     (fst (monitor_cycle (comments_env [example_comment]) one_post_world))"
proof -
  let ?c = "(JStr example_id, JStr [104, 105], JStr [65, 110, 110])"
  let ?p = "process_comment base_env {} ?c fresh_world"
  let ?text = "reply_template base_env (JStr [65, 110, 110]) (JStr [104, 105])"
  let ?e = "comments_env [example_comment]"
  let ?w' = "fst (monitor_cycle ?e one_post_world)"
  have t: "FACEBOOK_PAGE_ACCESS_TOKEN base_env = Some [84]"
    and r: "\<And>h req. remote base_env h req = Raised (RequestException [120])"
    by (simp_all add: base_env_def)
  have n: "example_id \<notin> ({}::pystr set)" by simp
  have lg: "loggable base_env
              (remote base_env (exchanges fresh_world) (PostLike example_id (Some [84])))"
    by (simp add: r)
  have lg': "loggable base_env
      (remote base_env
         (exchanges fresh_world @
          [(PostLike example_id (FACEBOOK_PAGE_ACCESS_TOKEN base_env),
            remote base_env (exchanges fresh_world)
              (PostLike example_id (FACEBOOK_PAGE_ACCESS_TOKEN base_env)))])
         (PostReply example_id (FACEBOOK_PAGE_ACCESS_TOKEN base_env) ?text))"
    by (simp add: r)
  have qf: "query_failed
              (remote base_env (exchanges fresh_world) (PostLike example_id (Some [84])))"
    by (simp add: r query_failed_def)
  have a: "append_text (processed_file fresh_world) (example_id @ [LF]) =
           Some (example_id @ [LF])"
    by (simp add: fresh_world_def append_text_def)
  note th = marked_after_both_attempts
    [where s = example_id and ids = "{}" and e = base_env and w = fresh_world and
       cauthor = "JStr [65, 110, 110]" and ctext = "JStr [104, 105]"]
  from th n encodable_example_id lg lg' have A:
    "snd ?p = None \<and>
     new_exchanges fresh_world (fst ?p) =
       [(PostLike example_id (FACEBOOK_PAGE_ACCESS_TOKEN base_env),
         remote base_env (exchanges fresh_world)
           (PostLike example_id (FACEBOOK_PAGE_ACCESS_TOKEN base_env))),
        (PostReply example_id (FACEBOOK_PAGE_ACCESS_TOKEN base_env) ?text,
         remote base_env
           (exchanges fresh_world @
            [(PostLike example_id (FACEBOOK_PAGE_ACCESS_TOKEN base_env),
              remote base_env (exchanges fresh_world)
                (PostLike example_id (FACEBOOK_PAGE_ACCESS_TOKEN base_env)))])
           (PostReply example_id (FACEBOOK_PAGE_ACCESS_TOKEN base_env) ?text))] \<and>
     processed_file (fst ?p) = append_text (processed_file fresh_world) (example_id @ [LF])"
    by (simp only: t simp_thms)
  then have A': "snd ?p = None"
    "map fst (new_exchanges fresh_world (fst ?p)) =
       [PostLike example_id (Some [84]), PostReply example_id (Some [84]) ?text]"
    "processed_file (fst ?p) = Some (example_id @ [LF])"
    by (simp_all add: t a)
  have ni: "example_id \<notin> load_processed_comments one_post_world"
    by (simp add: one_post_world_facts)
  note sc = single_comment_cycle [OF one_post_world_facts(1) kept_string_examples(1)
      encodable_example_id one_post_world_facts(3) example_comment_tuple ni encodable_example_id]
  note th2 = marked_after_both_attempts [where e = "?e" and w = one_post_world]
  from th2 sc(1) have B:
    "processed_file ?w' =
       marked (processed_file one_post_world)
         (unprocessed (load_processed_comments one_post_world)
            (fetched_ids (new_exchanges one_post_world ?w')))"
    and C: "\<And>c. JStr c \<in> set (fetched_ids (new_exchanges one_post_world ?w')) \<and>
            c \<notin> load_processed_comments one_post_world \<Longrightarrow>
         0 < likes_for c (new_exchanges one_post_world ?w') \<and>
         0 < replies_for c (new_exchanges one_post_world ?w') \<and>
         (clean_id c \<and> terminated (processed_file one_post_world) \<longrightarrow>
            c \<in> load_processed_comments ?w')"
    by blast+
  from B have B': "processed_file ?w' = Some (example_id @ [LF])"
    by (simp add: sc(2) one_post_world_facts append_text_def)
  from C [of example_id] ni clean_example_id one_post_world_facts(4)
  have C': "0 < likes_for example_id (new_exchanges one_post_world ?w')"
    "0 < replies_for example_id (new_exchanges one_post_world ?w')"
    "example_id \<in> load_processed_comments ?w'"
    by (simp_all add: sc(2))
  from n encodable_example_id lg qf A' sc(1,2) ni clean_example_id one_post_world_facts(4) B' C'
  show ?thesis by (simp only: simp_thms)
qed

text \<open>
  C2 as stated fails for a comment that carries no id: its id is \<^verbatim>\<open>None\<close>, the like
  and the reply are sent to the URL of \<^verbatim>\<open>None\<close>, and the marking raises
  \<^verbatim>\<open>TypeError\<close>, which ends the loop. The comment is not marked: the file is created
  empty. And a failure inside \<^verbatim>\<open>like_comment\<close> can reach the loop: for a comment id
  with a lone surrogate, here U+D800, the line that the exception handler writes to the
  log cannot be encoded, and \<^verbatim>\<open>UnicodeEncodeError\<close> leaves the function after the
  request was sent.
\<close>

theorem unmarked_without_id:
  "fetched_ids (new_exchanges one_post_world
     (fst (monitor_cycle (comments_env [no_id_comment]) one_post_world))) = [JNull] \<and>
   likes_for (ascii ''None'') (new_exchanges one_post_world
     (fst (monitor_cycle (comments_env [no_id_comment]) one_post_world))) = 1 \<and>
   replies_for (ascii ''None'') (new_exchanges one_post_world
     (fst (monitor_cycle (comments_env [no_id_comment]) one_post_world))) = 1 \<and>
   snd (monitor_cycle (comments_env [no_id_comment]) one_post_world) =
     Some (TypeError_concat JNull) \<and>
   processed_file (fst (monitor_cycle (comments_env [no_id_comment]) one_post_world)) =
     Some [] \<and>
   load_processed_comments (fst (monitor_cycle (comments_env [no_id_comment]) one_post_world)) =
     {} \<and>
   query_failed (remote base_env (exchanges fresh_world) (PostLike [55296] (Some [84]))) \<and>
   snd (like_comment base_env (JStr [55296]) fresh_world) =
     Some (UnicodeEncodeError
       (log_line [48] (ascii ''like_comment'')
          (word_exception @ ascii '' '' @ [55296] @ ascii '': '' @ [120]))) \<and>
   exchanges (fst (like_comment base_env (JStr [55296]) fresh_world)) =
     [(PostLike [55296] (Some [84]), Raised (RequestException [120]))]"
proof -
  let ?e = "comments_env [no_id_comment]"
  let ?W = "fetched_state ?e example_id one_post_world"
  let ?t = "JStr [104, 105]" and ?a = "JStr [65, 110, 110]"
  let ?P = "process_comment ?e {} (JNull, ?t, ?a) ?W"
  have ts: "comment_tuples [no_id_comment] [] = Inr [(JNull, ?t, ?a)]"
    by (simp add: no_id_comment_tuple)
  note cy = comments_env_cycle [OF one_post_world_facts(1) kept_string_examples(1)
      encodable_example_id one_post_world_facts(3) ts]
  have ni: "not_in_processed JNull {} = Inr True" by (simp add: not_in_processed_def)
  have en: "encodable (py_str ?e JNull)" by simp
  note pu = process_comment_unmarked [of JNull "{}" ?e ?W ?a ?t, OF ni _ en]
  have u: "snd ?P = Some (TypeError_concat JNull)"
    "exchanges (fst ?P) = exchanges ?W @
       [(PostLike (ascii ''None'') (Some [84]), Raised (RequestException [120])),
        (PostReply (ascii ''None'') (Some [84]) (reply_template ?e ?a ?t),
         Raised (RequestException [120]))]"
    "processed_file (fst ?P) = append_text (processed_file ?W) []"
    using pu by simp_all
  have m: "monitor_cycle ?e one_post_world = ?P"
    using u(1) by (simp add: cy(1) one_post_world_facts process_comments_Cons_if)
  from comments_env_fetched_state [OF ts, of example_id one_post_world "ascii ''None''"]
  obtain ext where
    e: "exchanges ?W = exchanges one_post_world @ ext" "fetched_ids ext = [JNull]"
       "likes_for (ascii ''None'') ext = 0" "replies_for (ascii ''None'') ext = 0"
    by auto
  have "exchanges (fst ?P) = exchanges one_post_world @ ext @
       [(PostLike (ascii ''None'') (Some [84]), Raised (RequestException [120])),
        (PostReply (ascii ''None'') (Some [84]) (reply_template ?e ?a ?t),
         Raised (RequestException [120]))]"
    using u(2) e(1) by simp
  then have n: "new_exchanges one_post_world (fst ?P) = ext @
       [(PostLike (ascii ''None'') (Some [84]), Raised (RequestException [120])),
        (PostReply (ascii ''None'') (Some [84]) (reply_template ?e ?a ?t),
         Raised (RequestException [120]))]"
    by (rule new_exchanges_append)
  have pf: "processed_file (fst ?P) = Some []"
    using u(3) by (simp add: one_post_world_facts append_text_def)
  then have ld: "load_processed_comments (fst ?P) = {}"
    by (simp add: load_processed_comments_def text_lines_def)
  have sg: "query_failed (remote base_env (exchanges fresh_world) (PostLike [55296] (Some [84])))"
    "snd (like_comment base_env (JStr [55296]) fresh_world) =
     Some (UnicodeEncodeError
       (log_line [48] (ascii ''like_comment'')
          (word_exception @ ascii '' '' @ [55296] @ ascii '': '' @ [120])))"
    "exchanges (fst (like_comment base_env (JStr [55296]) fresh_world)) =
     [(PostLike [55296] (Some [84]), Raised (RequestException [120]))]"
    by (simp_all add: like_comment_def engagement_logged_def log_action_def http_def Let_def
        base_env_def fresh_world_def py_str_def query_failed_def is_surrogate_def
        nat_digits.simps)
  have "fetched_ids (new_exchanges one_post_world (fst (monitor_cycle ?e one_post_world))) =
          [JNull] \<and>
        likes_for (ascii ''None'')
          (new_exchanges one_post_world (fst (monitor_cycle ?e one_post_world))) = 1 \<and>
        replies_for (ascii ''None'')
          (new_exchanges one_post_world (fst (monitor_cycle ?e one_post_world))) = 1 \<and>
        snd (monitor_cycle ?e one_post_world) = Some (TypeError_concat JNull) \<and>
        processed_file (fst (monitor_cycle ?e one_post_world)) = Some [] \<and>
        load_processed_comments (fst (monitor_cycle ?e one_post_world)) = {}"
    unfolding m n using e(2-4) u(1) pf ld by simp
  with sg show ?thesis by (simp only: simp_thms)
qed

section \<open>Duplicates within a cycle\<close>

text \<open>
  C10 (as amended). A cycle tests every comment against the set read at its start, which
  it never updates. So in a cycle that runs to its end every fetched comment id is a
  string, and for a comment id that is not in that set the number of like requests and
  the number of reply requests sent for the id both equal the number of times the id
  occurs in the comment lists fetched in the cycle: twice for an id that occurs twice.
\<close>

theorem duplicates_engaged_again:
  assumes "snd (monitor_cycle e w) = None"
    and "cid \<notin> load_processed_comments w"
  shows "monitor_cycle e w =
           process_posts e (load_processed_comments w) (load_posted_posts w) w \<and>
         string_ids (fetched_ids (new_exchanges w (fst (monitor_cycle e w)))) \<and>
         likes_for cid (new_exchanges w (fst (monitor_cycle e w))) =
           count_list (fetched_ids (new_exchanges w (fst (monitor_cycle e w)))) (JStr cid) \<and>
         replies_for cid (new_exchanges w (fst (monitor_cycle e w))) =
           count_list (fetched_ids (new_exchanges w (fst (monitor_cycle e w)))) (JStr cid)"
proof -
  let ?w' = "fst (monitor_cycle e w)"
  have m: "monitor_cycle e w =
           process_posts e (load_processed_comments w) (load_posted_posts w) w"
    by (simp add: monitor_cycle_def Let_def)
  from assms(1) have c: "monitor_cycle e w = (?w', None)" by (simp add: prod_eq_iff)
  note d = monitor_cycle_done [OF c]
  from d(3,4) [of cid] assms(2)
  have "likes_for cid (new_exchanges w ?w') =
           count_list (fetched_ids (new_exchanges w ?w')) (JStr cid)"
    and "replies_for cid (new_exchanges w ?w') =
           count_list (fetched_ids (new_exchanges w ?w')) (JStr cid)"
    by simp_all
  with m d(2) show ?thesis by (simp only: simp_thms)
qed

text \<open>A cycle over one post whose comment list holds the comment \<^verbatim>\<open>1_2\<close> twice.\<close>

lemma dup_cycle:
  "snd (monitor_cycle (comments_env [example_comment, example_comment]) one_post_world) = None"
  "fetched_ids (new_exchanges one_post_world
     (fst (monitor_cycle (comments_env [example_comment, example_comment]) one_post_world))) =
   [JStr example_id, JStr example_id]"
proof -
  let ?e = "comments_env [example_comment, example_comment]"
  let ?W = "fetched_state ?e example_id one_post_world"
  let ?t = "JStr [104, 105]" and ?a = "JStr [65, 110, 110]"
  let ?P = "process_comment ?e {} (JStr example_id, ?t, ?a) ?W"
  let ?Q = "process_comment ?e {} (JStr example_id, ?t, ?a) (fst ?P)"
  let ?L = "(PostLike example_id (Some [84]), Raised (RequestException [120]))"
  let ?R = "(PostReply example_id (Some [84]) (reply_template ?e ?a ?t),
             Raised (RequestException [120]))"
  have ts: "comment_tuples [example_comment, example_comment] [] =
            Inr [(JStr example_id, ?t, ?a), (JStr example_id, ?t, ?a)]"
    by (simp add: example_comment_tuple)
  note cy = comments_env_cycle [OF one_post_world_facts(1) kept_string_examples(1)
      encodable_example_id one_post_world_facts(3) ts]
  have n: "example_id \<notin> ({}::pystr set)" by simp
  note p = process_comment_new [of example_id "{}" ?e ?W ?a ?t, OF n encodable_example_id]
  note q = process_comment_new [of example_id "{}" ?e "fst ?P" ?a ?t, OF n encodable_example_id]
  have p1: "snd ?P = None" "exchanges (fst ?P) = exchanges ?W @ [?L, ?R]"
    using p by simp_all
  have q1: "snd ?Q = None" "exchanges (fst ?Q) = exchanges (fst ?P) @ [?L, ?R]"
    using q by simp_all
  have m: "monitor_cycle ?e one_post_world = (fst ?Q, None)"
    using p1(1) q1(1) by (simp add: cy(1) one_post_world_facts process_comments_Cons_if)
  then show "snd (monitor_cycle ?e one_post_world) = None" by simp
  from comments_env_fetched_state [OF ts, of example_id one_post_world undefined]
  obtain ext where
    e: "exchanges ?W = exchanges one_post_world @ ext"
       "fetched_ids ext = [JStr example_id, JStr example_id]"
    by auto
  have "exchanges (fst ?Q) = exchanges one_post_world @ ext @ [?L, ?R, ?L, ?R]"
    using p1(2) q1(2) e(1) by simp
  then have "new_exchanges one_post_world (fst ?Q) = ext @ [?L, ?R, ?L, ?R]"
    by (rule new_exchanges_append)
  then show "fetched_ids (new_exchanges one_post_world (fst (monitor_cycle ?e one_post_world))) =
             [JStr example_id, JStr example_id]"
    using e(2) by (simp add: m)
qed

theorem duplicates_engaged_again_witness:
  "snd (monitor_cycle (comments_env [example_comment, example_comment]) one_post_world) = None \<and>
   example_id \<notin> load_processed_comments one_post_world \<and>
   fetched_ids (new_exchanges one_post_world
     (fst (monitor_cycle (comments_env [example_comment, example_comment]) one_post_world))) =
     [JStr example_id, JStr example_id] \<and>
   likes_for example_id (new_exchanges one_post_world
     (fst (monitor_cycle (comments_env [example_comment, example_comment]) one_post_world))) = 2 \<and>
   replies_for example_id (new_exchanges one_post_world
     (fst (monitor_cycle (comments_env [example_comment, example_comment]) one_post_world))) = 2"
proof -
  let ?e = "comments_env [example_comment, example_comment]"
  let ?new = "new_exchanges one_post_world (fst (monitor_cycle ?e one_post_world))"
  have a: "example_id \<notin> load_processed_comments one_post_world"
    by (simp add: one_post_world_facts)
  note t = duplicates_engaged_again [OF dup_cycle(1) a]
  from t have "likes_for example_id ?new = count_list (fetched_ids ?new) (JStr example_id)"
    and "replies_for example_id ?new = count_list (fetched_ids ?new) (JStr example_id)"
    by blast+
  then have "likes_for example_id ?new = 2" and "replies_for example_id ?new = 2"
    by (simp_all add: dup_cycle(2))
  with dup_cycle a show ?thesis by (simp only: simp_thms)
qed

text \<open>
  C10 as stated fails when the cycle does not run to its end. The remote side sends the
  comment \<^verbatim>\<open>1_2\<close>, a comment without id, and the comment \<^verbatim>\<open>1_2\<close> again: the id is
  in the fetched list twice and not in the snapshot, the first occurrence is liked and
  replied to, the marking of the comment without id raises \<^verbatim>\<open>TypeError\<close>, and the
  second occurrence is never reached.
\<close>

theorem duplicate_behind_failure:
  "example_id \<notin> load_processed_comments one_post_world \<and>
   count_list (fetched_ids (new_exchanges one_post_world
     (fst (monitor_cycle (comments_env [example_comment, no_id_comment, example_comment])
        one_post_world)))) (JStr example_id) = 2 \<and>
   likes_for example_id (new_exchanges one_post_world
     (fst (monitor_cycle (comments_env [example_comment, no_id_comment, example_comment])
        one_post_world))) = 1 \<and>
   replies_for example_id (new_exchanges one_post_world
     (fst (monitor_cycle (comments_env [example_comment, no_id_comment, example_comment])
        one_post_world))) = 1 \<and>
   snd (monitor_cycle (comments_env [example_comment, no_id_comment, example_comment])
         one_post_world) = Some (TypeError_concat JNull)"
proof -
  let ?e = "comments_env [example_comment, no_id_comment, example_comment]"
  let ?W = "fetched_state ?e example_id one_post_world"
  let ?t = "JStr [104, 105]" and ?a = "JStr [65, 110, 110]"
  let ?P = "process_comment ?e {} (JStr example_id, ?t, ?a) ?W"
  let ?Q = "process_comment ?e {} (JNull, ?t, ?a) (fst ?P)"
  let ?L = "(PostLike example_id (Some [84]), Raised (RequestException [120]))"
  let ?R = "(PostReply example_id (Some [84]) (reply_template ?e ?a ?t),
             Raised (RequestException [120]))"
  let ?L' = "(PostLike (ascii ''None'') (Some [84]), Raised (RequestException [120]))"
  let ?R' = "(PostReply (ascii ''None'') (Some [84]) (reply_template ?e ?a ?t),
             Raised (RequestException [120]))"
  have ts: "comment_tuples [example_comment, no_id_comment, example_comment] [] =
            Inr [(JStr example_id, ?t, ?a), (JNull, ?t, ?a), (JStr example_id, ?t, ?a)]"
    by (simp add: example_comment_tuple no_id_comment_tuple)
  note cy = comments_env_cycle [OF one_post_world_facts(1) kept_string_examples(1)
      encodable_example_id one_post_world_facts(3) ts]
  have n: "example_id \<notin> ({}::pystr set)" by simp
  note p = process_comment_new [of example_id "{}" ?e ?W ?a ?t, OF n encodable_example_id]
  have p1: "snd ?P = None" "exchanges (fst ?P) = exchanges ?W @ [?L, ?R]"
    using p by simp_all
  have ni: "not_in_processed JNull {} = Inr True" by (simp add: not_in_processed_def)
  have en: "encodable (py_str ?e JNull)" by simp
  note q = process_comment_unmarked [of JNull "{}" ?e "fst ?P" ?a ?t, OF ni _ en]
  have q1: "snd ?Q = Some (TypeError_concat JNull)"
    "exchanges (fst ?Q) = exchanges (fst ?P) @ [?L', ?R']"
    using q by simp_all
  have m: "monitor_cycle ?e one_post_world = ?Q"
    using p1(1) q1(1) by (simp add: cy(1) one_post_world_facts process_comments_Cons_if)
  from comments_env_fetched_state [OF ts, of example_id one_post_world example_id]
  obtain ext where
    e: "exchanges ?W = exchanges one_post_world @ ext"
       "fetched_ids ext = [JStr example_id, JNull, JStr example_id]"
       "likes_for example_id ext = 0" "replies_for example_id ext = 0"
    by auto
  have "exchanges (fst ?Q) = exchanges one_post_world @ ext @ [?L, ?R, ?L', ?R']"
    using p1(2) q1(2) e(1) by simp
  then have nw: "new_exchanges one_post_world (fst ?Q) = ext @ [?L, ?R, ?L', ?R']"
    by (rule new_exchanges_append)
  have d: "ascii ''None'' \<noteq> example_id" by (simp add: ascii_def example_id_def)
  show ?thesis
    unfolding m nw using e(2-4) q1(1) d by (simp add: one_post_world_facts)
qed

section \<open>Engagement across cycles\<close>

lemma processed_never_engaged:
  "monitor_posts_loop n e w = (w', None) \<Longrightarrow> terminated (processed_file w) \<Longrightarrow>
     cid \<in> load_processed_comments w \<Longrightarrow>
     likes_for cid (exchanges w') = likes_for cid (exchanges w) \<and>
     replies_for cid (exchanges w') = replies_for cid (exchanges w)"
proof (induction n arbitrary: w)
  case 0
  then show ?case by simp
next
  case (Suc n)
  obtain w1 x1 where c: "monitor_cycle e w = (w1, x1)" by (cases "monitor_cycle e w")
  with Suc.prems(1) have x1: "x1 = None" by (cases x1) simp_all
  with c Suc.prems(1) have r: "monitor_posts_loop n e w1 = (w', None)" by simp
  note d = monitor_cycle_done [OF c [unfolded x1]]
  from d(1) d(3) [of cid] d(4) [of cid] Suc.prems(3)
  have k: "likes_for cid (exchanges w1) = likes_for cid (exchanges w)"
          "replies_for cid (exchanges w1) = replies_for cid (exchanges w)"
    by (metis add.right_neutral likes_for_append, metis add.right_neutral replies_for_append)
  note l = marked_loaded [OF Suc.prems(2) d(5)]
  from l Suc.prems(3) have "cid \<in> load_processed_comments w1" by auto
  from Suc.IH [OF r _ this] l k show ?case by simp
qed

lemma empty_never_loaded: "[] \<notin> load_processed_comments w"
  by (simp add: load_processed_comments_def load_processed_lines_eq split: option.splits)

text \<open>
  A cycle over one post that fetches one comment whose id is in the snapshot, and any
  number of such cycles.
\<close>

lemma known_comment_cycle:
  assumes "load_posted_posts w = [p]" and "kept_string p" and "encodable p"
    and "stats w \<noteq> None" and "comment_tuple c = Inr (JStr s, t, a)"
    and "s \<in> load_processed_comments w"
  shows "snd (monitor_cycle (comments_env [c]) w) = None"
    and "stats (fst (monitor_cycle (comments_env [c]) w)) \<noteq> None"
proof -
  have ts: "comment_tuples [c] [] = Inr [(JStr s, t, a)]" using assms(5) by simp
  note cy = comments_env_cycle [OF assms(1-4) ts]
  show "snd (monitor_cycle (comments_env [c]) w) = None"
    using assms(6) by (simp add: cy(1) process_comments_Cons_if process_comment_old)
  show "stats (fst (monitor_cycle (comments_env [c]) w)) \<noteq> None" by (rule cy(2))
qed

lemma known_comment_cycles:
  "load_posted_posts w = [p] \<Longrightarrow> kept_string p \<Longrightarrow> encodable p \<Longrightarrow> stats w \<noteq> None \<Longrightarrow>
     terminated (processed_file w) \<Longrightarrow> comment_tuple c = Inr (JStr s, t, a) \<Longrightarrow>
     s \<in> load_processed_comments w \<Longrightarrow>
     snd (monitor_posts_loop n (comments_env [c]) w) = None"
proof (induction n arbitrary: w)
  case 0
  then show ?case by simp
next
  case (Suc n)
  let ?e = "comments_env [c]"
  let ?w1 = "fst (monitor_cycle ?e w)"
  note k = known_comment_cycle [OF Suc.prems(1-4) Suc.prems(6,7)]
  from k(1) have m: "monitor_cycle ?e w = (?w1, None)" by (simp add: prod_eq_iff)
  note d = monitor_cycle_done [OF m]
  have p1: "load_posted_posts ?w1 = [p]"
    using load_posted_posts_cong [OF d(6)] Suc.prems(1) by simp
  note l = marked_loaded [OF Suc.prems(5) d(5)]
  from l Suc.prems(7) have s1: "s \<in> load_processed_comments ?w1" by auto
  from l have t1: "terminated (processed_file ?w1)" by simp
  have "monitor_posts_loop (Suc n) ?e w = monitor_posts_loop n ?e ?w1"
    by (rule monitor_posts_loop_step [OF k(1)])
  with Suc.IH [OF p1 Suc.prems(2,3) k(2) t1 Suc.prems(6) s1] show ?case by simp
qed


lemma processed_world_facts:
  "load_posted_posts processed_world = [example_id]"
  "stats processed_world \<noteq> None"
  "terminated (processed_file processed_world)"
  "example_id \<in> load_processed_comments processed_world"
  "exchanges processed_world = []"
  by (simp_all add: processed_world_def one_post_world_def fresh_world_def example_id_def
      load_posted_posts_def load_processed_comments_def terminated_def text_lines_def
      py_strip_def py_isspace_def)



end
